(* ===== verification/Prelude.thy ===== *)
theory Prelude
  imports
    Complex_Main
    "HOL-Library.AList"
    "HOL-Library.Char_ord"
    "HOL-Library.List_Lexorder"
    "HOL-Library.Product_Lexorder"
begin

text \<open>
  What every other theory of the development shares: the exceptions of the program as a
  datatype, effectful Python code as functions from a state to a result and a new state, the
  \<open>try\<close> statements and loops as combinators, a weakest-precondition calculus for them,
  and the few string methods the code uses.

  A Python \<open>str\<close> is represented by its UTF-8 bytes (lone surrogates by the three bytes
  UTF-8 would give them), so \<open>encode\<close> is the identity on the representation and
  code-point order is byte order. A Python \<open>bytes\<close> is the same type. Case mappings and
  character classes are those of ASCII.
\<close>

section \<open>Exceptions\<close>

text \<open>
  The numbers an operating-system call can fail with for reasons outside the file system's
  state come first (\<open>io_errno\<close>): these are the ones a fault can inject. The others report
  something about the state itself (a missing name, an existing name, a symbolic link).
\<close>

datatype io_errno = EACCES | EPERM | EINTR | EAGAIN | EDEADLK | EINVAL | ENOTSUP | ENOSYS | EIO | ENOSPC

datatype errno = Io io_errno | ENOENT | EEXIST | ELOOP | EISDIR | EBADF | NoErrno

datatype exn =
    OSError errno
  | ValueError string
  | JSONDecodeError
  | UnicodeDecodeError
  | UnicodeEncodeError
  | ConfigError string
  | TypeError string
  | KeyError
  | UnboundLocalError
  | OverflowError
  | RecursionError
  | RuntimeError string
  | AssertionError
  | AttributeError
  | ImportError
  | OtherError string
  | SystemExit
  | Killed
  | Hang

text \<open>
  \<open>Killed\<close> is not an exception: the process dies, so no handler and no
  \<open>finally\<close> clause runs. \<open>Hang\<close> is a call that never returns.
  The class tests follow Python's hierarchy: \<open>FileNotFoundError\<close>,
  \<open>FileExistsError\<close> and \<open>BlockingIOError\<close> are \<open>OSError\<close> with one
  number; the decoding errors and \<open>ConfigError\<close> are \<open>ValueError\<close>.
\<close>

fun fatal :: "exn \<Rightarrow> bool" where
  "fatal Killed = True"
| "fatal Hang = True"
| "fatal _ = False"

text \<open>\<open>except Exception\<close> catches all but \<open>SystemExit\<close>; \<open>OtherError\<close> is an exception of a class named in the text.\<close>

fun is_Exception :: "exn \<Rightarrow> bool" where
  "is_Exception SystemExit = False"
| "is_Exception Killed = False"
| "is_Exception Hang = False"
| "is_Exception _ = True"

fun is_OSError :: "exn \<Rightarrow> bool" where
  "is_OSError (OSError _) = True"
| "is_OSError _ = False"

fun is_ValueError :: "exn \<Rightarrow> bool" where
  "is_ValueError (ValueError _) = True"
| "is_ValueError JSONDecodeError = True"
| "is_ValueError UnicodeDecodeError = True"
| "is_ValueError UnicodeEncodeError = True"
| "is_ValueError (ConfigError _) = True"
| "is_ValueError _ = False"

definition is_FileNotFoundError :: "exn \<Rightarrow> bool" where
  "is_FileNotFoundError e \<longleftrightarrow> e = OSError ENOENT"

definition is_FileExistsError :: "exn \<Rightarrow> bool" where
  "is_FileExistsError e \<longleftrightarrow> e = OSError EEXIST"

definition is_BlockingIOError :: "exn \<Rightarrow> bool" where
  "is_BlockingIOError e \<longleftrightarrow> e = OSError (Io EAGAIN)"

definition any_exn :: "exn \<Rightarrow> bool" where
  "any_exn e \<longleftrightarrow> True"

lemma any_exn_simp [simp]: "any_exn e"
  by (simp add: any_exn_def)

lemma exn_class_simps [simp]:
  "is_FileNotFoundError (OSError n) \<longleftrightarrow> n = ENOENT"
  "is_FileExistsError (OSError n) \<longleftrightarrow> n = EEXIST"
  "is_BlockingIOError (OSError n) \<longleftrightarrow> n = Io EAGAIN"
  "\<not> is_FileNotFoundError (ValueError m)"
  "\<not> is_FileExistsError (ValueError m)"
  "\<not> is_BlockingIOError (ValueError m)"
  by (simp_all add: is_FileNotFoundError_def is_FileExistsError_def is_BlockingIOError_def)

section \<open>Effectful code\<close>

type_synonym ('w, 'a) prog = "'w \<Rightarrow> (exn + 'a) \<times> 'w"

definition ret :: "'a \<Rightarrow> ('w, 'a) prog" where
  "ret x w = (Inr x, w)"

definition throw :: "exn \<Rightarrow> ('w, 'a) prog" where
  "throw e w = (Inl e, w)"

definition bnd :: "('w, 'a) prog \<Rightarrow> ('a \<Rightarrow> ('w, 'b) prog) \<Rightarrow> ('w, 'b) prog" where
  "bnd m f w = (case m w of (Inl e, w') \<Rightarrow> (Inl e, w') | (Inr x, w') \<Rightarrow> f x w')"

definition andthen :: "('w, 'a) prog \<Rightarrow> ('w, 'b) prog \<Rightarrow> ('w, 'b) prog" where
  "andthen m k = bnd m (\<lambda>_. k)"

definition gets :: "('w \<Rightarrow> 'a) \<Rightarrow> ('w, 'a) prog" where
  "gets f w = (Inr (f w), w)"

definition modify :: "('w \<Rightarrow> 'w) \<Rightarrow> ('w, unit) prog" where
  "modify f w = (Inr (), f w)"

definition lift_result :: "exn + 'a \<Rightarrow> ('w, 'a) prog" where
  "lift_result r w = (r, w)"

text \<open>\<open>try: m finally: h\<close>; an exception of \<open>h\<close> replaces the one of \<open>m\<close>.\<close>

definition try_finally :: "('w, 'a) prog \<Rightarrow> ('w, 'b) prog \<Rightarrow> ('w, 'a) prog" where
  "try_finally m h w =
     (case m w of (r, w') \<Rightarrow>
        (case r of
           Inl e \<Rightarrow> if fatal e then (Inl e, w')
                     else (case h w' of (Inl e', w'') \<Rightarrow> (Inl e', w'') | (Inr _, w'') \<Rightarrow> (Inl e, w''))
         | Inr x \<Rightarrow> (case h w' of (Inl e', w'') \<Rightarrow> (Inl e', w'') | (Inr _, w'') \<Rightarrow> (Inr x, w''))))"

text \<open>
  \<open>try: m except p as e: h e else: k\<close>: the \<open>else\<close> part runs outside the handler.
\<close>

definition try_else ::
  "('w, 'a) prog \<Rightarrow> (exn \<Rightarrow> bool) \<Rightarrow> (exn \<Rightarrow> ('w, 'b) prog) \<Rightarrow> ('a \<Rightarrow> ('w, 'b) prog) \<Rightarrow> ('w, 'b) prog" where
  "try_else m p h k w =
     (case m w of
        (Inl e, w') \<Rightarrow> if \<not> fatal e \<and> p e then h e w' else (Inl e, w')
      | (Inr x, w') \<Rightarrow> k x w')"

definition try_except ::
  "('w, 'a) prog \<Rightarrow> (exn \<Rightarrow> bool) \<Rightarrow> (exn \<Rightarrow> ('w, 'a) prog) \<Rightarrow> ('w, 'a) prog" where
  "try_except m p h = try_else m p h ret"

text \<open>\<open>with suppress(p): m\<close>.\<close>

definition suppress :: "(exn \<Rightarrow> bool) \<Rightarrow> ('w, unit) prog \<Rightarrow> ('w, unit) prog" where
  "suppress p m = try_except m p (\<lambda>_. ret ())"

definition when_m :: "bool \<Rightarrow> ('w, unit) prog \<Rightarrow> ('w, unit) prog" where
  "when_m b m = (if b then m else ret ())"

text \<open>
  Loops: a \<open>for\<close> over a snapshot (\<open>continue\<close> is the end of the body); a \<open>for\<close>
  that may \<open>break\<close> or \<open>return\<close> (the body gives \<open>Some\<close>); a \<open>for\<close> that
  threads an accumulator; and \<open>for n in range(k)\<close> with an early exit.
\<close>

primrec for_each :: "'x list \<Rightarrow> ('x \<Rightarrow> ('w, unit) prog) \<Rightarrow> ('w, unit) prog" where
  "for_each [] f = ret ()"
| "for_each (x # xs) f = andthen (f x) (for_each xs f)"

primrec for_some :: "'x list \<Rightarrow> ('x \<Rightarrow> ('w, 'r option) prog) \<Rightarrow> ('w, 'r option) prog" where
  "for_some [] f = ret None"
| "for_some (x # xs) f =
     bnd (f x) (\<lambda>r. case r of Some y \<Rightarrow> ret (Some y) | None \<Rightarrow> for_some xs f)"

primrec for_acc :: "'x list \<Rightarrow> 'a \<Rightarrow> ('x \<Rightarrow> 'a \<Rightarrow> ('w, 'a) prog) \<Rightarrow> ('w, 'a) prog" where
  "for_acc [] a f = ret a"
| "for_acc (x # xs) a f = bnd (f x a) (\<lambda>a'. for_acc xs a' f)"

primrec for_range :: "nat \<Rightarrow> nat \<Rightarrow> (nat \<Rightarrow> ('w, 'r option) prog) \<Rightarrow> ('w, 'r option) prog" where
  "for_range 0 i f = ret None"
| "for_range (Suc k) i f =
     bnd (f i) (\<lambda>r. case r of Some y \<Rightarrow> ret (Some y) | None \<Rightarrow> for_range k (Suc i) f)"

primrec map_m :: "('x \<Rightarrow> ('w, 'y) prog) \<Rightarrow> 'x list \<Rightarrow> ('w, 'y list) prog" where
  "map_m f [] = ret []"
| "map_m f (x # xs) = bnd (f x) (\<lambda>y. bnd (map_m f xs) (\<lambda>ys. ret (y # ys)))"

primrec filter_m :: "('x \<Rightarrow> ('w, bool) prog) \<Rightarrow> 'x list \<Rightarrow> ('w, 'x list) prog" where
  "filter_m f [] = ret []"
| "filter_m f (x # xs) =
     bnd (f x) (\<lambda>b. bnd (filter_m f xs) (\<lambda>ys. ret (if b then x # ys else ys)))"

text \<open>Code without state that may raise: a value of \<open>exn + 'a\<close>.\<close>

definition bind_result :: "exn + 'a \<Rightarrow> ('a \<Rightarrow> exn + 'b) \<Rightarrow> exn + 'b" where
  "bind_result r f = (case r of Inl e \<Rightarrow> Inl e | Inr x \<Rightarrow> f x)"

definition require :: "bool \<Rightarrow> exn \<Rightarrow> exn + unit" where
  "require b e = (if b then Inr () else Inl e)"

lemma bind_result_simps [simp]:
  "bind_result (Inl e) f = Inl e" "bind_result (Inr x) f = f x"
  by (simp_all add: bind_result_def)

lemma bind_result_Inr: "bind_result r f = Inr y \<longleftrightarrow> (\<exists>x. r = Inr x \<and> f x = Inr y)"
  by (cases r) auto

lemma bind_result_Inl: "bind_result r f = Inl e \<longleftrightarrow> r = Inl e \<or> (\<exists>x. r = Inr x \<and> f x = Inl e)"
  by (cases r) auto

lemma require_Inr [simp]: "require b e = Inr u \<longleftrightarrow> b"
  by (simp add: require_def)

lemma require_Inl [simp]: "require b e = Inl e' \<longleftrightarrow> \<not> b \<and> e' = e"
  by (auto simp: require_def)

section \<open>Weakest preconditions\<close>

text \<open>
  \<open>wp m Q E w\<close>: from \<open>w\<close> the code ends in a state with \<open>Q\<close> of its result, or in
  one with \<open>E\<close> of its exception. Each combinator has its equation, so that proofs about
  composed code are rewriting.
\<close>

definition wp ::
  "('w, 'a) prog \<Rightarrow> ('a \<Rightarrow> 'w \<Rightarrow> bool) \<Rightarrow> (exn \<Rightarrow> 'w \<Rightarrow> bool) \<Rightarrow> 'w \<Rightarrow> bool" where
  "wp m Q E w \<longleftrightarrow> (case m w of (Inl e, w') \<Rightarrow> E e w' | (Inr x, w') \<Rightarrow> Q x w')"

named_theorems wp_simps \<open>equations of the weakest-precondition calculus\<close>

lemma wp_ret [wp_simps]: "wp (ret x) Q E w \<longleftrightarrow> Q x w"
  by (simp add: wp_def ret_def)

lemma wp_throw [wp_simps]: "wp (throw e) Q E w \<longleftrightarrow> E e w"
  by (simp add: wp_def throw_def)

lemma wp_bnd [wp_simps]: "wp (bnd m f) Q E w \<longleftrightarrow> wp m (\<lambda>x. wp (f x) Q E) E w"
  by (simp add: wp_def bnd_def split: sum.split prod.split)

lemma wp_andthen [wp_simps]: "wp (andthen m k) Q E w \<longleftrightarrow> wp m (\<lambda>_. wp k Q E) E w"
  by (simp add: andthen_def wp_bnd)

lemma wp_gets [wp_simps]: "wp (gets f) Q E w \<longleftrightarrow> Q (f w) w"
  by (simp add: wp_def gets_def)

lemma wp_modify [wp_simps]: "wp (modify f) Q E w \<longleftrightarrow> Q () (f w)"
  by (simp add: wp_def modify_def)

lemma wp_lift_result [wp_simps]:
  "wp (lift_result r) Q E w \<longleftrightarrow> (case r of Inl e \<Rightarrow> E e w | Inr x \<Rightarrow> Q x w)"
  by (simp add: wp_def lift_result_def split: sum.split)

lemma wp_try_finally [wp_simps]:
  "wp (try_finally m h) Q E w \<longleftrightarrow>
     wp m (\<lambda>x. wp h (\<lambda>_. Q x) E)
       (\<lambda>e w'. if fatal e then E e w' else wp h (\<lambda>_. E e) E w') w"
  by (simp add: wp_def try_finally_def split: sum.split prod.split)

lemma wp_try_else [wp_simps]:
  "wp (try_else m p h k) Q E w \<longleftrightarrow>
     wp m (\<lambda>x. wp (k x) Q E)
       (\<lambda>e w'. if \<not> fatal e \<and> p e then wp (h e) Q E w' else E e w') w"
  by (auto simp: wp_def try_else_def split: sum.split prod.split)

lemma wp_try_except [wp_simps]:
  "wp (try_except m p h) Q E w \<longleftrightarrow>
     wp m Q (\<lambda>e w'. if \<not> fatal e \<and> p e then wp (h e) Q E w' else E e w') w"
  by (auto simp: wp_def try_except_def try_else_def ret_def split: sum.split prod.split)

lemma wp_suppress [wp_simps]:
  "wp (suppress p m) Q E w \<longleftrightarrow>
     wp m Q (\<lambda>e w'. if \<not> fatal e \<and> p e then Q () w' else E e w') w"
  by (simp add: suppress_def wp_try_except wp_ret)

lemma wp_when_m [wp_simps]:
  "wp (when_m b m) Q E w \<longleftrightarrow> (if b then wp m Q E w else Q () w)"
  by (simp add: when_m_def wp_ret)

lemma wp_if [wp_simps]: "wp (if b then m else k) Q E w \<longleftrightarrow> (if b then wp m Q E w else wp k Q E w)"
  by simp

lemma wp_mono:
  assumes "wp m Q E w" and "\<And>x w'. Q x w' \<Longrightarrow> Q' x w'" and "\<And>e w'. E e w' \<Longrightarrow> E' e w'"
  shows "wp m Q' E' w"
  using assms by (auto simp: wp_def split: sum.splits prod.splits)

lemma wp_conj: "wp m Q E w \<Longrightarrow> wp m Q' E' w \<Longrightarrow> wp m (\<lambda>x w. Q x w \<and> Q' x w) (\<lambda>e w. E e w \<and> E' e w) w"
  by (auto simp: wp_def split: sum.splits prod.splits)

lemma wp_run: "wp m Q E w \<Longrightarrow> m w = (Inr x, w') \<Longrightarrow> Q x w'"
  by (simp add: wp_def)

lemma wp_run_exn: "wp m Q E w \<Longrightarrow> m w = (Inl e, w') \<Longrightarrow> E e w'"
  by (simp add: wp_def)

lemma wp_of_run: "m w = (Inr x, w') \<Longrightarrow> wp m Q E w \<longleftrightarrow> Q x w'"
  by (simp add: wp_def)

section \<open>State properties kept by code\<close>

text \<open>
  \<open>keeps I m\<close>: however \<open>m\<close> ends (with a result, an exception, or killed), a state with
  \<open>I\<close> is left in a state with \<open>I\<close>. The rules follow the combinators, so that the fact
  for a whole operation is composed from the facts for its system calls.
\<close>

definition keeps :: "('w \<Rightarrow> bool) \<Rightarrow> ('w, 'a) prog \<Rightarrow> bool" where
  "keeps I m \<longleftrightarrow> (\<forall>w. I w \<longrightarrow> I (snd (m w)))"

named_theorems keeps_intros \<open>composition rules for state properties\<close>

lemma keepsI: "(\<And>w. I w \<Longrightarrow> I (snd (m w))) \<Longrightarrow> keeps I m"
  by (simp add: keeps_def)

lemma keepsD: "keeps I m \<Longrightarrow> I w \<Longrightarrow> I (snd (m w))"
  by (simp add: keeps_def)

lemma keeps_wp: "keeps I m \<Longrightarrow> I w \<Longrightarrow> wp m (\<lambda>_. I) (\<lambda>_. I) w"
  by (auto simp: keeps_def wp_def split: sum.split prod.split dest: spec [of _ w])

lemma keeps_ret [keeps_intros]: "keeps I (ret x)"
  by (simp add: keeps_def ret_def)

lemma keeps_throw [keeps_intros]: "keeps I (throw e)"
  by (simp add: keeps_def throw_def)

lemma keeps_gets [keeps_intros]: "keeps I (gets f)"
  by (simp add: keeps_def gets_def)

lemma keeps_lift_result [keeps_intros]: "keeps I (lift_result r)"
  by (simp add: keeps_def lift_result_def)

lemma keeps_bnd [keeps_intros]: "keeps I m \<Longrightarrow> (\<And>x. keeps I (f x)) \<Longrightarrow> keeps I (bnd m f)"
  unfolding keeps_def bnd_def
  by (auto split: sum.split prod.split)

lemma keeps_andthen [keeps_intros]: "keeps I m \<Longrightarrow> keeps I k \<Longrightarrow> keeps I (andthen m k)"
  by (simp add: andthen_def keeps_bnd)

lemma keeps_try_finally [keeps_intros]: "keeps I m \<Longrightarrow> keeps I h \<Longrightarrow> keeps I (try_finally m h)"
  unfolding keeps_def try_finally_def
  by (auto split: sum.split prod.split)

lemma keeps_try_else [keeps_intros]:
  "keeps I m \<Longrightarrow> (\<And>e. keeps I (h e)) \<Longrightarrow> (\<And>x. keeps I (k x)) \<Longrightarrow> keeps I (try_else m p h k)"
  unfolding keeps_def try_else_def
  by (auto split: sum.split prod.split)

lemma keeps_try_except [keeps_intros]:
  "keeps I m \<Longrightarrow> (\<And>e. keeps I (h e)) \<Longrightarrow> keeps I (try_except m p h)"
  by (simp add: try_except_def keeps_try_else keeps_ret)

lemma keeps_suppress [keeps_intros]: "keeps I m \<Longrightarrow> keeps I (suppress p m)"
  by (simp add: suppress_def keeps_try_except keeps_ret)

lemma keeps_when_m [keeps_intros]: "(b \<Longrightarrow> keeps I m) \<Longrightarrow> keeps I (when_m b m)"
  by (simp add: when_m_def keeps_ret)

lemma keeps_if [keeps_intros]: "(b \<Longrightarrow> keeps I m) \<Longrightarrow> (\<not> b \<Longrightarrow> keeps I k) \<Longrightarrow> keeps I (if b then m else k)"
  by simp

lemma keeps_option [keeps_intros]:
  "keeps I m \<Longrightarrow> (\<And>x. r = Some x \<Longrightarrow> keeps I (f x)) \<Longrightarrow> keeps I (case r of None \<Rightarrow> m | Some x \<Rightarrow> f x)"
  by (cases r) auto

lemma keeps_prod [keeps_intros]: "(\<And>x y. r = (x, y) \<Longrightarrow> keeps I (f x y)) \<Longrightarrow> keeps I (case r of (x, y) \<Rightarrow> f x y)"
  by (cases r) auto

lemma keeps_for_each [keeps_intros]: "(\<And>x. keeps I (f x)) \<Longrightarrow> keeps I (for_each xs f)"
  by (induction xs) (auto intro: keeps_intros)

lemma keeps_for_some [keeps_intros]: "(\<And>x. keeps I (f x)) \<Longrightarrow> keeps I (for_some xs f)"
  by (induction xs) (auto intro!: keeps_intros)

lemma keeps_for_acc [keeps_intros]: "(\<And>x a. keeps I (f x a)) \<Longrightarrow> keeps I (for_acc xs a f)"
  by (induction xs arbitrary: a) (auto intro: keeps_intros)

lemma keeps_for_range [keeps_intros]: "(\<And>i. keeps I (f i)) \<Longrightarrow> keeps I (for_range k i f)"
  by (induction k arbitrary: i) (auto intro!: keeps_intros)

lemma keeps_map_m [keeps_intros]: "(\<And>x. keeps I (f x)) \<Longrightarrow> keeps I (map_m f xs)"
  by (induction xs) (auto intro!: keeps_intros)

lemma keeps_filter_m [keeps_intros]: "(\<And>x. keeps I (f x)) \<Longrightarrow> keeps I (filter_m f xs)"
  by (induction xs) (auto intro!: keeps_intros)

text \<open>What a result is, whatever the state it comes from.\<close>

definition gives :: "('a \<Rightarrow> bool) \<Rightarrow> ('w, 'a) prog \<Rightarrow> bool" where
  "gives P m \<longleftrightarrow> (\<forall>w x w'. m w = (Inr x, w') \<longrightarrow> P x)"

lemma keeps_bnd_gives:
  "keeps I m \<Longrightarrow> gives P m \<Longrightarrow> (\<And>x. P x \<Longrightarrow> keeps I (f x)) \<Longrightarrow> keeps I (bnd m f)"
  unfolding keeps_def gives_def bnd_def
  by (auto split: sum.split prod.split) (metis snd_conv)

lemma gives_lift_result [simp]: "gives P (lift_result r) \<longleftrightarrow> (\<forall>x. r = Inr x \<longrightarrow> P x)"
  by (auto simp: gives_def lift_result_def)

lemma gives_bnd: "(\<And>x. gives P (f x)) \<Longrightarrow> gives P (bnd m f)"
  unfolding gives_def bnd_def by (fastforce split: sum.splits prod.splits)

lemma keeps_for_each_set: "(\<And>x. x \<in> set xs \<Longrightarrow> keeps I (f x)) \<Longrightarrow> keeps I (for_each xs f)"
  by (induction xs) (auto intro: keeps_intros)

lemma keeps_let [keeps_intros]: "(\<And>x. x = t \<Longrightarrow> keeps I (f x)) \<Longrightarrow> keeps I (Let t f)"
  by simp

lemma keeps_of_wp: "(\<And>w. I w \<Longrightarrow> wp m (\<lambda>_. I) (\<lambda>_. I) w) \<Longrightarrow> keeps I m"
proof (rule keepsI)
  fix w
  assume "\<And>w. I w \<Longrightarrow> wp m (\<lambda>_. I) (\<lambda>_. I) w" and "I w"
  then have "wp m (\<lambda>_. I) (\<lambda>_. I) w" by simp
  then show "I (snd (m w))" by (cases "m w"; cases "fst (m w)") (simp_all add: wp_def)
qed

lemma wp_keeps:
  "keeps R m \<Longrightarrow> R w \<Longrightarrow> (\<And>x w'. R w' \<Longrightarrow> Q x w') \<Longrightarrow> (\<And>e w'. R w' \<Longrightarrow> E e w') \<Longrightarrow> wp m Q E w"
  by (rule wp_mono [OF keeps_wp])

text \<open>
  \<open>leads P I m\<close>: from a state with \<open>P\<close> the code ends, in whatever way, in one with \<open>I\<close>.
  What is run first uses \<open>P\<close>; what comes after it only needs to keep \<open>I\<close>.
\<close>

definition leads :: "('w \<Rightarrow> bool) \<Rightarrow> ('w \<Rightarrow> bool) \<Rightarrow> ('w, 'a) prog \<Rightarrow> bool" where
  "leads P I m \<longleftrightarrow> (\<forall>w. P w \<longrightarrow> I (snd (m w)))"

lemma leads_keeps: "leads I I m \<longleftrightarrow> keeps I m"
  by (simp add: leads_def keeps_def)

lemma leads_bnd_first: "leads P I m \<Longrightarrow> (\<And>x. keeps I (f x)) \<Longrightarrow> leads P I (bnd m f)"
  unfolding leads_def keeps_def bnd_def by (auto split: sum.split prod.split)

lemma leads_bnd_next:
  "keeps P m \<Longrightarrow> (\<And>w. P w \<Longrightarrow> I w) \<Longrightarrow> (\<And>x. leads P I (f x)) \<Longrightarrow> leads P I (bnd m f)"
  unfolding leads_def keeps_def bnd_def by (auto split: sum.split prod.split)

lemma leads_andthen_first: "leads P I m \<Longrightarrow> keeps I k \<Longrightarrow> leads P I (andthen m k)"
  by (simp add: andthen_def leads_bnd_first)

lemma leads_andthen_next:
  "keeps P m \<Longrightarrow> (\<And>w. P w \<Longrightarrow> I w) \<Longrightarrow> leads P I k \<Longrightarrow> leads P I (andthen m k)"
  by (simp add: andthen_def leads_bnd_next)

lemma leads_try_finally: "leads P I m \<Longrightarrow> keeps I h \<Longrightarrow> leads P I (try_finally m h)"
  unfolding leads_def keeps_def try_finally_def by (auto split: sum.split prod.split)

lemma leads_try_else:
  "leads P I m \<Longrightarrow> (\<And>e. keeps I (h e)) \<Longrightarrow> (\<And>x. keeps I (k x)) \<Longrightarrow> leads P I (try_else m p h k)"
  unfolding leads_def keeps_def try_else_def by (auto split: sum.split prod.split)

text \<open>A call whose result establishes something for the code that gets it.\<close>

lemma leads_bnd:
  assumes "\<And>w. P w \<Longrightarrow> wp m Q (\<lambda>_. I) w" and "\<And>x. leads (Q x) I (f x)"
  shows "leads P I (bnd m f)"
  unfolding leads_def
proof (intro allI impI)
  fix w
  assume "P w"
  then have "wp m Q (\<lambda>_. I) w" by (rule assms)
  then show "I (snd (bnd m f w))"
    using assms(2) by (cases "m w"; cases "fst (m w)") (auto simp: wp_def bnd_def leads_def)
qed

lemmas keeps_bnd_leads = leads_bnd [of I _ _ I for I, unfolded leads_keeps]

lemma leads_option:
  "leads P I m \<Longrightarrow> (\<And>x. r = Some x \<Longrightarrow> leads P I (f x)) \<Longrightarrow>
   leads P I (case r of None \<Rightarrow> m | Some x \<Rightarrow> f x)"
  by (cases r) auto

lemma leads_if:
  "(b \<Longrightarrow> leads P I m) \<Longrightarrow> (\<not> b \<Longrightarrow> leads P I k) \<Longrightarrow> leads P I (if b then m else k)"
  by simp

lemma leads_weaken: "leads P I m \<Longrightarrow> (\<And>w. Q w \<Longrightarrow> P w) \<Longrightarrow> leads Q I m"
  by (simp add: leads_def)

lemma leads_ret: "(\<And>w. P w \<Longrightarrow> I w) \<Longrightarrow> leads P I (ret x)"
  by (simp add: leads_def ret_def)

lemma leads_throw: "(\<And>w. P w \<Longrightarrow> I w) \<Longrightarrow> leads P I (throw e)"
  by (simp add: leads_def throw_def)

lemma wp_ends: "wp (ret x) Q E = Q x" "wp (throw e) Q E = E e"
  by (auto simp: wp_ret wp_throw)

lemma keeps_lift: "(\<And>x. r = Inr x \<Longrightarrow> keeps I (f x)) \<Longrightarrow> keeps I (bnd (lift_result r) f)"
  by (cases r) (simp_all add: keeps_def bnd_def lift_result_def)

section \<open>Strings\<close>

definition starts_with :: "string \<Rightarrow> string \<Rightarrow> bool" where
  "starts_with s p \<longleftrightarrow> take (length p) s = p"

definition ends_with :: "string \<Rightarrow> string \<Rightarrow> bool" where
  "ends_with s p \<longleftrightarrow> length p \<le> length s \<and> drop (length s - length p) s = p"

lemma starts_with_append [simp]: "starts_with (p @ s) p"
  by (simp add: starts_with_def)

lemma starts_with_iff: "starts_with s p \<longleftrightarrow> (\<exists>t. s = p @ t)"
  unfolding starts_with_def by (metis append_eq_conv_conj append_take_drop_id)

lemma ends_with_append [simp]: "ends_with (s @ p) p"
  by (simp add: ends_with_def)

lemma ends_with_iff: "ends_with s p \<longleftrightarrow> (\<exists>t. s = t @ p)"
  unfolding ends_with_def by (metis append_take_drop_id diff_add_inverse2 drop_append append_Nil
      append_eq_conv_conj length_append le_add2)

text \<open>\<open>s.split(c)\<close> and \<open>s.split(c, 1)[0]\<close>.\<close>

fun split_char :: "char \<Rightarrow> string \<Rightarrow> string list" where
  "split_char c [] = [[]]"
| "split_char c (x # xs) =
     (if x = c then [] # split_char c xs
      else (case split_char c xs of [] \<Rightarrow> [[x]] | p # ps \<Rightarrow> (x # p) # ps))"

definition before_char :: "char \<Rightarrow> string \<Rightarrow> string" where
  "before_char c s = takeWhile (\<lambda>x. x \<noteq> c) s"

text \<open>ASCII case mappings, digits and white space.\<close>

definition char_lower :: "char \<Rightarrow> char" where
  "char_lower c = (let n = of_char c :: nat in if 65 \<le> n \<and> n \<le> 90 then char_of (n + 32) else c)"

definition char_upper :: "char \<Rightarrow> char" where
  "char_upper c = (let n = of_char c :: nat in if 97 \<le> n \<and> n \<le> 122 then char_of (n - 32) else c)"

definition casefold :: "string \<Rightarrow> string" where
  "casefold = map char_lower"

definition upper :: "string \<Rightarrow> string" where
  "upper = map char_upper"

definition is_digit :: "char \<Rightarrow> bool" where
  "is_digit c \<longleftrightarrow> 48 \<le> (of_char c :: nat) \<and> (of_char c :: nat) \<le> 57"

definition digit_val :: "char \<Rightarrow> nat" where
  "digit_val c = of_char c - 48"

definition digit_char :: "nat \<Rightarrow> char" where
  "digit_char n = char_of (48 + n)"

definition is_space :: "char \<Rightarrow> bool" where
  "is_space c \<longleftrightarrow> (let n = of_char c :: nat in n = 32 \<or> (9 \<le> n \<and> n \<le> 13) \<or> (28 \<le> n \<and> n \<le> 31))"

definition strip :: "string \<Rightarrow> string" where
  "strip s = rev (dropWhile is_space (rev (dropWhile is_space s)))"

text \<open>Decimal numerals: \<open>str(n)\<close>, and a fixed number of digits with leading zeros.\<close>

fun dec :: "nat \<Rightarrow> string" where
  "dec n = (if n < 10 then [digit_char n] else dec (n div 10) @ [digit_char (n mod 10)])"

declare dec.simps [simp del]

primrec fixed_dec :: "nat \<Rightarrow> nat \<Rightarrow> string" where
  "fixed_dec 0 n = []"
| "fixed_dec (Suc k) n = fixed_dec k (n div 10) @ [digit_char (n mod 10)]"

fun undec :: "nat \<Rightarrow> string \<Rightarrow> nat" where
  "undec a [] = a"
| "undec a (c # cs) = undec (10 * a + digit_val c) cs"

lemma digit_char_digit [simp]: "n < 10 \<Longrightarrow> is_digit (digit_char n)"
  by (simp add: is_digit_def digit_char_def)

lemma digit_val_char [simp]: "n < 10 \<Longrightarrow> digit_val (digit_char n) = n"
  by (simp add: digit_val_def digit_char_def)

lemma digit_chars:
  "digit_char 0 = CHR ''0''" "digit_char (Suc 0) = CHR ''1''" "digit_char 2 = CHR ''2''"
  "digit_char 3 = CHR ''3''" "digit_char 4 = CHR ''4''" "digit_char 5 = CHR ''5''"
  "digit_char 6 = CHR ''6''" "digit_char 7 = CHR ''7''" "digit_char 8 = CHR ''8''"
  "digit_char 9 = CHR ''9''"
  by code_simp+

lemma fixed_dec_numeral:
  "fixed_dec (numeral k) n = fixed_dec (pred_numeral k) (n div 10) @ [digit_char (n mod 10)]"
  by (simp only: numeral_eq_Suc [of k] fixed_dec.simps)

lemma length_fixed_dec [simp]: "length (fixed_dec k n) = k"
  by (induction k arbitrary: n) auto

lemma fixed_dec_digits: "\<forall>c \<in> set (fixed_dec k n). is_digit c"
  by (induction k arbitrary: n) auto

lemma undec_append: "undec a (s @ t) = undec (undec a s) t"
  by (induction s arbitrary: a) auto

lemma undec_fixed_dec: "n < 10 ^ k \<Longrightarrow> undec a (fixed_dec k n) = a * 10 ^ k + n"
proof (induction k arbitrary: n)
  case 0
  then show ?case by simp
next
  case (Suc k)
  have "n div 10 < 10 ^ k"
    using Suc.prems by (simp add: less_mult_imp_div_less mult.commute)
  then have "undec a (fixed_dec k (n div 10)) = a * 10 ^ k + n div 10"
    by (rule Suc.IH)
  then show ?case
    by (simp add: undec_append algebra_simps)
qed

lemma dec_digits: "\<forall>c \<in> set (dec n). is_digit c"
proof (induction n rule: dec.induct)
  case (1 n)
  then show ?case
    by (subst dec.simps) auto
qed

lemma dec_nonempty [simp]: "dec n \<noteq> []"
  by (subst dec.simps) simp

lemma undec_dec: "undec 0 (dec n) = n"
proof (induction n rule: dec.induct)
  case (1 n)
  then show ?case
    by (subst dec.simps) (auto simp: undec_append)
qed

lemma undec_inj_dec: "dec m = dec n \<Longrightarrow> m = n"
  by (metis undec_dec)

end
