(* ===== verification/Dates.thy ===== *)
theory Dates
  imports Prelude
begin

text \<open>
  UTC instants and the textual form the spool puts in record names.

  An instant is the number of microseconds since 0001-01-01T00:00:00 UTC; \<open>to_date\<close> gives
  its calendar fields by the algorithm of Python's \<open>datetime\<close> (cycles of 400, 100, 4 and
  1 years), \<open>of_date\<close> is the inverse. \<open>strftime\<close> and \<open>strptime\<close> are for the
  format \<open>%Y%m%dT%H%M%S%fZ\<close>; \<open>strptime\<close> tries the alternatives of each directive in
  the order of the regular expression Python builds for the format. Years before 1000, whose
  padding depends on the C library, are outside the round-trip theorem.
\<close>

section \<open>Calendar\<close>

record date =
  d_year :: nat
  d_month :: nat
  d_day :: nat
  d_hour :: nat
  d_minute :: nat
  d_second :: nat
  d_micro :: nat

definition leap :: "nat \<Rightarrow> bool" where
  "leap y \<longleftrightarrow> y mod 4 = 0 \<and> (y mod 100 \<noteq> 0 \<or> y mod 400 = 0)"

definition month_lengths :: "bool \<Rightarrow> nat list" where
  "month_lengths lp = [31, if lp then 29 else 28, 31, 30, 31, 30, 31, 31, 30, 31, 30, 31]"

definition days_in_month :: "nat \<Rightarrow> nat \<Rightarrow> nat" where
  "days_in_month y m = month_lengths (leap y) ! (m - 1)"

definition days_before_year :: "nat \<Rightarrow> nat" where
  "days_before_year y = (let p = y - 1 in p * 365 + p div 4 - p div 100 + p div 400)"

definition days_before_month :: "bool \<Rightarrow> nat \<Rightarrow> nat" where
  "days_before_month lp m = sum_list (take (m - 1) (month_lengths lp))"

definition valid_date :: "date \<Rightarrow> bool" where
  "valid_date t \<longleftrightarrow>
     1 \<le> d_year t \<and> d_year t \<le> 9999 \<and> 1 \<le> d_month t \<and> d_month t \<le> 12 \<and>
     1 \<le> d_day t \<and> d_day t \<le> days_in_month (d_year t) (d_month t) \<and>
     d_hour t < 24 \<and> d_minute t < 60 \<and> d_second t < 60 \<and> d_micro t < 1000000"

definition ordinal0 :: "date \<Rightarrow> nat" where
  "ordinal0 t =
     days_before_year (d_year t) + days_before_month (leap (d_year t)) (d_month t) + d_day t - 1"

definition of_date :: "date \<Rightarrow> int" where
  "of_date t =
     int ((((ordinal0 t * 24 + d_hour t) * 60 + d_minute t) * 60 + d_second t) * 1000000 + d_micro t)"

text \<open>The month of a day of the year, counted from 0: month number and day, both from 1.\<close>

fun month_day :: "nat list \<Rightarrow> nat \<Rightarrow> nat \<Rightarrow> nat \<times> nat" where
  "month_day [] m n = (m, Suc n)"
| "month_day (l # ls) m n = (if n < l then (m, Suc n) else month_day ls (Suc m) (n - l))"

text \<open>
  \<open>_ord2ymd\<close>: the year and the day of the year of a day number counted from 0. The last
  day of a 4- or 400-year cycle is its December 31.
\<close>

definition year_day :: "nat \<Rightarrow> nat \<times> nat" where
  "year_day n =
     (let n400 = n div 146097; a = n mod 146097;
          n100 = a div 36524; b = a mod 36524;
          n4 = b div 1461; c = b mod 1461;
          n1 = c div 365; d = c mod 365;
          y = n400 * 400 + n100 * 100 + n4 * 4 + n1 + 1
      in if n1 = 4 \<or> n100 = 4 then (y - 1, 365) else (y, d))"

definition to_date :: "int \<Rightarrow> date" where
  "to_date us =
     (let u = nat us; secs = u div 1000000; mins = secs div 60; hours = mins div 60;
          (y, yd) = year_day (hours div 24);
          (m, d) = month_day (month_lengths (leap y)) 1 yd
      in \<lparr>d_year = y, d_month = m, d_day = d, d_hour = hours mod 24, d_minute = mins mod 60,
          d_second = secs mod 60, d_micro = u mod 1000000\<rparr>)"

definition valid_instant :: "int \<Rightarrow> bool" where
  "valid_instant us \<longleftrightarrow> 0 \<le> us \<and> us < 315537897600000000"

section \<open>Writing\<close>

definition strftime :: "date \<Rightarrow> string" where
  "strftime t =
     fixed_dec 4 (d_year t) @ fixed_dec 2 (d_month t) @ fixed_dec 2 (d_day t) @ ''T'' @
     fixed_dec 2 (d_hour t) @ fixed_dec 2 (d_minute t) @ fixed_dec 2 (d_second t) @
     fixed_dec 6 (d_micro t) @ ''Z''"

section \<open>Reading\<close>

text \<open>
  A directive gives its matches at the front of a text, first alternative first: the value read
  and the rest.
\<close>

type_synonym 'a matcher = "string \<Rightarrow> ('a \<times> string) list"

definition then_match :: "'a matcher \<Rightarrow> ('a \<Rightarrow> 'b matcher) \<Rightarrow> 'b matcher" where
  "then_match p f s = concat (map (\<lambda>(v, r). f v r) (p s))"

definition done_match :: "'a \<Rightarrow> 'a matcher" where
  "done_match x s = [(x, s)]"

fun one_digit :: "(nat \<Rightarrow> bool) \<Rightarrow> nat matcher" where
  "one_digit p [] = []"
| "one_digit p (a # s) = (if is_digit a \<and> p (digit_val a) then [(digit_val a, s)] else [])"

fun two_digits :: "(nat \<Rightarrow> bool) \<Rightarrow> (nat \<Rightarrow> bool) \<Rightarrow> nat matcher" where
  "two_digits p q (a # b # s) =
     (if is_digit a \<and> is_digit b \<and> p (digit_val a) \<and> q (digit_val b)
      then [(10 * digit_val a + digit_val b, s)] else [])"
| "two_digits p q _ = []"

fun spaced_digit :: "nat matcher" where
  "spaced_digit (a # b # s) =
     (if a = CHR '' '' \<and> is_digit b \<and> 1 \<le> digit_val b then [(digit_val b, s)] else [])"
| "spaced_digit _ = []"

definition alt :: "'a matcher \<Rightarrow> 'a matcher \<Rightarrow> 'a matcher" where
  "alt p q s = p s @ q s"

definition any_digit :: "nat \<Rightarrow> bool" where
  "any_digit n \<longleftrightarrow> n \<le> 9"

definition match_Y :: "nat matcher" where
  "match_Y s =
     (if length (take 4 s) = 4 \<and> list_all is_digit (take 4 s)
      then [(undec 0 (take 4 s), drop 4 s)] else [])"

text \<open>\<open>1[0-2]|0[1-9]|[1-9]\<close>, \<open>3[0-1]|[1-2]\d|0[1-9]|[1-9]| [1-9]\<close>.\<close>

definition match_m :: "nat matcher" where
  "match_m = alt (two_digits (\<lambda>a. a = 1) (\<lambda>b. b \<le> 2))
              (alt (two_digits (\<lambda>a. a = 0) (\<lambda>b. 1 \<le> b)) (one_digit (\<lambda>a. 1 \<le> a)))"

definition match_d :: "nat matcher" where
  "match_d = alt (two_digits (\<lambda>a. a = 3) (\<lambda>b. b \<le> 1))
              (alt (two_digits (\<lambda>a. a = 1 \<or> a = 2) any_digit)
                (alt (two_digits (\<lambda>a. a = 0) (\<lambda>b. 1 \<le> b))
                  (alt (one_digit (\<lambda>a. 1 \<le> a)) spaced_digit)))"

text \<open>\<open>2[0-3]|[0-1]\d|\d\<close>, \<open>[0-5]\d|\d\<close>, \<open>6[0-1]|[0-5]\d|\d\<close>, \<open>[0-9]{1,6}\<close>.\<close>

definition match_H :: "nat matcher" where
  "match_H = alt (two_digits (\<lambda>a. a = 2) (\<lambda>b. b \<le> 3))
              (alt (two_digits (\<lambda>a. a \<le> 1) any_digit) (one_digit any_digit))"

definition match_M :: "nat matcher" where
  "match_M = alt (two_digits (\<lambda>a. a \<le> 5) any_digit) (one_digit any_digit)"

definition match_S :: "nat matcher" where
  "match_S = alt (two_digits (\<lambda>a. a = 6) (\<lambda>b. b \<le> 1))
              (alt (two_digits (\<lambda>a. a \<le> 5) any_digit) (one_digit any_digit))"

definition match_f_upto :: "nat \<Rightarrow> nat matcher" where
  "match_f_upto k s =
     (if length (take k s) = k \<and> list_all is_digit (take k s)
      then [(undec 0 (take k s) * 10 ^ (6 - k), drop k s)] else [])"

definition match_f :: "nat matcher" where
  "match_f s = concat (map (\<lambda>k. match_f_upto k s) [6, 5, 4, 3, 2, 1])"

text \<open>Literals match in either case.\<close>

fun match_lit :: "char \<Rightarrow> unit matcher" where
  "match_lit c [] = []"
| "match_lit c (a # s) = (if char_lower a = char_lower c then [((), s)] else [])"

definition date_matches :: "date matcher" where
  "date_matches =
     then_match match_Y (\<lambda>y. then_match match_m (\<lambda>mo. then_match match_d (\<lambda>d.
     then_match (match_lit CHR ''T'') (\<lambda>_. then_match match_H (\<lambda>h. then_match match_M (\<lambda>mi.
     then_match match_S (\<lambda>s. then_match match_f (\<lambda>f. then_match (match_lit CHR ''Z'') (\<lambda>_.
       done_match \<lparr>d_year = y, d_month = mo, d_day = d, d_hour = h, d_minute = mi,
                   d_second = s, d_micro = f\<rparr>)))))))))"

text \<open>
  \<open>None\<close> is \<open>ValueError\<close>: no match, text left over, or fields that are no date (year 0,
  a day after the month's end, a second above 59).
\<close>

definition strptime :: "string \<Rightarrow> date option" where
  "strptime s =
     (case date_matches s of
        [] \<Rightarrow> None
      | (t, r) # _ \<Rightarrow> if r = [] \<and> valid_date t then Some t else None)"

section \<open>The calendar algorithms are inverse\<close>

lemma days_before_year_split:
  assumes "b \<le> 3" "c \<le> 24" "d \<le> 3"
  shows "days_before_year (400 * a + 100 * b + 4 * c + d + 1) = 146097 * a + 36524 * b + 1461 * c + 365 * d"
proof -
  have "(400 * a + 100 * b + 4 * c + d) div 4 = 100 * a + 25 * b + c"
    by (rule div_nat_eqI) (use assms in auto)
  moreover have "(400 * a + 100 * b + 4 * c + d) div 100 = 4 * a + b"
    by (rule div_nat_eqI) (use assms in auto)
  moreover have "(400 * a + 100 * b + 4 * c + d) div 400 = a"
    by (rule div_nat_eqI) (use assms in auto)
  ultimately
  show ?thesis
    by (simp add: days_before_year_def Let_def)
qed

lemma mod_eq_0_upto: "1 \<le> x \<Longrightarrow> x \<le> m \<Longrightarrow> (m * k + x) mod m = 0 \<longleftrightarrow> x = (m::nat)"
  by (cases "x = m") auto

lemma leap_split:
  assumes "b \<le> 3" "c \<le> 24" "d \<le> 3"
  shows "leap (400 * a + 100 * b + 4 * c + d + 1) \<longleftrightarrow> d = 3 \<and> (c = 24 \<longrightarrow> b = 3)"
proof -
  let ?y = "400 * a + 100 * b + 4 * c + d + 1"
  have "?y = 4 * (100 * a + 25 * b + c) + (d + 1)" by simp
  then have "?y mod 4 = 0 \<longleftrightarrow> d = 3"
    using assms by (simp only: mod_eq_0_upto) simp
  moreover have "?y = 100 * (4 * a + b) + (4 * c + d + 1)" by simp
  then have "?y mod 100 = 0 \<longleftrightarrow> 4 * c + d + 1 = 100"
    using assms by (simp only: mod_eq_0_upto)
  moreover have "4 * c + d + 1 = 100 \<longleftrightarrow> d = 3 \<and> c = 24"
    using assms by arith
  moreover have "?y = 400 * a + (100 * b + 4 * c + d + 1)" by simp
  then have "?y mod 400 = 0 \<longleftrightarrow> 100 * b + 4 * c + d + 1 = 400"
    using assms by (simp only: mod_eq_0_upto)
  moreover have "100 * b + 4 * c + d + 1 = 400 \<longleftrightarrow> d = 3 \<and> c = 24 \<and> b = 3"
    using assms by arith
  ultimately show ?thesis
    by (auto simp: leap_def)
qed

lemma year_day_cases:
  assumes "year_day n = (y, r)"
  obtains a b c d where "b \<le> 3" "c \<le> 24" "d \<le> 3" "y = 400 * a + 100 * b + 4 * c + d + 1"
    "n = 146097 * a + 36524 * b + 1461 * c + 365 * d + r"
    "r < 365 \<or> r = 365 \<and> d = 3 \<and> (c = 24 \<longrightarrow> b = 3)"
proof -
  define a where "a = n div 146097"
  define p where "p = n mod 146097"
  define b where "b = p div 36524"
  define q where "q = p mod 36524"
  define c where "c = q div 1461"
  define s where "s = q mod 1461"
  define d where "d = s div 365"
  define e where "e = s mod 365"
  note defs = a_def p_def b_def q_def c_def s_def d_def e_def
  have n: "n = 146097 * a + p" "p < 146097" and p: "p = 36524 * b + q" "q < 36524"
    and q: "q = 1461 * c + s" "s < 1461" and s: "s = 365 * d + e" "e < 365"
    by (simp_all add: defs)
  have y: "(y, r) = (if d = 4 \<or> b = 4 then (a * 400 + b * 100 + c * 4 + d, 365)
      else (a * 400 + b * 100 + c * 4 + d + 1, e))"
    using assms unfolding year_day_def Let_def defs by (auto split: if_splits)
  have "b \<le> 4" "c \<le> 24" "d \<le> 4"
    using n p q s by linarith+
  consider "b = 4" | "b \<noteq> 4" "d = 4" | "b \<noteq> 4" "d \<noteq> 4" by blast
  then show ?thesis
  proof cases
    case 1
    with n p have "q = 0" by linarith
    with q s have "c = 0" "d = 0" "e = 0" "s = 0" by auto
    with 1 y have "y = 400 * a + 400" "r = 365" by auto
    with 1 n p q s \<open>c = 0\<close> \<open>d = 0\<close> \<open>e = 0\<close> show ?thesis
      by (intro that [of 3 24 3 a]) auto
  next
    case 2
    with q s have "e = 0" by linarith
    from 2 y have "y = 400 * a + 100 * b + 4 * c + 4" "r = 365" by auto
    moreover have "c = 24 \<longrightarrow> b = 3"
      using 2 n p q s \<open>b \<le> 4\<close> by linarith
    ultimately show ?thesis
      using 2 n p q s \<open>e = 0\<close> \<open>b \<le> 4\<close> \<open>c \<le> 24\<close> by (intro that [of b c 3 a]) auto
  next
    case 3
    with y have "y = 400 * a + 100 * b + 4 * c + d + 1" "r = e" by auto
    with 3 n p q s \<open>b \<le> 4\<close> \<open>c \<le> 24\<close> \<open>d \<le> 4\<close> show ?thesis
      by (intro that [of b c d a]) auto
  qed
qed

lemma month_day_spec:
  "month_day ls m n = (m', d) \<Longrightarrow> n < sum_list ls \<Longrightarrow>
     m \<le> m' \<and> m' < m + length ls \<and> 1 \<le> d \<and> d \<le> ls ! (m' - m) \<and> sum_list (take (m' - m) ls) + d = Suc n"
proof (induction ls m n rule: month_day.induct)
  case (1 m n)
  then show ?case by simp
next
  case (2 l ls m n)
  show ?case
  proof (cases "n < l")
    case True
    with 2 show ?thesis by auto
  next
    case False
    with 2 have "Suc m \<le> m' \<and> m' < Suc m + length ls \<and> 1 \<le> d \<and> d \<le> ls ! (m' - Suc m) \<and>
      sum_list (take (m' - Suc m) ls) + d = Suc (n - l)"
      by simp
    moreover from this have "m' - m = Suc (m' - Suc m)" by arith
    ultimately show ?thesis
      using False by auto
  qed
qed

lemma length_month_lengths [simp]: "length (month_lengths lp) = 12"
  by (simp add: month_lengths_def)

lemma sum_month_lengths: "sum_list (month_lengths lp) = (if lp then 366 else 365)"
  by (simp add: month_lengths_def)

lemma ordinal0_to_date:
  assumes "to_date us = t" "n = nat us div 86400000000"
  shows "ordinal0 t = n" "1 \<le> d_month t" "d_month t \<le> 12" "1 \<le> d_day t"
    "d_day t \<le> days_in_month (d_year t) (d_month t)" "d_year t = fst (year_day n)"
proof -
  have n: "nat us div 1000000 div 60 div 60 div 24 = n"
    using assms(2) by (simp flip: div_mult2_eq)
  obtain y r where yr: "year_day n = (y, r)" by (cases "year_day n")
  from yr obtain a b c d where ab: "b \<le> 3" "c \<le> 24" "d \<le> 3"
    and y: "y = 400 * a + 100 * b + 4 * c + d + 1"
    and nn: "n = 146097 * a + 36524 * b + 1461 * c + 365 * d + r"
    and r: "r < 365 \<or> r = 365 \<and> d = 3 \<and> (c = 24 \<longrightarrow> b = 3)"
    by (rule year_day_cases)
  have before: "days_before_year y + r = n"
    using days_before_year_split [OF ab, of a] y nn by simp
  have rlt: "r < sum_list (month_lengths (leap y))"
    using r leap_split [OF ab, of a] y by (auto simp: sum_month_lengths)
  obtain m d where md: "month_day (month_lengths (leap y)) 1 r = (m, d)"
    by (cases "month_day (month_lengths (leap y)) 1 r")
  have t: "d_year t = y" "d_month t = m" "d_day t = d"
    using assms(1) by (auto simp: to_date_def Let_def n yr md [unfolded One_nat_def])
  from month_day_spec [OF md rlt] have spec: "1 \<le> m" "m < 13" "1 \<le> d"
    "d \<le> month_lengths (leap y) ! (m - 1)"
    "sum_list (take (m - 1) (month_lengths (leap y))) + d = Suc r"
    by auto
  then show "1 \<le> d_month t" "d_month t \<le> 12" "1 \<le> d_day t"
    "d_day t \<le> days_in_month (d_year t) (d_month t)" "d_year t = fst (year_day n)"
    by (auto simp: t days_in_month_def yr)
  show "ordinal0 t = n"
    using spec before by (simp add: ordinal0_def t days_before_month_def)
qed

lemma time_fields_to_date:
  "d_hour (to_date us) = nat us div 3600000000 mod 24"
  "d_minute (to_date us) = nat us div 60000000 mod 60"
  "d_second (to_date us) = nat us div 1000000 mod 60"
  "d_micro (to_date us) = nat us mod 1000000"
  by (simp_all add: to_date_def Let_def split: prod.split flip: div_mult2_eq)

lemma mixed_radix:
  "(((u div 86400000000 * 24 + u div 3600000000 mod 24) * 60 + u div 60000000 mod 60) * 60
     + u div 1000000 mod 60) * 1000000 + u mod 1000000 = (u::nat)"
proof -
  have "u div 86400000000 * 24 + u div 3600000000 mod 24 = u div 3600000000"
    using div_mult_mod_eq [of "u div 3600000000" 24] by (simp flip: div_mult2_eq)
  moreover have "u div 3600000000 * 60 + u div 60000000 mod 60 = u div 60000000"
    using div_mult_mod_eq [of "u div 60000000" 60] by (simp flip: div_mult2_eq)
  moreover have "u div 60000000 * 60 + u div 1000000 mod 60 = u div 1000000"
    using div_mult_mod_eq [of "u div 1000000" 60] by (simp flip: div_mult2_eq)
  ultimately show ?thesis
    using div_mult_mod_eq [of u 1000000] by simp
qed

lemma of_date_to_date: "0 \<le> us \<Longrightarrow> of_date (to_date us) = us"
  using mixed_radix [of "nat us"]
  by (simp add: of_date_def ordinal0_to_date(1) [OF refl refl] time_fields_to_date)

lemma year_bound: "n < 3652059 \<Longrightarrow> fst (year_day n) \<le> 9999"
proof -
  assume n: "n < 3652059"
  obtain y r where yr: "year_day n = (y, r)" by (cases "year_day n")
  then obtain a b c d where "b \<le> 3" "c \<le> 24" "d \<le> 3"
    "y = 400 * a + 100 * b + 4 * c + d + 1" "n = 146097 * a + 36524 * b + 1461 * c + 365 * d + r"
    "r < 365 \<or> r = 365 \<and> d = 3 \<and> (c = 24 \<longrightarrow> b = 3)"
    by (rule year_day_cases)
  with n yr show ?thesis by auto
qed

lemma year_pos: "1 \<le> fst (year_day n)"
  by (cases "year_day n") (auto elim: year_day_cases)

lemma valid_to_date: "valid_instant us \<Longrightarrow> valid_date (to_date us)"
proof -
  assume v: "valid_instant us"
  let ?n = "nat us div 86400000000"
  have "nat us < 3652059 * 86400000000"
    using v by (simp add: valid_instant_def nat_less_iff)
  then have "?n < 3652059"
    by (rule less_mult_imp_div_less)
  with v show ?thesis
    using ordinal0_to_date [OF refl refl, of us] year_bound [of ?n] year_pos [of ?n]
    by (simp add: valid_date_def time_fields_to_date)
qed

section \<open>What was written is read back\<close>

text \<open>The first match of a directive is the one that counts.\<close>

definition first_match :: "'a matcher \<Rightarrow> string \<Rightarrow> 'a \<Rightarrow> string \<Rightarrow> bool" where
  "first_match p s v r \<longleftrightarrow> (\<exists>xs. p s = (v, r) # xs)"

lemma first_then [intro]:
  "first_match p s v r \<Longrightarrow> first_match (f v) r u t \<Longrightarrow> first_match (then_match p f) s u t"
  by (auto simp: first_match_def then_match_def)

lemma first_done: "first_match (done_match x) s x s"
  by (simp add: first_match_def done_match_def)

lemma fixed_dec_2: "fixed_dec 2 n = [digit_char (n div 10 mod 10), digit_char (n mod 10)]"
  by (simp add: numeral_2_eq_2)

lemma tens_of_100: "n < 100 \<Longrightarrow> n div 10 mod 10 = n div 10" for n :: nat
  by (simp add: less_mult_imp_div_less)

lemma two_of_100: "n < 100 \<Longrightarrow> 10 * (n div 10 mod 10) + n mod 10 = n" for n :: nat
  by (simp only: tens_of_100 mult_div_mod_eq)

lemma match_Y_fixed: "y < 10000 \<Longrightarrow> first_match match_Y (fixed_dec 4 y @ s) y s"
  using fixed_dec_digits [of 4 y] undec_fixed_dec [of y 4 0]
  by (simp add: first_match_def match_Y_def list_all_iff)

lemma match_two_fixed:
  assumes "n < 100"
  shows "two_digits p q (fixed_dec 2 n @ s) = (if p (n div 10) \<and> q (n mod 10) then [(n, s)] else [])"
  using assms by (simp add: fixed_dec_2 two_of_100 tens_of_100)

lemma split_upto_31:
  fixes n :: nat
  assumes "n \<le> 31"
  shows "n div 10 = 0 \<and> n mod 10 = n \<or> n div 10 = 1 \<and> n mod 10 = n - 10 \<or>
     n div 10 = 2 \<and> n mod 10 = n - 20 \<or> n div 10 = 3 \<and> n mod 10 = n - 30"
proof -
  have "n mod 10 = n - n div 10 * 10"
    by (rule minus_div_mult_eq_mod [symmetric])
  moreover have "n div 10 < 4"
    using assms by (intro less_mult_imp_div_less) simp
  then have "n div 10 = 0 \<or> n div 10 = 1 \<or> n div 10 = 2 \<or> n div 10 = 3"
    by linarith
  ultimately show ?thesis
    by (elim disjE) simp_all
qed

lemma match_m_fixed: "1 \<le> n \<Longrightarrow> n \<le> 12 \<Longrightarrow> first_match match_m (fixed_dec 2 n @ s) n s"
  using split_upto_31 [of n] unfolding first_match_def match_m_def alt_def by (auto simp: match_two_fixed)

lemma match_d_fixed: "1 \<le> n \<Longrightarrow> n \<le> 31 \<Longrightarrow> first_match match_d (fixed_dec 2 n @ s) n s"
  using split_upto_31 [of n] unfolding first_match_def match_d_def alt_def by (auto simp: match_two_fixed any_digit_def)

lemma match_H_fixed: "n < 24 \<Longrightarrow> first_match match_H (fixed_dec 2 n @ s) n s"
  using split_upto_31 [of n] unfolding first_match_def match_H_def alt_def by (auto simp: match_two_fixed any_digit_def)

lemma match_M_fixed: "n < 60 \<Longrightarrow> first_match match_M (fixed_dec 2 n @ s) n s"
  unfolding first_match_def match_M_def alt_def by (auto simp: match_two_fixed any_digit_def)

lemma match_S_fixed: "n < 60 \<Longrightarrow> first_match match_S (fixed_dec 2 n @ s) n s"
  unfolding first_match_def match_S_def alt_def by (auto simp: match_two_fixed any_digit_def)

lemma match_f_fixed: "n < 1000000 \<Longrightarrow> first_match match_f (fixed_dec 6 n @ s) n s"
  using fixed_dec_digits [of 6 n] undec_fixed_dec [of n 6 0]
  by (simp add: first_match_def match_f_def match_f_upto_def list_all_iff)

lemma match_lit_self: "first_match (match_lit c) (c # s) () s"
  by (simp add: first_match_def)

lemma days_in_month_le: "1 \<le> m \<Longrightarrow> m \<le> 12 \<Longrightarrow> days_in_month y m \<le> 31"
proof -
  assume "1 \<le> m" "m \<le> 12"
  then have "month_lengths (leap y) ! (m - 1) \<in> set (month_lengths (leap y))"
    by (intro nth_mem) simp
  then show ?thesis
    by (auto simp: days_in_month_def month_lengths_def split: if_splits)
qed

lemmas first_match_fields =
  match_Y_fixed match_m_fixed match_d_fixed match_lit_self match_H_fixed match_M_fixed
  match_S_fixed match_f_fixed

lemma date_matches_strftime:
  assumes "valid_date t"
  shows "first_match date_matches (strftime t) t []"
proof -
  have "d_day t \<le> 31"
    using assms days_in_month_le [of "d_month t" "d_year t"] by (simp add: valid_date_def)
  then have fields: "d_year t < 10000" "1 \<le> d_month t" "d_month t \<le> 12" "1 \<le> d_day t" "d_day t \<le> 31"
    "d_hour t < 24" "d_minute t < 60" "d_second t < 60" "d_micro t < 1000000"
    using assms by (auto simp: valid_date_def)
  have "first_match (done_match \<lparr>d_year = d_year t, d_month = d_month t, d_day = d_day t,
      d_hour = d_hour t, d_minute = d_minute t, d_second = d_second t, d_micro = d_micro t\<rparr>) [] t []"
    using first_done [of t "[]"] by (cases t) simp
  then show ?thesis
    unfolding date_matches_def strftime_def append_Cons append_Nil
    by (intro first_then) (rule first_match_fields fields | assumption)+
qed

lemma strptime_strftime: "valid_date t \<Longrightarrow> strptime (strftime t) = Some t"
  using date_matches_strftime [of t] by (auto simp: strptime_def first_match_def)

end
