(* ===== verification/Json.thy ===== *)
theory Json
  imports Prelude
begin

text \<open>
  JSON values and the part of Python's \<open>json\<close> module the program calls:
  \<open>json.dumps\<close> with \<open>ensure_ascii=False, separators=(",", ":"), sort_keys=True\<close>
  and \<open>json.load\<close> of a UTF-8 file.

  A dictionary is the list of its items in insertion order, its keys distinct. A float is
  represented by the decimal text that denotes it (\<open>nan\<close>, \<open>inf\<close>, \<open>-inf\<close> for the
  three non-finite values). \<open>dep\<close> is the depth of nesting at which the interpreter raises
  \<open>RecursionError\<close>; integers of more than 4300 digits are refused in both directions with
  \<open>ValueError\<close>, as \<open>sys.get_int_max_str_digits\<close> has it by default.
\<close>

section \<open>Values\<close>

datatype json =
    JNull
  | JBool bool
  | JInt int
  | JFloat string
  | JStr string
  | JList "json list"
  | JObj "(string \<times> json) list"

type_synonym dict = "(string \<times> json) list"

definition dict_get :: "dict \<Rightarrow> string \<Rightarrow> json option" where
  "dict_get d k = map_of d k"

definition dict_set :: "string \<Rightarrow> json \<Rightarrow> dict \<Rightarrow> dict" where
  "dict_set k v d = AList.update k v d"

fun json_str :: "json option \<Rightarrow> string option" where
  "json_str (Some (JStr s)) = Some s"
| "json_str _ = None"

lemma dict_get_set [simp]: "dict_get (dict_set k v d) k' = (if k' = k then Some v else dict_get d k')"
  by (simp add: dict_get_def dict_set_def update_conv')

primrec sorted_json :: "json \<Rightarrow> json" where
  "sorted_json JNull = JNull"
| "sorted_json (JBool b) = JBool b"
| "sorted_json (JInt i) = JInt i"
| "sorted_json (JFloat x) = JFloat x"
| "sorted_json (JStr s) = JStr s"
| "sorted_json (JList vs) = JList (map sorted_json vs)"
| "sorted_json (JObj kvs) = JObj (sort_key fst (map (map_prod id sorted_json) kvs))"

section \<open>Writing\<close>

definition hex_digit :: "nat \<Rightarrow> char" where
  "hex_digit n = (if n < 10 then char_of (48 + n) else char_of (87 + n))"

definition escape_char :: "char \<Rightarrow> string" where
  "escape_char c =
     (let n = of_char c :: nat in
      if n = 34 then [CHR 0x5C, CHR 0x22]
      else if n = 92 then [CHR 0x5C, CHR 0x5C]
      else if n = 10 then [CHR 0x5C, CHR ''n'']
      else if n = 13 then [CHR 0x5C, CHR ''r'']
      else if n = 9 then [CHR 0x5C, CHR ''t'']
      else if n = 12 then [CHR 0x5C, CHR ''f'']
      else if n = 8 then [CHR 0x5C, CHR ''b'']
      else if n < 32 then [CHR 0x5C, CHR ''u'', CHR ''0'', CHR ''0'', hex_digit (n div 16), hex_digit (n mod 16)]
      else [c])"

definition quote :: "string \<Rightarrow> string" where
  "quote s = CHR 0x22 # concat (map escape_char s) @ [CHR 0x22]"

definition int_str :: "int \<Rightarrow> string" where
  "int_str i = (if i < 0 then CHR ''-'' # dec (nat (- i)) else dec (nat i))"

definition int_digit_limit :: nat where
  "int_digit_limit = 4300"

primrec sequence :: "(exn + 'a) list \<Rightarrow> exn + 'a list" where
  "sequence [] = Inr []"
| "sequence (r # rs) =
     (case r of Inl e \<Rightarrow> Inl e
      | Inr x \<Rightarrow> (case sequence rs of Inl e \<Rightarrow> Inl e | Inr xs \<Rightarrow> Inr (x # xs)))"

fun join :: "string \<Rightarrow> string list \<Rightarrow> string" where
  "join sep [] = []"
| "join sep [s] = s"
| "join sep (s # ss) = s @ sep @ join sep ss"

primrec write_json :: "json \<Rightarrow> nat \<Rightarrow> exn + string" where
  "write_json JNull dep = Inr ''null''"
| "write_json (JBool b) dep = Inr (if b then ''true'' else ''false'')"
| "write_json (JInt i) dep =
     (if int_digit_limit < length (dec (nat \<bar>i\<bar>)) then Inl (ValueError ''int too large'')
      else Inr (int_str i))"
| "write_json (JFloat x) dep =
     (if x \<in> {''nan'', ''inf'', ''-inf''} then Inl (ValueError ''not JSON compliant'') else Inr x)"
| "write_json (JStr s) dep = Inr (quote s)"
| "write_json (JList vs) dep =
     (case dep of 0 \<Rightarrow> Inl RecursionError
      | Suc l \<Rightarrow>
         (case sequence (map (\<lambda>f. f l) (map write_json vs)) of
            Inl e \<Rightarrow> Inl e
          | Inr ss \<Rightarrow> Inr (''['' @ join '','' ss @ '']'')))"
| "write_json (JObj kvs) dep =
     (case dep of 0 \<Rightarrow> Inl RecursionError
      | Suc l \<Rightarrow>
         (case sequence (map (\<lambda>(k, f). map_sum id (\<lambda>s. quote k @ '':'' @ s) (f l))
                           (map (map_prod id write_json) kvs)) of
            Inl e \<Rightarrow> Inl e
          | Inr ss \<Rightarrow> Inr (''{'' @ join '','' ss @ ''}'')))"

definition json_dumps :: "nat \<Rightarrow> json \<Rightarrow> exn + string" where
  "json_dumps dep v = write_json (sorted_json v) dep"

section \<open>UTF-8\<close>

definition cont_byte :: "char \<Rightarrow> bool" where
  "cont_byte c \<longleftrightarrow> 128 \<le> (of_char c :: nat) \<and> (of_char c :: nat) \<le> 191"

text \<open>
  The scan of a representation. With \<open>surr\<close> the three-byte forms of surrogates are let
  through: that is what a Python \<open>str\<close> can hold; without it, what UTF-8 allows.
\<close>

fun utf8_scan :: "bool \<Rightarrow> string \<Rightarrow> bool" where
  "utf8_scan surr [] = True"
| "utf8_scan surr (a # s) =
     (let n = of_char a :: nat in
      if n < 128 then utf8_scan surr s
      else if 194 \<le> n \<and> n \<le> 223 then
        (case s of b # t \<Rightarrow> cont_byte b \<and> utf8_scan surr t | _ \<Rightarrow> False)
      else if 224 \<le> n \<and> n \<le> 239 then
        (case s of b # c # t \<Rightarrow>
            cont_byte b \<and> cont_byte c \<and> (n = 224 \<longrightarrow> 160 \<le> (of_char b :: nat)) \<and>
            (n = 237 \<and> \<not> surr \<longrightarrow> (of_char b :: nat) \<le> 159) \<and> utf8_scan surr t
          | _ \<Rightarrow> False)
      else if 240 \<le> n \<and> n \<le> 244 then
        (case s of b # c # d # t \<Rightarrow>
            cont_byte b \<and> cont_byte c \<and> cont_byte d \<and> (n = 240 \<longrightarrow> 144 \<le> (of_char b :: nat)) \<and>
            (n = 244 \<longrightarrow> (of_char b :: nat) \<le> 143) \<and> utf8_scan surr t
          | _ \<Rightarrow> False)
      else False)"

text \<open>\<open>s.encode("utf-8")\<close> and \<open>bytes.decode("utf-8")\<close>.\<close>

definition utf8_encode :: "string \<Rightarrow> exn + string" where
  "utf8_encode s = (if utf8_scan False s then Inr s else Inl UnicodeEncodeError)"

definition utf8_decode :: "string \<Rightarrow> exn + string" where
  "utf8_decode bs = (if utf8_scan False bs then Inr bs else Inl UnicodeDecodeError)"

definition utf8_of :: "nat \<Rightarrow> string" where
  "utf8_of n =
     (if n < 128 then [char_of n]
      else if n < 2048 then [char_of (192 + n div 64), char_of (128 + n mod 64)]
      else if n < 65536 then
        [char_of (224 + n div 4096), char_of (128 + n div 64 mod 64), char_of (128 + n mod 64)]
      else [char_of (240 + n div 262144), char_of (128 + n div 4096 mod 64),
            char_of (128 + n div 64 mod 64), char_of (128 + n mod 64)])"

section \<open>Reading\<close>

fun json_space :: "char \<Rightarrow> bool" where
  "json_space c = (c = CHR '' '' \<or> c = CHR 0x09 \<or> c = CHR 0x0A \<or> c = CHR 0x0D)"

definition skip_ws :: "string \<Rightarrow> string" where
  "skip_ws = dropWhile json_space"

fun hex_val :: "char \<Rightarrow> nat option" where
  "hex_val c =
     (let n = of_char c :: nat in
      if 48 \<le> n \<and> n \<le> 57 then Some (n - 48)
      else if 97 \<le> n \<and> n \<le> 102 then Some (n - 87)
      else if 65 \<le> n \<and> n \<le> 70 then Some (n - 55)
      else None)"

declare hex_val.simps [simp del]

fun hex4 :: "string \<Rightarrow> (nat \<times> string) option" where
  "hex4 (a # b # c # d # s) =
     (case (hex_val a, hex_val b, hex_val c, hex_val d) of
        (Some x, Some y, Some z, Some u) \<Rightarrow> Some (4096 * x + 256 * y + 16 * z + u, s)
      | _ \<Rightarrow> None)"
| "hex4 _ = None"

text \<open>\<open>scanstring\<close>: the characters after the opening quote, up to the closing one.\<close>

fun simple_escape :: "char \<Rightarrow> char option" where
  "simple_escape c =
     (if c = CHR 0x22 then Some c
      else if c = CHR 0x5C then Some c
      else if c = CHR ''/'' then Some c
      else if c = CHR ''b'' then Some (CHR 0x08)
      else if c = CHR ''f'' then Some (CHR 0x0C)
      else if c = CHR ''n'' then Some (CHR 0x0A)
      else if c = CHR ''r'' then Some (CHR 0x0D)
      else if c = CHR ''t'' then Some (CHR 0x09)
      else None)"

fun low_surrogate :: "string \<Rightarrow> (nat \<times> string) option" where
  "low_surrogate (a # b # s) =
     (if a = CHR 0x5C \<and> b = CHR ''u'' then
        (case hex4 s of
           Some (m, t) \<Rightarrow> if 0xDC00 \<le> m \<and> m \<le> 0xDFFF then Some (m, t) else None
         | None \<Rightarrow> None)
      else None)"
| "low_surrogate _ = None"

fun scan_string :: "nat \<Rightarrow> string \<Rightarrow> exn + string \<times> string" where
  "scan_string 0 s = Inl Hang"
| "scan_string (Suc k) [] = Inl JSONDecodeError"
| "scan_string (Suc k) (c # s) =
     (if c = CHR 0x22 then Inr ([], s)
      else if c = CHR 0x5C then
        (case s of
           [] \<Rightarrow> Inl JSONDecodeError
         | e # t \<Rightarrow>
             if e = CHR ''u'' then
               (case hex4 t of
                  None \<Rightarrow> Inl JSONDecodeError
                | Some (m, u) \<Rightarrow>
                    (case (if 0xD800 \<le> m \<and> m \<le> 0xDBFF then low_surrogate u else None) of
                       Some (l, v) \<Rightarrow>
                         map_sum id (map_prod (append (utf8_of (0x10000 + (m - 0xD800) * 1024 + (l - 0xDC00)))) id)
                           (scan_string k v)
                     | None \<Rightarrow> map_sum id (map_prod (append (utf8_of m)) id) (scan_string k u)))
             else
               (case simple_escape e of
                  None \<Rightarrow> Inl JSONDecodeError
                | Some x \<Rightarrow> map_sum id (map_prod (Cons x) id) (scan_string k t)))
      else if (of_char c :: nat) < 32 then Inl JSONDecodeError
      else map_sum id (map_prod (Cons c) id) (scan_string k s))"

text \<open>Numbers: \<open>(-?(?:0|[1-9]\d*))(\.\d+)?([eE][-+]?\d+)?\<close>.\<close>

definition span_digits :: "string \<Rightarrow> string \<times> string" where
  "span_digits s = (takeWhile is_digit s, dropWhile is_digit s)"

fun int_part :: "string \<Rightarrow> (string \<times> string) option" where
  "int_part [] = None"
| "int_part (c # s) =
     (if c = CHR ''0'' then Some ([c], s)
      else if is_digit c then Some (span_digits (c # s))
      else None)"

fun frac_part :: "string \<Rightarrow> string \<times> string" where
  "frac_part (a # b # s) =
     (if a = CHR ''.'' \<and> is_digit b then (case span_digits (b # s) of (f, t) \<Rightarrow> (a # f, t))
      else ([], a # b # s))"
| "frac_part s = ([], s)"

fun exp_part :: "string \<Rightarrow> string \<times> string" where
  "exp_part [] = ([], [])"
| "exp_part (a # s) =
     (if a = CHR ''e'' \<or> a = CHR ''E'' then
        (case s of
           b # c # t \<Rightarrow>
             if (b = CHR ''-'' \<or> b = CHR ''+'') \<and> is_digit c then
               (case span_digits (c # t) of (x, r) \<Rightarrow> (a # b # x, r))
             else if is_digit b then (case span_digits s of (x, r) \<Rightarrow> (a # x, r))
             else ([], a # s)
         | [b] \<Rightarrow> if is_digit b then ([a, b], []) else ([], a # s)
         | [] \<Rightarrow> ([], a # s))
      else ([], a # s))"

definition scan_number :: "string \<Rightarrow> exn + json \<times> string" where
  "scan_number s =
     (let (sign, s') = (case s of c # t \<Rightarrow> if c = CHR ''-'' then ([c], t) else ([], s) | [] \<Rightarrow> ([], s)) in
      case int_part s' of
        None \<Rightarrow> Inl JSONDecodeError
      | Some (ip, t) \<Rightarrow>
          (let (fp, u) = frac_part t; (ep, v) = exp_part u in
           if fp = [] \<and> ep = [] then
             (if int_digit_limit < length ip then Inl (ValueError ''int too large'')
              else Inr (JInt ((if sign = [] then 1 else -1) * int (undec 0 ip)), v))
           else Inr (JFloat (sign @ ip @ fp @ ep), v)))"

definition keyword :: "string \<Rightarrow> json \<Rightarrow> string \<Rightarrow> (json \<times> string) option" where
  "keyword k v s = (if starts_with s k then Some (v, drop (length k) s) else None)"

definition scan_scalar :: "string \<Rightarrow> exn + json \<times> string" where
  "scan_scalar s =
     (case keyword ''null'' JNull s of Some r \<Rightarrow> Inr r | None \<Rightarrow>
      case keyword ''true'' (JBool True) s of Some r \<Rightarrow> Inr r | None \<Rightarrow>
      case keyword ''false'' (JBool False) s of Some r \<Rightarrow> Inr r | None \<Rightarrow>
      case keyword ''NaN'' (JFloat ''nan'') s of Some r \<Rightarrow> Inr r | None \<Rightarrow>
      case keyword ''Infinity'' (JFloat ''inf'') s of Some r \<Rightarrow> Inr r | None \<Rightarrow>
      case keyword ''-Infinity'' (JFloat ''-inf'') s of Some r \<Rightarrow> Inr r | None \<Rightarrow>
      scan_number s)"

text \<open>
  Values, the elements after \<open>[\<close>, the members after \<open>{\<close>. The first argument is fuel:
  every call reads at least one character, so more fuel than characters is always enough.
\<close>

fun scan_value :: "nat \<Rightarrow> nat \<Rightarrow> string \<Rightarrow> exn + json \<times> string"
and scan_elems :: "nat \<Rightarrow> nat \<Rightarrow> string \<Rightarrow> exn + json list \<times> string"
and scan_members :: "nat \<Rightarrow> nat \<Rightarrow> string \<Rightarrow> exn + dict \<times> string" where
  "scan_value 0 dep s = Inl Hang"
| "scan_value (Suc k) dep [] = Inl JSONDecodeError"
| "scan_value (Suc k) dep (c # s) =
     (if c = CHR 0x22 then map_sum id (map_prod JStr id) (scan_string (Suc (length s)) s)
      else if c = CHR ''['' then
        (case dep of 0 \<Rightarrow> Inl RecursionError | Suc l \<Rightarrow>
           (case skip_ws s of
              [] \<Rightarrow> Inl JSONDecodeError
            | d # t \<Rightarrow> if d = CHR '']'' then Inr (JList [], t)
                       else map_sum id (map_prod JList id) (scan_elems k l (d # t))))
      else if c = CHR ''{'' then
        (case dep of 0 \<Rightarrow> Inl RecursionError | Suc l \<Rightarrow>
           (case skip_ws s of
              [] \<Rightarrow> Inl JSONDecodeError
            | d # t \<Rightarrow> if d = CHR ''}'' then Inr (JObj [], t)
                       else map_sum id
                              (map_prod (\<lambda>m. JObj (fold (\<lambda>(x, v). dict_set x v) m [])) id)
                              (scan_members k l (d # t))))
      else scan_scalar (c # s))"
| "scan_elems 0 dep s = Inl Hang"
| "scan_elems (Suc k) dep s =
     (case scan_value k dep s of
        Inl e \<Rightarrow> Inl e
      | Inr (v, t) \<Rightarrow>
          (case skip_ws t of
             [] \<Rightarrow> Inl JSONDecodeError
           | d # u \<Rightarrow>
               if d = CHR '']'' then Inr ([v], u)
               else if d = CHR '','' then map_sum id (map_prod (Cons v) id) (scan_elems k dep (skip_ws u))
               else Inl JSONDecodeError))"
| "scan_members 0 dep s = Inl Hang"
| "scan_members (Suc k) dep s =
     (case s of
        [] \<Rightarrow> Inl JSONDecodeError
      | q # s' \<Rightarrow>
          if q \<noteq> CHR 0x22 then Inl JSONDecodeError
          else (case scan_string (Suc (length s')) s' of
             Inl e \<Rightarrow> Inl e
           | Inr (key, t) \<Rightarrow>
               (case skip_ws t of
                  [] \<Rightarrow> Inl JSONDecodeError
                | d # u \<Rightarrow>
                    if d \<noteq> CHR '':'' then Inl JSONDecodeError
                    else (case scan_value k dep (skip_ws u) of
                       Inl e \<Rightarrow> Inl e
                     | Inr (v, r) \<Rightarrow>
                         (case skip_ws r of
                            [] \<Rightarrow> Inl JSONDecodeError
                          | e # w \<Rightarrow>
                              if e = CHR ''}'' then Inr ([(key, v)], w)
                              else if e = CHR '','' then
                                map_sum id (map_prod (Cons (key, v)) id) (scan_members k dep (skip_ws w))
                              else Inl JSONDecodeError)))))"

definition bom :: string where
  "bom = [CHR 0xEF, CHR 0xBB, CHR 0xBF]"

definition json_loads :: "nat \<Rightarrow> string \<Rightarrow> exn + json" where
  "json_loads dep s =
     (if starts_with s bom then Inl JSONDecodeError
      else (case scan_value (2 * length s + 2) dep (skip_ws s) of
              Inl e \<Rightarrow> Inl e
            | Inr (v, t) \<Rightarrow> if skip_ws t = [] then Inr v else Inl JSONDecodeError))"

text \<open>\<open>json.load(handle)\<close> of a handle opened with \<open>encoding="utf-8"\<close>.\<close>

definition json_load_bytes :: "nat \<Rightarrow> string \<Rightarrow> exn + json" where
  "json_load_bytes dep bs =
     (case utf8_decode bs of Inl e \<Rightarrow> Inl e | Inr s \<Rightarrow> json_loads dep s)"

end
