(* ===== verification/File_System.thy ===== *)
theory File_System
  imports Prelude
begin

text \<open>
  The operating system as the spool sees it: the two directories it owns, their hard links,
  inodes, open descriptors, advisory locks, and one definition per system call.

  \<^item> \<open>Root\<close> is the spool directory, \<open>Dead\<close> its \<open>dead-letter\<close> directory. A
    directory is a list of entries (name, inode number); the order is the order a directory
    scan returns. Inode numbers are never used twice.
  \<^item> An inode carries its kind, bytes, number of links, mode, modification time, and whether
    its bytes were flushed by \<open>fsync\<close>; \<open>dsynced\<close> says the same of a directory's
    entries. Links may exist outside the two directories, so \<open>i_nlink\<close> is stored.
  \<^item> An advisory lock belongs to an open file description (\<open>Mine\<close>) or to another process
    (\<open>Foreign\<close>). A blocking call on a lock another process holds returns once that
    process has released it; on one of this process's own descriptions it never returns.
  \<^item> \<open>faults\<close> is consumed one element per system call: the call works, fails with an
    error, or the process is killed before it. A failing or interrupted write may have written
    a prefix. The theorems quantify over this list, so they speak of every pattern of failures
    and of every point at which the process can die.
\<close>

section \<open>State\<close>

datatype platform = Posix | Nt | OtherOS

datatype dir = Root | Dead

datatype dnode = Absent | RealDir nat | LinkToDir | NotDir

datatype fkind = Regular | Directory | Symlink bool

record inode =
  i_kind :: fkind
  i_data :: string
  i_nlink :: nat
  i_mode :: nat
  i_mtime :: int
  i_synced :: bool

record ofile =
  of_ino :: nat
  of_desc :: nat
  of_write :: bool

datatype holder = Mine nat | Foreign

datatype fault = NoFault | Fail nat io_errno | Kill nat

record world =
  platform :: platform
  linux :: bool
  has_renameat2 :: bool
  dnodes :: "dir \<Rightarrow> dnode"
  ents :: "dir \<Rightarrow> (string \<times> nat) list"
  inodes :: "nat \<Rightarrow> inode"
  next_ino :: nat
  fds :: "nat \<Rightarrow> ofile option"
  next_fd :: nat
  flocks :: "nat \<Rightarrow> holder option"
  guards :: "dir \<times> string \<Rightarrow> (nat \<times> nat) option"
  faults :: "fault list"
  clock :: int
  tokens :: "string list"
  dsynced :: "dir \<Rightarrow> bool"

record stat =
  st_ino :: nat
  st_kind :: fkind
  st_nlink :: nat
  st_size :: nat
  st_mode :: nat
  st_mtime :: int

type_synonym 'a io = "(world, 'a) prog"

definition stat_of :: "world \<Rightarrow> nat \<Rightarrow> stat" where
  "stat_of w i =
     \<lparr>st_ino = i, st_kind = i_kind (inodes w i), st_nlink = i_nlink (inodes w i),
      st_size = length (i_data (inodes w i)), st_mode = i_mode (inodes w i),
      st_mtime = i_mtime (inodes w i)\<rparr>"

lemma stat_of_simps [simp]:
  "st_ino (stat_of w i) = i" "st_kind (stat_of w i) = i_kind (inodes w i)"
  "st_nlink (stat_of w i) = i_nlink (inodes w i)"
  "st_size (stat_of w i) = length (i_data (inodes w i))"
  "st_mode (stat_of w i) = i_mode (inodes w i)" "st_mtime (stat_of w i) = i_mtime (inodes w i)"
  by (simp_all add: stat_of_def)

text \<open>The modes \<open>0o700\<close> and \<open>0o600\<close>.\<close>

abbreviation mode_700 :: nat where "mode_700 \<equiv> 448"
abbreviation mode_600 :: nat where "mode_600 \<equiv> 384"

definition lookup :: "dir \<Rightarrow> string \<Rightarrow> world \<Rightarrow> nat option" where
  "lookup d n w = map_of (ents w d) n"

definition put_ent :: "dir \<Rightarrow> string \<Rightarrow> nat \<Rightarrow> world \<Rightarrow> world" where
  "put_ent d n i w =
     w\<lparr>ents := (ents w)(d := AList.update n i (ents w d)), dsynced := (dsynced w)(d := False)\<rparr>"

definition del_ent :: "dir \<Rightarrow> string \<Rightarrow> world \<Rightarrow> world" where
  "del_ent d n w =
     w\<lparr>ents := (ents w)(d := AList.delete n (ents w d)), dsynced := (dsynced w)(d := False)\<rparr>"

definition set_inode :: "nat \<Rightarrow> inode \<Rightarrow> world \<Rightarrow> world" where
  "set_inode i x w = w\<lparr>inodes := (inodes w)(i := x)\<rparr>"

definition add_link :: "nat \<Rightarrow> world \<Rightarrow> world" where
  "add_link i w = set_inode i ((inodes w i)\<lparr>i_nlink := Suc (i_nlink (inodes w i))\<rparr>) w"

definition drop_link :: "nat \<Rightarrow> world \<Rightarrow> world" where
  "drop_link i w = set_inode i ((inodes w i)\<lparr>i_nlink := i_nlink (inodes w i) - 1\<rparr>) w"

definition new_inode :: "nat \<Rightarrow> world \<Rightarrow> inode" where
  "new_inode mode w =
     \<lparr>i_kind = Regular, i_data = [], i_nlink = 1, i_mode = mode, i_mtime = clock w, i_synced = True\<rparr>"

definition create_ent :: "dir \<Rightarrow> string \<Rightarrow> nat \<Rightarrow> world \<Rightarrow> world" where
  "create_ent d n mode w =
     put_ent d n (next_ino w)
       (set_inode (next_ino w) (new_inode mode w) (w\<lparr>next_ino := Suc (next_ino w)\<rparr>))"

definition unlink_ent :: "dir \<Rightarrow> string \<Rightarrow> nat \<Rightarrow> world \<Rightarrow> world" where
  "unlink_ent d n i w = del_ent d n (drop_link i w)"

definition add_fd :: "nat \<Rightarrow> bool \<Rightarrow> world \<Rightarrow> world" where
  "add_fd i wr w =
     w\<lparr>fds := (fds w)(next_fd w \<mapsto> \<lparr>of_ino = i, of_desc = next_fd w, of_write = wr\<rparr>),
       next_fd := Suc (next_fd w)\<rparr>"

section \<open>System calls\<close>

definition syscall :: "'a io \<Rightarrow> 'a io" where
  "syscall m w =
     (case faults w of
        [] \<Rightarrow> m w
      | NoFault # fs \<Rightarrow> m (w\<lparr>faults := fs\<rparr>)
      | Fail _ e # fs \<Rightarrow> (Inl (OSError (Io e)), w\<lparr>faults := fs\<rparr>)
      | Kill _ # fs \<Rightarrow> (Inl Killed, w\<lparr>faults := fs\<rparr>))"

subsection \<open>The two directories themselves\<close>

text \<open>\<open>Path.mkdir(mode=0o700, parents=True, exist_ok=True)\<close>, \<open>os.lstat\<close>, \<open>os.chmod\<close>.\<close>

definition os_mkdir :: "dir \<Rightarrow> unit io" where
  "os_mkdir d = syscall (\<lambda>w.
     case dnodes w d of
       Absent \<Rightarrow> (Inr (), w\<lparr>dnodes := (dnodes w)(d := RealDir mode_700)\<rparr>)
     | NotDir \<Rightarrow> (Inl (OSError EEXIST), w)
     | _ \<Rightarrow> (Inr (), w))"

definition os_lstat_dir :: "dir \<Rightarrow> dnode io" where
  "os_lstat_dir d = syscall (\<lambda>w.
     if dnodes w d = Absent then (Inl (OSError ENOENT), w) else (Inr (dnodes w d), w))"

definition os_chmod_dir :: "dir \<Rightarrow> nat \<Rightarrow> unit io" where
  "os_chmod_dir d mode = syscall (\<lambda>w. (Inr (), w\<lparr>dnodes := (dnodes w)(d := RealDir mode)\<rparr>))"

text \<open>Opening, closing and flushing a directory; listing its names.\<close>

definition os_open_dir :: "dir \<Rightarrow> unit io" where
  "os_open_dir d = syscall (ret ())"

definition os_close_dir :: "dir \<Rightarrow> unit io" where
  "os_close_dir d = syscall (ret ())"

definition os_fsync_dir :: "dir \<Rightarrow> unit io" where
  "os_fsync_dir d = syscall (modify (\<lambda>w. w\<lparr>dsynced := (dsynced w)(d := True)\<rparr>))"

definition os_listdir :: "dir \<Rightarrow> string list io" where
  "os_listdir d = syscall (gets (\<lambda>w. map fst (ents w d)))"

text \<open>\<open>Path.glob\<close>: the names that match, none at all if the directory cannot be scanned.\<close>

definition path_glob :: "dir \<Rightarrow> (string \<Rightarrow> bool) \<Rightarrow> string list io" where
  "path_glob d pat =
     try_except (bnd (os_listdir d) (\<lambda>ns. ret (filter pat ns))) is_OSError (\<lambda>_. ret [])"

subsection \<open>Names\<close>

definition os_lstat :: "dir \<Rightarrow> string \<Rightarrow> stat io" where
  "os_lstat d n = syscall (\<lambda>w.
     case lookup d n w of
       None \<Rightarrow> (Inl (OSError ENOENT), w)
     | Some i \<Rightarrow> (Inr (stat_of w i), w))"

text \<open>\<open>Path.exists()\<close> follows symbolic links and reads every failure as absence.\<close>

definition path_exists :: "dir \<Rightarrow> string \<Rightarrow> bool io" where
  "path_exists d n =
     try_except
       (syscall (gets (\<lambda>w.
          case lookup d n w of
            None \<Rightarrow> False
          | Some i \<Rightarrow> (case i_kind (inodes w i) of Symlink live \<Rightarrow> live | _ \<Rightarrow> True))))
       is_OSError (\<lambda>_. ret False)"

definition os_chmod :: "dir \<Rightarrow> string \<Rightarrow> nat \<Rightarrow> unit io" where
  "os_chmod d n mode = syscall (\<lambda>w.
     case lookup d n w of
       None \<Rightarrow> (Inl (OSError ENOENT), w)
     | Some i \<Rightarrow> (Inr (), set_inode i ((inodes w i)\<lparr>i_mode := mode\<rparr>) w))"

text \<open>\<open>os.open\<close> with \<open>O_NOFOLLOW\<close>; the flags are write access, \<open>O_CREAT\<close>, \<open>O_EXCL\<close>.\<close>

definition os_open :: "dir \<Rightarrow> string \<Rightarrow> bool \<Rightarrow> bool \<Rightarrow> bool \<Rightarrow> nat \<Rightarrow> nat io" where
  "os_open d n wr creat excl mode = syscall (\<lambda>w.
     case lookup d n w of
       None \<Rightarrow>
         if creat then (Inr (next_fd w), add_fd (next_ino w) wr (create_ent d n mode w))
         else (Inl (OSError ENOENT), w)
     | Some i \<Rightarrow>
         if creat \<and> excl then (Inl (OSError EEXIST), w)
         else (case i_kind (inodes w i) of
                 Symlink _ \<Rightarrow> (Inl (OSError ELOOP), w)
               | Directory \<Rightarrow> if wr then (Inl (OSError EISDIR), w) else (Inr (next_fd w), add_fd i wr w)
               | Regular \<Rightarrow> (Inr (next_fd w), add_fd i wr w)))"

definition os_unlink :: "dir \<Rightarrow> string \<Rightarrow> unit io" where
  "os_unlink d n = syscall (\<lambda>w.
     case lookup d n w of
       None \<Rightarrow> (Inl (OSError ENOENT), w)
     | Some i \<Rightarrow>
         if i_kind (inodes w i) = Directory then (Inl (OSError EISDIR), w)
         else (Inr (), unlink_ent d n i w))"

definition os_link :: "dir \<Rightarrow> string \<Rightarrow> dir \<Rightarrow> string \<Rightarrow> unit io" where
  "os_link sd sn dd dn = syscall (\<lambda>w.
     case lookup sd sn w of
       None \<Rightarrow> (Inl (OSError ENOENT), w)
     | Some i \<Rightarrow>
         if lookup dd dn w \<noteq> None then (Inl (OSError EEXIST), w)
         else if i_kind (inodes w i) = Directory then (Inl (OSError (Io EACCES)), w)
         else (Inr (), put_ent dd dn i (add_link i w)))"

text \<open>
  \<open>renameat2(..., RENAME_NOREPLACE)\<close> on Linux and \<open>os.rename\<close> on Windows both refuse an
  existing destination.
\<close>

definition os_rename_noreplace :: "dir \<Rightarrow> string \<Rightarrow> dir \<Rightarrow> string \<Rightarrow> unit io" where
  "os_rename_noreplace sd sn dd dn = syscall (\<lambda>w.
     case lookup sd sn w of
       None \<Rightarrow> (Inl (OSError ENOENT), w)
     | Some i \<Rightarrow>
         if lookup dd dn w \<noteq> None then (Inl (OSError EEXIST), w)
         else (Inr (), put_ent dd dn i (del_ent sd sn w)))"

text \<open>\<open>os.replace\<close>; two names of one inode are left alone, as \<open>rename\<close> does.\<close>

definition os_replace :: "dir \<Rightarrow> string \<Rightarrow> dir \<Rightarrow> string \<Rightarrow> unit io" where
  "os_replace sd sn dd dn = syscall (\<lambda>w.
     case lookup sd sn w of
       None \<Rightarrow> (Inl (OSError ENOENT), w)
     | Some i \<Rightarrow>
         (case lookup dd dn w of
            None \<Rightarrow> (Inr (), put_ent dd dn i (del_ent sd sn w))
          | Some j \<Rightarrow>
              if j = i then (Inr (), w)
              else if i_kind (inodes w j) = Directory then (Inl (OSError EISDIR), w)
              else (Inr (), put_ent dd dn i (del_ent sd sn (drop_link j w)))))"

text \<open>
  \<open>tempfile.mkstemp(dir=, prefix=, suffix=)\<close>: random tokens until a free name is found, the
  file created for reading and writing by its owner.
\<close>

fun free_token :: "string list \<Rightarrow> (string \<Rightarrow> bool) \<Rightarrow> (string \<times> string list) option" where
  "free_token [] taken = None"
| "free_token (t # ts) taken = (if taken t then free_token ts taken else Some (t, ts))"

definition os_mkstemp :: "dir \<Rightarrow> string \<Rightarrow> string \<Rightarrow> (nat \<times> string) io" where
  "os_mkstemp d pre suf = syscall (\<lambda>w.
     case free_token (tokens w) (\<lambda>t. lookup d (pre @ t @ suf) w \<noteq> None) of
       None \<Rightarrow> (Inl (OSError EEXIST), w\<lparr>tokens := []\<rparr>)
     | Some (t, ts) \<Rightarrow>
         (Inr (next_fd w, pre @ t @ suf),
          (add_fd (next_ino w) True (create_ent d (pre @ t @ suf) mode_600 w))\<lparr>tokens := ts\<rparr>))"

subsection \<open>Descriptors\<close>

definition with_fd :: "nat \<Rightarrow> (ofile \<Rightarrow> 'a io) \<Rightarrow> 'a io" where
  "with_fd fd k w = (case fds w fd of None \<Rightarrow> (Inl (OSError EBADF), w) | Some f \<Rightarrow> k f w)"

definition os_fstat :: "nat \<Rightarrow> stat io" where
  "os_fstat fd = syscall (with_fd fd (\<lambda>f w. (Inr (stat_of w (of_ino f)), w)))"

text \<open>The last descriptor of an open file description takes the description's locks with it.\<close>

definition last_of_desc :: "world \<Rightarrow> nat \<Rightarrow> nat \<Rightarrow> bool" where
  "last_of_desc w fd desc \<longleftrightarrow>
     list_all (\<lambda>k. k = fd \<or> (case fds w k of None \<Rightarrow> True | Some f \<Rightarrow> of_desc f \<noteq> desc)) [0..<next_fd w]"

definition os_close :: "nat \<Rightarrow> unit io" where
  "os_close fd = syscall (with_fd fd (\<lambda>f w.
     (Inr (),
      w\<lparr>fds := (fds w)(fd := None),
        flocks := (if last_of_desc w fd (of_desc f) \<and> flocks w (of_ino f) = Some (Mine (of_desc f))
                   then (flocks w)(of_ino f := None) else flocks w)\<rparr>)))"

definition os_dup :: "nat \<Rightarrow> nat io" where
  "os_dup fd = syscall (with_fd fd (\<lambda>f w.
     (Inr (next_fd w), w\<lparr>fds := (fds w)(next_fd w \<mapsto> f), next_fd := Suc (next_fd w)\<rparr>)))"

definition os_lseek :: "nat \<Rightarrow> unit io" where
  "os_lseek fd = syscall (with_fd fd (\<lambda>f. ret ()))"

text \<open>Writing at offset 0, where both writers of the program are.\<close>

definition write_bytes :: "nat \<Rightarrow> string \<Rightarrow> world \<Rightarrow> world" where
  "write_bytes i bs w =
     set_inode i
       ((inodes w i)\<lparr>i_data := bs @ drop (length bs) (i_data (inodes w i)),
                     i_mtime := clock w, i_synced := False\<rparr>) w"

definition os_write :: "nat \<Rightarrow> string \<Rightarrow> unit io" where
  "os_write fd bs w =
     (case fds w fd of
        None \<Rightarrow> syscall (throw (OSError EBADF)) w
      | Some f \<Rightarrow>
          if \<not> of_write f then syscall (throw (OSError EBADF)) w
          else (case faults w of
                  Fail n e # fs \<Rightarrow>
                    (Inl (OSError (Io e)), (write_bytes (of_ino f) (take n bs) w)\<lparr>faults := fs\<rparr>)
                | Kill n # fs \<Rightarrow>
                    (Inl Killed, (write_bytes (of_ino f) (take n bs) w)\<lparr>faults := fs\<rparr>)
                | _ \<Rightarrow> syscall (modify (write_bytes (of_ino f) bs)) w))"

definition os_fsync :: "nat \<Rightarrow> unit io" where
  "os_fsync fd = syscall (with_fd fd (\<lambda>f.
     modify (\<lambda>w. set_inode (of_ino f) ((inodes w (of_ino f))\<lparr>i_synced := True\<rparr>) w)))"

definition os_fchmod :: "nat \<Rightarrow> nat \<Rightarrow> unit io" where
  "os_fchmod fd mode = syscall (with_fd fd (\<lambda>f.
     modify (\<lambda>w. set_inode (of_ino f) ((inodes w (of_ino f))\<lparr>i_mode := mode\<rparr>) w)))"

text \<open>\<open>os.read(fd, count)\<close> at an offset, and a whole read to the end.\<close>

definition os_read :: "nat \<Rightarrow> nat \<Rightarrow> nat \<Rightarrow> string io" where
  "os_read fd off count = syscall (with_fd fd (\<lambda>f.
     gets (\<lambda>w. take count (drop off (i_data (inodes w (of_ino f)))))))"

definition os_read_all :: "nat \<Rightarrow> string io" where
  "os_read_all fd = syscall (with_fd fd (\<lambda>f. gets (\<lambda>w. i_data (inodes w (of_ino f)))))"

subsection \<open>Locks\<close>

definition set_lock :: "nat \<Rightarrow> holder option \<Rightarrow> world \<Rightarrow> world" where
  "set_lock i h w = w\<lparr>flocks := (flocks w)(i := h)\<rparr>"

text \<open>\<open>fcntl.flock\<close> with \<open>LOCK_EX\<close>, \<open>LOCK_EX | LOCK_NB\<close> and \<open>LOCK_UN\<close>.\<close>

definition flock_ex :: "nat \<Rightarrow> unit io" where
  "flock_ex fd = syscall (with_fd fd (\<lambda>f w.
     case flocks w (of_ino f) of
       Some (Mine d) \<Rightarrow> if d = of_desc f then (Inr (), w) else (Inl Hang, w)
     | _ \<Rightarrow> (Inr (), set_lock (of_ino f) (Some (Mine (of_desc f))) w)))"

definition flock_nb :: "nat \<Rightarrow> unit io" where
  "flock_nb fd = syscall (with_fd fd (\<lambda>f w.
     case flocks w (of_ino f) of
       None \<Rightarrow> (Inr (), set_lock (of_ino f) (Some (Mine (of_desc f))) w)
     | Some h \<Rightarrow> if h = Mine (of_desc f) then (Inr (), w) else (Inl (OSError (Io EAGAIN)), w)))"

definition flock_un :: "nat \<Rightarrow> unit io" where
  "flock_un fd = syscall (with_fd fd (\<lambda>f w.
     if flocks w (of_ino f) = Some (Mine (of_desc f)) then (Inr (), set_lock (of_ino f) None w)
     else (Inr (), w)))"

text \<open>
  \<open>msvcrt.locking\<close> with \<open>LK_LOCK\<close> (which gives up on a lock this process holds),
  \<open>LK_NBLCK\<close> and \<open>LK_UNLCK\<close>.
\<close>

definition msvcrt_lock :: "nat \<Rightarrow> unit io" where
  "msvcrt_lock fd = syscall (with_fd fd (\<lambda>f w.
     case flocks w (of_ino f) of
       Some (Mine d) \<Rightarrow> (Inl (OSError (Io EDEADLK)), w)
     | _ \<Rightarrow> (Inr (), set_lock (of_ino f) (Some (Mine (of_desc f))) w)))"

definition msvcrt_nblock :: "nat \<Rightarrow> unit io" where
  "msvcrt_nblock fd = syscall (with_fd fd (\<lambda>f w.
     case flocks w (of_ino f) of
       None \<Rightarrow> (Inr (), set_lock (of_ino f) (Some (Mine (of_desc f))) w)
     | Some _ \<Rightarrow> (Inl (OSError (Io EACCES)), w)))"

definition msvcrt_unlock :: "nat \<Rightarrow> unit io" where
  "msvcrt_unlock fd = syscall (with_fd fd (\<lambda>f w.
     if flocks w (of_ino f) = Some (Mine (of_desc f)) then (Inr (), set_lock (of_ino f) None w)
     else (Inl (OSError (Io EACCES)), w)))"

section \<open>What a step leaves as it was\<close>

lemma lookup_put_ent: "lookup d n (put_ent d' n' i w) = (if d = d' \<and> n = n' then Some i else lookup d n w)"
  by (auto simp: lookup_def put_ent_def update_conv')

lemma lookup_del_ent: "lookup d n (del_ent d' n' w) = (if d = d' \<and> n = n' then None else lookup d n w)"
  by (auto simp: lookup_def del_ent_def delete_conv')

lemma lookup_set_inode [simp]: "lookup d n (set_inode i x w) = lookup d n w"
  by (simp add: lookup_def set_inode_def)

lemma lookup_link [simp]: "lookup d n (add_link i w) = lookup d n w" "lookup d n (drop_link i w) = lookup d n w"
  by (simp_all add: lookup_def add_link_def drop_link_def set_inode_def)

lemma lookup_create_ent:
  "lookup d n (create_ent d' n' m w) = (if d = d' \<and> n = n' then Some (next_ino w) else lookup d n w)"
  by (simp add: create_ent_def lookup_put_ent) (simp add: lookup_def set_inode_def)

lemma lookup_unlink_ent:
  "lookup d n (unlink_ent d' n' i w) = (if d = d' \<and> n = n' then None else lookup d n w)"
  by (simp add: unlink_ent_def lookup_del_ent)

lemma lookup_fields [simp]:
  "lookup d n (w\<lparr>faults := a\<rparr>) = lookup d n w" "lookup d n (w\<lparr>fds := b\<rparr>) = lookup d n w"
  "lookup d n (w\<lparr>next_fd := k\<rparr>) = lookup d n w" "lookup d n (w\<lparr>flocks := c\<rparr>) = lookup d n w"
  "lookup d n (w\<lparr>tokens := ts\<rparr>) = lookup d n w" "lookup d n (w\<lparr>guards := g\<rparr>) = lookup d n w"
  "lookup d n (add_fd i wr w) = lookup d n w"
  by (simp_all add: lookup_def add_fd_def)

lemma fd_fields [simp]:
  "fds (create_ent d n m w) = fds w" "next_fd (create_ent d n m w) = next_fd w"
  "fds (write_bytes i bs w) = fds w" "fds (set_inode i x w) = fds w"
  by (simp_all add: create_ent_def put_ent_def set_inode_def write_bytes_def)

lemma lookup_write_bytes [simp]: "lookup d n (write_bytes i bs w) = lookup d n w"
  by (simp add: write_bytes_def)

lemma ent_fields [simp]:
  "next_ino (put_ent d n i w) = next_ino w" "inodes (put_ent d n i w) = inodes w"
  "next_ino (del_ent d n w) = next_ino w" "inodes (del_ent d n w) = inodes w"
  "next_ino (set_inode i x w) = next_ino w" "inodes (set_inode i x w) = (inodes w)(i := x)"
  "next_ino (write_bytes i bs w) = next_ino w" "next_ino (create_ent d n m w) = Suc (next_ino w)"
  "next_ino (unlink_ent d n i w) = next_ino w" "next_ino (add_link i w) = next_ino w"
  by (simp_all add: put_ent_def del_ent_def set_inode_def write_bytes_def create_ent_def
      unlink_ent_def add_link_def drop_link_def)

lemma ent_inodes [simp]:
  "i_data (inodes (unlink_ent d n i w) j) = i_data (inodes w j)"
  "i_kind (inodes (unlink_ent d n i w) j) = i_kind (inodes w j)"
  "i_synced (inodes (unlink_ent d n i w) j) = i_synced (inodes w j)"
  "i_data (inodes (add_link i w) j) = i_data (inodes w j)"
  "i_kind (inodes (add_link i w) j) = i_kind (inodes w j)"
  "i_synced (inodes (add_link i w) j) = i_synced (inodes w j)"
  "i_kind (inodes (write_bytes i bs w) j) = i_kind (inodes w j)"
  by (simp_all add: unlink_ent_def drop_link_def add_link_def write_bytes_def)

lemma write_bytes_other [simp]: "j \<noteq> i \<Longrightarrow> inodes (write_bytes i bs w) j = inodes w j"
  by (simp add: write_bytes_def)

lemma create_ent_inodes:
  "inodes (create_ent d n m w) j = (if j = next_ino w then new_inode m w else inodes w j)"
  by (simp add: create_ent_def)

end
