(* ===== verification/Record_Names.thy ===== *)
theory Record_Names
  imports Dates Json File_System
begin

text \<open>
  The names the spool gives to its files, and the checks it makes on names it is given:
  \<open>uuid.UUID\<close> as a test, \<open>_record_name\<close>, \<open>_numbered_name\<close>, \<open>Path.name\<close>,
  \<open>Path.suffix\<close> and \<open>Path.stem\<close>, and the names of markers, reservations and artifact
  guards. SHA-256 is the argument \<open>sha\<close> (text to hexadecimal digest).
\<close>

section \<open>UUID\<close>

text \<open>\<open>s.replace(p, r)\<close> for a non-empty \<open>p\<close>, and \<open>s.strip(chars)\<close>.\<close>

fun replace_all :: "string \<Rightarrow> string \<Rightarrow> string \<Rightarrow> string" where
  "replace_all p r [] = []"
| "replace_all p r (c # s) =
     (if p \<noteq> [] \<and> starts_with (c # s) p then r @ replace_all p r (drop (length p - 1) s)
      else c # replace_all p r s)"

definition strip_chars :: "char list \<Rightarrow> string \<Rightarrow> string" where
  "strip_chars cs s =
     rev (dropWhile (\<lambda>c. c \<in> set cs) (rev (dropWhile (\<lambda>c. c \<in> set cs) s)))"

text \<open>Digits of \<open>int(text, 16)\<close>: single underscores may stand between two of them.\<close>

fun hex_digits :: "string \<Rightarrow> bool" where
  "hex_digits [] = False"
| "hex_digits [c] = (hex_val c \<noteq> None)"
| "hex_digits (c # d # s) =
     (hex_val c \<noteq> None \<and> (if d = CHR ''_'' then hex_digits s else hex_digits (d # s)))"

fun drop_sign :: "string \<Rightarrow> string" where
  "drop_sign [] = []"
| "drop_sign (c # t) = (if c = CHR ''+'' \<or> c = CHR ''-'' then t else c # t)"

fun drop_underscore :: "string \<Rightarrow> string" where
  "drop_underscore [] = []"
| "drop_underscore (c # t) = (if c = CHR ''_'' then t else c # t)"

fun drop_0x :: "string \<Rightarrow> string" where
  "drop_0x (a # b # t) =
     (if a = CHR ''0'' \<and> char_lower b = CHR ''x'' then drop_underscore t else a # b # t)"
| "drop_0x s = s"

definition int16_ok :: "string \<Rightarrow> bool" where
  "int16_ok s \<longleftrightarrow> hex_digits (drop_0x (drop_sign (strip s)))"

text \<open>The text \<open>UUID(hex)\<close> reads as a number, and whether it raises no \<open>ValueError\<close>.\<close>

definition uuid_digits :: "string \<Rightarrow> string" where
  "uuid_digits s =
     replace_all ''-'' [] (strip_chars ''{}'' (replace_all ''uuid:'' [] (replace_all ''urn:'' [] s)))"

definition uuid_ok :: "string \<Rightarrow> bool" where
  "uuid_ok s \<longleftrightarrow> length (uuid_digits s) = 32 \<and> int16_ok (uuid_digits s)"

section \<open>Path components\<close>

text \<open>\<open>Path(s).name\<close>: the last component that is not empty and not \<open>.\<close>.\<close>

definition path_name :: "string \<Rightarrow> string" where
  "path_name s =
     (let ps = filter (\<lambda>p. p \<noteq> [] \<and> p \<noteq> ''.'') (split_char CHR ''/'' s)
      in if ps = [] then [] else last ps)"

text \<open>
  \<open>suffix\<close> and \<open>stem\<close> of a name: the part from the last dot on and the part before it,
  leading dots apart. (Python releases differ on names that end with a dot, which the spool never
  accepts.)
\<close>

definition last_dot :: "string \<Rightarrow> nat option" where
  "last_dot s =
     (let t = dropWhile (\<lambda>c. c = CHR ''.'') s; u = takeWhile (\<lambda>c. c \<noteq> CHR ''.'') (rev t)
      in if CHR ''.'' \<in> set t \<and> u \<noteq> [] then Some (length s - length u - 1) else None)"

definition path_suffix :: "string \<Rightarrow> string" where
  "path_suffix s = (case last_dot s of None \<Rightarrow> [] | Some k \<Rightarrow> drop k s)"

definition path_stem :: "string \<Rightarrow> string" where
  "path_stem s = (case last_dot s of None \<Rightarrow> s | Some k \<Rightarrow> take k s)"

text \<open>\<open>s.rsplit(".", 1)\<close> at the last dot, and the names with a collision number.\<close>

definition rsplit_dot :: "string \<Rightarrow> (string \<times> string) option" where
  "rsplit_dot s =
     (if CHR ''.'' \<in> set s
      then (let u = takeWhile (\<lambda>c. c \<noteq> CHR ''.'') (rev s)
            in Some (take (length s - length u - 1) s, rev u))
      else None)"

definition numbered_name :: "string \<Rightarrow> nat \<Rightarrow> exn + string" where
  "numbered_name name number =
     (if number = 0 then Inr name
      else (case rsplit_dot name of
              None \<Rightarrow> Inl (ValueError ''not enough values to unpack'')
            | Some (stem, extension) \<Rightarrow> Inr (stem @ ''.'' @ dec number @ ''.'' @ extension)))"

section \<open>Record names\<close>

definition record_stamp :: "int \<Rightarrow> string" where
  "record_stamp us = strftime (to_date us)"

definition valid_event_id :: "json option \<Rightarrow> bool" where
  "valid_event_id v \<longleftrightarrow> (case json_str v of None \<Rightarrow> False | Some s \<Rightarrow> uuid_ok s)"

fun record_name :: "json \<Rightarrow> int \<Rightarrow> exn + string" where
  "record_name (JObj d) now =
     (case json_str (dict_get d ''event_id'') of
        None \<Rightarrow> Inl (ValueError ''event_id must be a UUID'')
      | Some event_id \<Rightarrow>
          if uuid_ok event_id then Inr (record_stamp now @ ''_'' @ event_id @ ''.json'')
          else Inl (ValueError ''event_id must be a UUID''))"
| "record_name _ now = Inl (TypeError ''payload must be a mapping'')"

fun valid_payload :: "json \<Rightarrow> bool" where
  "valid_payload (JObj d) = valid_event_id (dict_get d ''event_id'')"
| "valid_payload _ = False"

definition serialize :: "nat \<Rightarrow> json \<Rightarrow> exn + string" where
  "serialize dep payload =
     (case json_dumps dep payload of
        Inl e \<Rightarrow> if is_ValueError e then Inl (TypeError ''payload is not JSON serializable'') else Inl e
      | Inr s \<Rightarrow> utf8_encode s)"

text \<open>The part before the first underscore as an instant.\<close>

definition name_time :: "string \<Rightarrow> int option" where
  "name_time n = map_option of_date (strptime (before_char CHR ''_'' n))"

section \<open>Dead letters, markers and reservations\<close>

definition attribution :: "(string \<Rightarrow> string) \<Rightarrow> string \<Rightarrow> string" where
  "attribution sha source = take 16 (sha source)"

definition dead_letter_name :: "(string \<Rightarrow> string) \<Rightarrow> string \<Rightarrow> string \<Rightarrow> string" where
  "dead_letter_name sha source suffix =
     path_stem source @ ''.'' @ attribution sha source @ suffix @ ''.json''"

definition operation_id :: "(string \<Rightarrow> string) \<Rightarrow> string \<Rightarrow> string \<Rightarrow> string" where
  "operation_id sha source suffix = take 24 (sha (source @ [CHR 0x00] @ suffix))"

definition publish_reservation_name :: "(string \<Rightarrow> string) \<Rightarrow> string \<Rightarrow> string" where
  "publish_reservation_name sha n = ''.publish-'' @ take 24 (sha n) @ ''.lock''"

definition dead_letter_reservation_name :: "(string \<Rightarrow> string) \<Rightarrow> string \<Rightarrow> string" where
  "dead_letter_reservation_name sha n = ''.deadres-'' @ take 24 (sha n) @ ''.lock''"

definition marker_name_of :: "(string \<Rightarrow> string) \<Rightarrow> string \<Rightarrow> string \<Rightarrow> string" where
  "marker_name_of sha source suffix = ''.deadop-'' @ operation_id sha source suffix @ ''.json''"

definition operation_lock_name :: "(string \<Rightarrow> string) \<Rightarrow> string \<Rightarrow> string \<Rightarrow> string" where
  "operation_lock_name sha source suffix = ''.deadop-'' @ operation_id sha source suffix @ ''.lock''"

section \<open>Artifact guards\<close>

definition guard_prefix :: string where
  "guard_prefix = ''.artifact-guard-''"

text \<open>One file per kind, or one of 256 slots of a kind, taken from the artifact's digest.\<close>

fun guard_slots :: "(string \<times> string) list \<Rightarrow> (string \<Rightarrow> string) \<Rightarrow> string \<Rightarrow> exn + string" where
  "guard_slots [] sha n = Inl (ValueError ''unsupported hidden spool artifact'')"
| "guard_slots ((pre, kind) # ks) sha n =
     (if starts_with n pre then Inr (guard_prefix @ kind @ ''-'' @ take 2 (sha n))
      else guard_slots ks sha n)"

definition artifact_guard_name :: "(string \<Rightarrow> string) \<Rightarrow> string \<Rightarrow> exn + string" where
  "artifact_guard_name sha n =
     (if starts_with n ''.spool-'' then Inr (guard_prefix @ ''spool'')
      else if starts_with n ''.deadmark-'' then Inr (guard_prefix @ ''deadmark'')
      else guard_slots
             [(''.publish-'', ''publish''), (''.deadop-'', ''deadop''), (''.deadres-'', ''deadres'')] sha n)"

section \<open>Facts about names\<close>

lemma set_replace_all: "c \<in> set s \<Longrightarrow> c \<notin> set p \<Longrightarrow> c \<in> set (replace_all p r s)"
proof (induction p r s rule: replace_all.induct)
  case (1 p r)
  then show ?case by simp
next
  case (2 p r a s)
  show ?case
  proof (cases "p \<noteq> [] \<and> starts_with (a # s) p")
    case True
    then obtain t where t: "a # s = p @ t" by (auto simp: starts_with_iff)
    with True have "drop (length p - 1) s = t" by (cases p) auto
    moreover from t 2 have "c \<in> set t" by (metis Un_iff set_append)
    ultimately show ?thesis using 2 True by simp
  next
    case False
    with 2 show ?thesis by auto
  qed
qed

lemma set_dropWhile_other: "c \<in> set s \<Longrightarrow> \<not> P c \<Longrightarrow> c \<in> set (dropWhile P s)"
  by (induction s) auto

lemma set_strip_chars: "c \<in> set s \<Longrightarrow> c \<notin> set cs \<Longrightarrow> c \<in> set (strip_chars cs s)"
  by (simp add: strip_chars_def set_dropWhile_other)

lemma hex_digits_set: "hex_digits s \<Longrightarrow> \<forall>c \<in> set s. hex_val c \<noteq> None \<or> c = CHR ''_''"
proof (induction s rule: hex_digits.induct)
  case (3 c d s)
  show ?case
  proof (cases "d = CHR ''_''")
    case True
    with 3(3) have "hex_digits s" "hex_val c \<noteq> None" by (simp_all only: hex_digits.simps if_True simp_thms)
    with 3(1) True show ?thesis by (simp only: list.set ball_simps simp_thms) blast
  next
    case False
    with 3(3) have "hex_digits (d#s)" "hex_val c \<noteq> None" by (simp_all only: hex_digits.simps if_False simp_thms)
    with 3(2) False show ?thesis by (simp only: list.set ball_simps simp_thms) blast
  qed
qed (simp_all only: hex_digits.simps list.set ball_simps simp_thms)

lemma set_strip: "c \<in> set s \<Longrightarrow> is_space c \<or> c \<in> set (strip s)"
  unfolding strip_def set_rev
  using set_dropWhile_other [of c s is_space] set_dropWhile_other [of c "rev (dropWhile is_space s)" is_space]
  by auto

lemma set_drop_sign: "c \<in> set s \<Longrightarrow> c = CHR ''+'' \<or> c = CHR ''-'' \<or> c \<in> set (drop_sign s)"
  by (cases s) (simp_all only: drop_sign.simps list.set split: if_split, blast+)

lemma set_drop_underscore: "c \<in> set s \<Longrightarrow> c = CHR ''_'' \<or> c \<in> set (drop_underscore s)"
  by (cases s) (simp_all only: drop_underscore.simps list.set split: if_split, blast+)

lemma set_drop_0x:
  "c \<in> set s \<Longrightarrow> c = CHR ''0'' \<or> char_lower c = CHR ''x'' \<or> c = CHR ''_'' \<or> c \<in> set (drop_0x s)"
proof (cases s rule: drop_0x.cases)
  case (1 a b t)
  assume "c \<in> set s"
  with 1 have "c = a \<or> c = b \<or> c \<in> set t" by simp
  with 1 set_drop_underscore [of c t] show ?thesis
    by (simp only: drop_0x.simps list.set split: if_split) blast
qed simp_all

text \<open>The characters an accepted event id can have.\<close>

definition id_char :: "char \<Rightarrow> bool" where
  "id_char c \<longleftrightarrow>
     hex_val c \<noteq> None \<or> is_space c \<or> char_lower c = CHR ''x'' \<or> c \<in> set ''_+-{}urn:uid''"

lemma uuid_ok_chars: "uuid_ok s \<Longrightarrow> c \<in> set s \<Longrightarrow> id_char c"
proof -
  assume ok: "uuid_ok s" and c: "c \<in> set s"
  show "id_char c"
  proof (cases "c \<in> set ''-{}urn:uid''")
    case True
    then show ?thesis by (auto simp: id_char_def)
  next
    case False
    then have "c \<notin> set ''urn:''" "c \<notin> set ''uuid:''" "c \<notin> set ''{}''" "c \<notin> set ''-''"
      by simp_all
    then have "c \<in> set (uuid_digits s)"
      unfolding uuid_digits_def by (intro set_replace_all set_strip_chars c)
    with ok have "is_space c \<or> c = CHR ''+'' \<or> c = CHR ''-'' \<or> c = CHR ''0'' \<or>
        char_lower c = CHR ''x'' \<or> c = CHR ''_'' \<or> hex_val c \<noteq> None"
      unfolding uuid_ok_def int16_ok_def
      using hex_digits_set set_drop_0x set_drop_sign set_strip by blast
    moreover have "hex_val CHR ''0'' \<noteq> None"
      by (simp add: hex_val.simps)
    ultimately show ?thesis
      unfolding id_char_def by (elim disjE) simp_all
  qed
qed

lemma id_char_plain: "id_char c \<Longrightarrow> c \<noteq> CHR ''/'' \<and> c \<noteq> CHR 0x00"
  by (auto simp: id_char_def is_space_def char_lower_def hex_val.simps)

lemma stamp_chars: "c \<in> set (strftime t) \<Longrightarrow> is_digit c \<or> c = CHR ''T'' \<or> c = CHR ''Z''"
  using fixed_dec_digits by (auto simp: strftime_def)

lemma plain_digit: "is_digit c \<Longrightarrow> c \<noteq> CHR ''/'' \<and> c \<noteq> CHR 0x00 \<and> c \<noteq> CHR ''_'' \<and> c \<noteq> CHR ''.''"
  by (auto simp: is_digit_def)

lemma before_char_append: "c \<notin> set a \<Longrightarrow> before_char c (a @ c # b) = a"
  unfolding before_char_def by (induction a) auto

lemma name_time_stamp:
  assumes "valid_instant us"
  shows "name_time (record_stamp us @ ''_'' @ x) = Some us"
proof -
  have "CHR ''_'' \<notin> set (record_stamp us)"
    using stamp_chars [of "CHR ''_''"] plain_digit by (auto simp: record_stamp_def)
  then have "before_char CHR ''_'' (record_stamp us @ ''_'' @ x) = record_stamp us"
    using before_char_append by simp
  then show ?thesis
    using assms
    by (simp add: name_time_def record_stamp_def strptime_strftime valid_to_date of_date_to_date
        valid_instant_def)
qed

lemma path_suffix_json: "s \<noteq> [] \<Longrightarrow> hd s \<noteq> CHR ''.'' \<Longrightarrow> path_suffix (s @ ''.json'') = ''.json''"
  by (cases s) (auto simp: path_suffix_def last_dot_def Let_def)

lemma path_stem_json: "s \<noteq> [] \<Longrightarrow> hd s \<noteq> CHR ''.'' \<Longrightarrow> path_stem (s @ ''.json'') = s"
  by (cases s) (auto simp: path_stem_def last_dot_def Let_def)

lemma split_char_none: "c \<notin> set s \<Longrightarrow> split_char c s = [s]"
  by (induction s) auto

lemma path_name_plain: "CHR ''/'' \<notin> set s \<Longrightarrow> s \<noteq> ''.'' \<Longrightarrow> path_name s = s"
  by (auto simp: path_name_def split_char_none Let_def)

lemma guard_name_prefix: "artifact_guard_name sha n = Inr g \<Longrightarrow> starts_with g guard_prefix"
  by (auto simp: artifact_guard_name_def split: if_splits)

end
