(* ===== verification/Spool_Base.thy ===== *)
theory Spool_Base
  imports Record_Names
begin

text \<open>
  The lower layer of \<open>spool.py\<close>: descriptor-relative operations on names, locks on
  descriptors, artifact guards and reservations. Each definition carries the name of the method
  it models, without the leading underscore. The branches on the platform are kept; a file of
  the spool that is a symbolic link is never followed.
\<close>

section \<open>The object\<close>

text \<open>
  The limits of a \<open>Spool\<close>, the digest it uses, and the nesting depth of the interpreter's
  JSON code. The table of held artifact guards is in the world.
\<close>

record spool =
  max_bytes :: int
  max_age_sec :: int
  sha :: "string \<Rightarrow> string"
  depth_limit :: nat

definition is_posix :: "bool io" where
  "is_posix = gets (\<lambda>w. platform w = Posix)"

text \<open>\<open>except BaseException: h; raise\<close>.\<close>

definition on_error :: "('w, 'a) prog \<Rightarrow> ('w, unit) prog \<Rightarrow> ('w, 'a) prog" where
  "on_error m h = try_except m any_exn (\<lambda>e. andthen h (throw e))"

lemma wp_on_error [wp_simps]:
  "wp (on_error m h) Q E w \<longleftrightarrow>
     wp m Q (\<lambda>e w'. if fatal e then E e w' else wp h (\<lambda>_. E e) E w') w"
  by (simp add: on_error_def wp_simps wp_throw [abs_def] conj_commute)

lemma keeps_on_error [keeps_intros]: "keeps I m \<Longrightarrow> keeps I h \<Longrightarrow> keeps I (on_error m h)"
  unfolding on_error_def by (intro keeps_intros)

section \<open>Locks on descriptors\<close>

definition ensure_lock_byte :: "nat \<Rightarrow> unit io" where
  "ensure_lock_byte fd =
     bnd (os_fstat fd) (\<lambda>st.
     andthen (when_m (st_size st = 0) (andthen (os_lseek fd) (os_write fd [CHR 0x00])))
       (os_lseek fd))"

definition lock_descriptor :: "nat \<Rightarrow> unit io" where
  "lock_descriptor fd =
     bnd (gets platform) (\<lambda>p.
     case p of
       Nt \<Rightarrow> andthen (ensure_lock_byte fd) (msvcrt_lock fd)
     | OtherOS \<Rightarrow> ret ()
     | Posix \<Rightarrow> flock_ex fd)"

definition lock_busy :: "exn \<Rightarrow> bool" where
  "lock_busy e \<longleftrightarrow> e \<in> {OSError (Io EACCES), OSError (Io EAGAIN), OSError (Io EDEADLK)}"

definition try_lock_descriptor :: "nat \<Rightarrow> bool io" where
  "try_lock_descriptor fd =
     bnd (gets platform) (\<lambda>p.
     case p of
       Nt \<Rightarrow> andthen (ensure_lock_byte fd)
               (try_except (andthen (msvcrt_nblock fd) (ret True)) lock_busy (\<lambda>_. ret False))
     | OtherOS \<Rightarrow> ret False
     | Posix \<Rightarrow> try_except (andthen (flock_nb fd) (ret True)) is_BlockingIOError (\<lambda>_. ret False))"

definition unlock_descriptor :: "nat \<Rightarrow> unit io" where
  "unlock_descriptor fd =
     bnd (gets platform) (\<lambda>p.
     case p of
       Nt \<Rightarrow> andthen (os_lseek fd) (msvcrt_unlock fd)
     | OtherOS \<Rightarrow> ret ()
     | Posix \<Rightarrow> flock_un fd)"

definition close_locked_descriptor :: "nat \<Rightarrow> unit io" where
  "close_locked_descriptor fd = try_finally (unlock_descriptor fd) (os_close fd)"

definition close_locked_descriptor_with_retry :: "nat \<Rightarrow> unit io" where
  "close_locked_descriptor_with_retry fd =
     on_error (close_locked_descriptor fd) (suppress any_exn (close_locked_descriptor fd))"

definition close_descriptor :: "nat \<Rightarrow> bool \<Rightarrow> unit io" where
  "close_descriptor fd locked =
     (if locked then close_locked_descriptor_with_retry fd else os_close fd)"

section \<open>Names relative to a directory\<close>

definition with_dir :: "dir \<Rightarrow> 'a io \<Rightarrow> 'a io" where
  "with_dir d m = andthen (os_open_dir d) (try_finally m (os_close_dir d))"

definition stat_or_none :: "dir \<Rightarrow> string \<Rightarrow> stat option io" where
  "stat_or_none d n =
     try_except (bnd (os_lstat d n) (\<lambda>st. ret (Some st))) is_FileNotFoundError (\<lambda>_. ret None)"

definition name_exists :: "dir \<Rightarrow> string \<Rightarrow> bool io" where
  "name_exists d n =
     bnd is_posix (\<lambda>posix.
     if \<not> posix then path_exists d n
     else with_dir d (bnd (stat_or_none d n) (\<lambda>st. ret (st \<noteq> None))))"

definition current_stat :: "dir \<Rightarrow> string \<Rightarrow> stat option io" where
  "current_stat d n =
     bnd is_posix (\<lambda>posix.
     if \<not> posix then stat_or_none d n else with_dir d (stat_or_none d n))"

definition open_name_matches :: "dir \<Rightarrow> string \<Rightarrow> nat \<Rightarrow> bool io" where
  "open_name_matches d n fd =
     bnd (os_fstat fd) (\<lambda>opened.
     bnd (current_stat d n) (\<lambda>current.
     case current of
       None \<Rightarrow> ret False
     | Some st \<Rightarrow>
         ret (st_kind st = Regular \<and> st_nlink st = 1 \<and> st_ino st = st_ino opened)))"

definition unlink_open_name :: "dir \<Rightarrow> string \<Rightarrow> nat \<Rightarrow> bool io" where
  "unlink_open_name d n fd =
     bnd (os_fstat fd) (\<lambda>opened.
     bnd is_posix (\<lambda>posix.
     (if posix then with_dir d else id)
       (bnd (stat_or_none d n) (\<lambda>current.
        case current of
          None \<Rightarrow> ret False
        | Some st \<Rightarrow>
            if st_ino st \<noteq> st_ino opened then ret False
            else andthen (os_unlink d n) (ret True)))))"

definition open_name :: "dir \<Rightarrow> string \<Rightarrow> bool \<Rightarrow> bool \<Rightarrow> bool \<Rightarrow> nat io" where
  "open_name d n wr creat excl =
     bnd is_posix (\<lambda>posix.
     if \<not> posix then os_open d n wr creat excl mode_600
     else with_dir d (os_open d n wr creat excl mode_600))"

definition open_record :: "dir \<Rightarrow> string \<Rightarrow> nat io" where
  "open_record d n =
     bnd (open_name d n False False False) (\<lambda>fd.
     on_error
       (bnd (os_fstat fd) (\<lambda>st.
        if st_kind st \<noteq> Regular \<or> st_nlink st \<noteq> 1
        then throw (ValueError ''not a pending spool record'') else ret fd))
       (os_close fd))"

definition linux_rename_noreplace :: "dir \<Rightarrow> string \<Rightarrow> dir \<Rightarrow> string \<Rightarrow> bool io" where
  "linux_rename_noreplace sd sn dd dn =
     bnd (gets has_renameat2) (\<lambda>available.
     if \<not> available then ret False
     else try_except (andthen (os_rename_noreplace sd sn dd dn) (ret True))
            (\<lambda>e. e \<in> {OSError (Io ENOSYS), OSError (Io EINVAL), OSError (Io ENOTSUP)})
            (\<lambda>_. ret False))"

definition publish_noreplace :: "dir \<Rightarrow> string \<Rightarrow> dir \<Rightarrow> string \<Rightarrow> unit io" where
  "publish_noreplace sd sn dd dn =
     bnd is_posix (\<lambda>posix.
     if \<not> posix then os_rename_noreplace sd sn dd dn
     else
       andthen (os_open_dir sd) (
       andthen (os_open_dir dd) (
       try_finally
         (bnd (gets linux) (\<lambda>lx.
          bnd (if lx then linux_rename_noreplace sd sn dd dn else ret False) (\<lambda>done.
          if done then ret () else andthen (os_link sd sn dd dn) (os_unlink sd sn))))
         (andthen (os_close_dir dd) (os_close_dir sd)))))"

definition replace_name :: "dir \<Rightarrow> string \<Rightarrow> dir \<Rightarrow> string \<Rightarrow> unit io" where
  "replace_name sd sn dd dn =
     bnd is_posix (\<lambda>posix.
     if \<not> posix then os_replace sd sn dd dn
     else
       andthen (os_open_dir sd) (
       andthen (os_open_dir dd) (
       try_finally (os_replace sd sn dd dn)
         (andthen (os_close_dir dd) (os_close_dir sd)))))"

definition unlink_if_exists :: "dir \<Rightarrow> string \<Rightarrow> unit io" where
  "unlink_if_exists d n = suppress is_FileNotFoundError (os_unlink d n)"

definition unlink_name :: "dir \<Rightarrow> string \<Rightarrow> unit io" where
  "unlink_name d n =
     bnd is_posix (\<lambda>posix.
     if \<not> posix then suppress is_FileNotFoundError (os_unlink d n)
     else with_dir d (suppress is_FileNotFoundError (os_unlink d n)))"

definition fchmod_descriptor :: "nat \<Rightarrow> dir \<Rightarrow> string \<Rightarrow> nat \<Rightarrow> unit io" where
  "fchmod_descriptor fd d n mode =
     bnd is_posix (\<lambda>posix. if posix then os_fchmod fd mode else os_chmod d n mode)"

definition fsync_unsupported :: "exn \<Rightarrow> bool" where
  "fsync_unsupported e \<longleftrightarrow> e \<in> {OSError (Io EINVAL), OSError (Io ENOTSUP)}"

definition fsync_directory :: "dir \<Rightarrow> unit io" where
  "fsync_directory d =
     bnd is_posix (\<lambda>posix.
     if \<not> posix then ret ()
     else try_else (os_open_dir d) is_OSError (\<lambda>_. ret ())
            (\<lambda>_. try_finally (try_except (os_fsync_dir d) fsync_unsupported (\<lambda>_. ret ()))
                   (os_close_dir d)))"

subsection \<open>Digests\<close>

definition chunk_bytes :: nat where
  "chunk_bytes = 65536"

primrec read_chunks :: "nat \<Rightarrow> nat \<Rightarrow> nat \<Rightarrow> string \<Rightarrow> string io" where
  "read_chunks 0 fd off acc = throw Hang"
| "read_chunks (Suc k) fd off acc =
     bnd (os_read fd off chunk_bytes) (\<lambda>chunk.
     if chunk = [] then ret acc else read_chunks k fd (off + length chunk) (acc @ chunk))"

definition read_fuel :: "nat \<Rightarrow> world \<Rightarrow> nat" where
  "read_fuel fd w =
     (case fds w fd of None \<Rightarrow> 1 | Some f \<Rightarrow> Suc (length (i_data (inodes w (of_ino f)))))"

definition descriptor_digest :: "spool \<Rightarrow> nat \<Rightarrow> string io" where
  "descriptor_digest sp fd =
     andthen (os_lseek fd) (
     bnd (try_finally
            (andthen (os_lseek fd) (bnd (gets (read_fuel fd)) (\<lambda>k. read_chunks k fd 0 [])))
            (os_lseek fd)) (\<lambda>bytes.
     ret (sha sp bytes)))"

section \<open>Artifact guards\<close>

definition set_guard :: "dir \<Rightarrow> string \<Rightarrow> (nat \<times> nat) option \<Rightarrow> unit io" where
  "set_guard d g h = modify (\<lambda>w. w\<lparr>guards := (guards w)((d, g) := h)\<rparr>)"

definition acquire_artifact_guard :: "spool \<Rightarrow> dir \<Rightarrow> string \<Rightarrow> bool \<Rightarrow> bool io" where
  "acquire_artifact_guard sp d artifact blocking =
     bnd (lift_result (artifact_guard_name (sha sp) artifact)) (\<lambda>g.
     bnd (gets (\<lambda>w. guards w (d, g))) (\<lambda>held.
     case held of
       Some (fd, depth) \<Rightarrow> andthen (set_guard d g (Some (fd, depth + 1))) (ret True)
     | None \<Rightarrow>
         bnd (open_name d g True True False) (\<lambda>fd.
         bnd (on_error
                (bnd (os_fstat fd) (\<lambda>st.
                 bnd (if st_kind st \<noteq> Regular \<or> st_nlink st \<noteq> 1 then ret False
                      else open_name_matches d g fd) (\<lambda>ok.
                 if \<not> ok then throw (ValueError ''spool artifact guard must be a regular file'')
                 else if blocking then andthen (lock_descriptor fd) (ret (st, True))
                 else bnd (try_lock_descriptor fd) (\<lambda>got. ret (st, got)))))
                (os_close fd)) (\<lambda>(st, locked).
         if \<not> locked then andthen (os_close fd) (ret False)
         else
           on_error
             (bnd (open_name_matches d g fd) (\<lambda>ok.
              if \<not> ok then throw (ValueError ''spool artifact guard changed while locking'')
              else
                andthen (when_m (st_mode st \<noteq> mode_600) (fchmod_descriptor fd d g mode_600)) (
                andthen (set_guard d g (Some (fd, 1))) (ret True))))
             (close_locked_descriptor_with_retry fd)))))"

definition release_artifact_guard :: "spool \<Rightarrow> dir \<Rightarrow> string \<Rightarrow> unit io" where
  "release_artifact_guard sp d artifact =
     bnd (lift_result (artifact_guard_name (sha sp) artifact)) (\<lambda>g.
     bnd (gets (\<lambda>w. guards w (d, g))) (\<lambda>held.
     case held of
       None \<Rightarrow> throw KeyError
     | Some (fd, depth) \<Rightarrow>
         if 1 < depth then set_guard d g (Some (fd, depth - 1))
         else andthen (set_guard d g None) (close_locked_descriptor_with_retry fd)))"

section \<open>Stale artifacts and reservations\<close>

definition cleanup_stale_hidden_file :: "spool \<Rightarrow> dir \<Rightarrow> string \<Rightarrow> bool io" where
  "cleanup_stale_hidden_file sp d n =
     bnd (acquire_artifact_guard sp d n False) (\<lambda>held.
     if \<not> held then ret False
     else
       try_finally
         (try_else (open_name d n True False False) is_OSError (\<lambda>_. ret False) (\<lambda>fd.
            bnd (on_error
                   (bnd (os_fstat fd) (\<lambda>st.
                    if st_kind st \<noteq> Regular \<or> st_nlink st \<noteq> 1 then ret (st, False)
                    else bnd (try_lock_descriptor fd) (\<lambda>got. ret (st, got))))
                   (os_close fd)) (\<lambda>(st, locked).
            if \<not> locked then andthen (os_close fd) (ret False)
            else
              bnd is_posix (\<lambda>posix.
              if \<not> posix then
                andthen (on_error (close_locked_descriptor_with_retry fd)
                           (close_locked_descriptor_with_retry fd)) (
                bnd (stat_or_none d n) (\<lambda>current.
                case current of
                  None \<Rightarrow> ret False
                | Some cur \<Rightarrow>
                    if st_kind cur \<noteq> Regular \<or> st_ino cur \<noteq> st_ino st then ret False
                    else andthen (os_unlink d n) (andthen (fsync_directory d) (ret True))))
              else
                try_finally
                  (bnd (unlink_open_name d n fd) (\<lambda>removed.
                   andthen (when_m removed (fsync_directory d)) (ret removed)))
                  (close_locked_descriptor_with_retry fd)))))
         (release_artifact_guard sp d n))"

text \<open>
  One turn of the loop of \<open>_acquire_reservation\<close>: \<open>Some r\<close> returns \<open>r\<close>, \<open>None\<close> goes
  on to the next turn.
\<close>

definition reserve_attempt :: "spool \<Rightarrow> dir \<Rightarrow> string \<Rightarrow> nat option option io" where
  "reserve_attempt sp d n =
     try_else (open_name d n True True True) is_FileExistsError
       (\<lambda>_. bnd (cleanup_stale_hidden_file sp d n) (\<lambda>removed.
            ret (if removed then None else Some None)))
       (\<lambda>fd.
          on_error
            (andthen (lock_descriptor fd) (
             andthen (fchmod_descriptor fd d n mode_600) (ret (Some (Some fd)))))
            (andthen (suppress is_OSError (unlock_descriptor fd)) (
             andthen (os_close fd) (unlink_name d n))))"

definition acquire_reservation :: "spool \<Rightarrow> dir \<Rightarrow> string \<Rightarrow> nat option io" where
  "acquire_reservation sp d n =
     bnd (acquire_artifact_guard sp d n False) (\<lambda>held.
     if \<not> held then ret None
     else
       bnd (on_error (for_range 2 0 (\<lambda>_. reserve_attempt sp d n)) (release_artifact_guard sp d n))
         (\<lambda>r.
          case r of
            Some (Some fd) \<Rightarrow> ret (Some fd)
          | _ \<Rightarrow> andthen (release_artifact_guard sp d n) (ret None)))"

definition release_reservation :: "spool \<Rightarrow> dir \<Rightarrow> string \<Rightarrow> nat option \<Rightarrow> unit io" where
  "release_reservation sp d n reservation =
     (case reservation of
        None \<Rightarrow> ret ()
      | Some fd \<Rightarrow>
          try_finally
            (bnd is_posix (\<lambda>posix.
             if \<not> posix
             then try_finally (close_locked_descriptor_with_retry fd) (unlink_name d n)
             else try_finally (unlink_name d n) (close_locked_descriptor_with_retry fd)))
            (release_artifact_guard sp d n))"

end
