(* ===== verification/Dead_Letters.thy ===== *)
theory Dead_Letters
  imports Spool_Base
begin

text \<open>
  Operation markers and the move of a record into the dead-letter directory
  (\<open>_persist_operation_marker\<close> to \<open>_move_to_dead_letter\<close> of \<open>spool.py\<close>). A
  dead-letter operation writes a marker naming its destination before it moves the record and
  rewrites it as committed after, so that an interrupted operation can be taken up again.
\<close>

section \<open>Running code with local variables\<close>

text \<open>
  Where \<open>finally\<close> clauses read local variables assigned in the body, the locals are a second
  component of the state: \<open>on_world\<close> lifts code of the world to it, \<open>with_locals\<close> runs
  a body that starts with given locals.
\<close>

definition on_world :: "('w, 'a) prog \<Rightarrow> ('w \<times> 'l, 'a) prog" where
  "on_world m s = (case s of (w, l) \<Rightarrow> (case m w of (r, w') \<Rightarrow> (r, (w', l))))"

definition with_locals :: "'l \<Rightarrow> ('w \<times> 'l, 'a) prog \<Rightarrow> ('w, 'a) prog" where
  "with_locals l m w = (case m (w, l) of (r, s) \<Rightarrow> (r, fst s))"

definition local_get :: "('l \<Rightarrow> 'a) \<Rightarrow> ('w \<times> 'l, 'a) prog" where
  "local_get f = gets (\<lambda>s. f (snd s))"

definition local_set :: "('l \<Rightarrow> 'l) \<Rightarrow> ('w \<times> 'l, unit) prog" where
  "local_set f = modify (\<lambda>s. (fst s, f (snd s)))"

lemma wp_on_world [wp_simps]:
  "wp (on_world m) Q E s \<longleftrightarrow> wp m (\<lambda>x w. Q x (w, snd s)) (\<lambda>e w. E e (w, snd s)) (fst s)"
  by (cases s) (simp add: wp_def on_world_def split: sum.split prod.split)

lemma wp_with_locals [wp_simps]:
  "wp (with_locals l m) Q E w \<longleftrightarrow> wp m (\<lambda>x s. Q x (fst s)) (\<lambda>e s. E e (fst s)) (w, l)"
  by (simp add: wp_def with_locals_def split: sum.split prod.split)

lemma wp_local_get [wp_simps]: "wp (local_get f) Q E s \<longleftrightarrow> Q (f (snd s)) s"
  by (simp add: local_get_def wp_simps)

lemma wp_local_set [wp_simps]: "wp (local_set f) Q E s \<longleftrightarrow> Q () (fst s, f (snd s))"
  by (simp add: local_set_def wp_simps)

section \<open>Operation markers\<close>

text \<open>\<open>with os.fdopen(fd) as handle: m\<close>.\<close>

definition with_handle :: "nat \<Rightarrow> 'a io \<Rightarrow> 'a io" where
  "with_handle fd m = try_finally m (os_close fd)"

definition marker_json :: "string \<Rightarrow> string \<Rightarrow> string \<Rightarrow> string \<Rightarrow> bool \<Rightarrow> json" where
  "marker_json source_name suffix destination_name digest committed =
     JObj [(''committed'', JBool committed), (''destination'', JStr destination_name),
           (''sha256'', JStr digest), (''source'', JStr source_name), (''suffix'', JStr suffix)]"

text \<open>The part of \<open>_persist_operation_marker\<close> that has the temporary file.\<close>

definition fill_operation_marker :: "string \<Rightarrow> string \<Rightarrow> bool \<Rightarrow> nat \<Rightarrow> string \<Rightarrow> unit io" where
  "fill_operation_marker marker_name encoded replace_existing fd temporary =
     andthen
       (on_error (fchmod_descriptor fd Dead temporary mode_600)
          (andthen (os_close fd) (unlink_name Dead temporary)))
       (on_error
          (andthen (with_handle fd (andthen (os_write fd encoded) (os_fsync fd))) (
           bnd (if replace_existing then ret False else name_exists Dead marker_name) (\<lambda>ex.
           if ex then throw (OSError EEXIST)
           else
             andthen (replace_name Dead temporary Dead marker_name)
               (fsync_directory Dead))))
          (unlink_name Dead temporary))"

definition persist_operation_marker ::
  "spool \<Rightarrow> string \<Rightarrow> string \<Rightarrow> string \<Rightarrow> string \<Rightarrow> string \<Rightarrow> bool \<Rightarrow> bool \<Rightarrow> unit io" where
  "persist_operation_marker sp marker_name source_name suffix destination_name source_digest
       committed replace_existing =
     bnd (acquire_artifact_guard sp Dead ''.deadmark-'' True) (\<lambda>held.
     if \<not> held then throw (OSError (Io EAGAIN))
     else
       try_finally
         (bnd (lift_result (json_dumps (depth_limit sp)
                 (marker_json source_name suffix destination_name source_digest committed))) (\<lambda>text.
          bnd (lift_result (utf8_encode text)) (\<lambda>encoded.
          bnd (os_mkstemp Dead ''.deadmark-'' ''.tmp'') (\<lambda>(fd, temporary).
          fill_operation_marker marker_name encoded replace_existing fd temporary))))
         (release_artifact_guard sp Dead ''.deadmark-''))"

definition decode_operation_marker :: "spool \<Rightarrow> string \<Rightarrow> dict io" where
  "decode_operation_marker sp marker_name =
     bnd (open_record Dead marker_name) (\<lambda>fd.
     bnd (with_handle fd
            (try_except
               (bnd (os_read_all fd) (\<lambda>bytes. lift_result (json_load_bytes (depth_limit sp) bytes)))
               (\<lambda>e. e = JSONDecodeError \<or> e = UnicodeDecodeError)
               (\<lambda>_. throw (ValueError ''invalid dead-letter operation marker'')))) (\<lambda>decoded.
     case decoded of
       JObj d \<Rightarrow> ret d
     | _ \<Rightarrow> throw (ValueError ''invalid dead-letter operation marker'')))"

fun json_bool :: "json option \<Rightarrow> bool option" where
  "json_bool (Some (JBool b)) = Some b"
| "json_bool _ = None"

text \<open>A record or dead-letter file name as the markers may carry it.\<close>

definition plain_json_name :: "string \<Rightarrow> bool" where
  "plain_json_name n \<longleftrightarrow> path_name n = n \<and> \<not> starts_with n ''.'' \<and> ends_with n ''.json''"

definition is_lower_hex :: "char \<Rightarrow> bool" where
  "is_lower_hex c \<longleftrightarrow> c \<in> set ''0123456789abcdef''"

definition read_operation_marker ::
  "spool \<Rightarrow> string \<Rightarrow> string \<Rightarrow> string \<Rightarrow> (string \<times> string \<times> bool) option io" where
  "read_operation_marker sp marker_name source_name suffix =
     bnd (name_exists Dead marker_name) (\<lambda>ex.
     if \<not> ex then ret None
     else
       bnd (decode_operation_marker sp marker_name) (\<lambda>d.
       if dict_get d ''source'' \<noteq> Some (JStr source_name) \<or> dict_get d ''suffix'' \<noteq> Some (JStr suffix)
       then throw (ValueError ''dead-letter operation marker does not match source'')
       else
         (case (json_str (dict_get d ''destination''), json_str (dict_get d ''sha256''),
                json_bool (dict_get d ''committed'')) of
            (Some destination, Some digest, Some committed) \<Rightarrow>
              if plain_json_name destination \<and> length digest = 64 \<and> list_all is_lower_hex digest
              then ret (Some (destination, digest, committed))
              else throw (ValueError ''invalid dead-letter operation destination'')
          | _ \<Rightarrow> throw (ValueError ''invalid dead-letter operation destination''))))"

definition validate_dead_letter_destination :: "spool \<Rightarrow> string \<Rightarrow> string \<Rightarrow> unit io" where
  "validate_dead_letter_destination sp destination expected =
     bnd (open_record Dead destination) (\<lambda>fd.
     try_finally
       (bnd (descriptor_digest sp fd) (\<lambda>digest.
        when_m (digest \<noteq> expected)
          (throw (ValueError ''dead-letter destination does not match operation''))))
       (os_close fd))"

definition destination_matches_digest :: "spool \<Rightarrow> string \<Rightarrow> string \<Rightarrow> bool io" where
  "destination_matches_digest sp destination expected =
     try_except (andthen (validate_dead_letter_destination sp destination expected) (ret True))
       (\<lambda>e. is_OSError e \<or> is_ValueError e) (\<lambda>_. ret False)"

section \<open>Reserving a destination\<close>

definition max_candidates :: nat where
  "max_candidates = 1000000"

definition reserve_dead_letter_destination ::
  "spool \<Rightarrow> string \<Rightarrow> string \<Rightarrow> (string \<times> string \<times> nat) io" where
  "reserve_dead_letter_destination sp source suffix =
     (let canonical = dead_letter_name (sha sp) source suffix in
      bnd (for_range max_candidates 0 (\<lambda>number.
             bnd (lift_result (numbered_name canonical number)) (\<lambda>destination_name.
             let reservation_name = dead_letter_reservation_name (sha sp) destination_name in
             bnd (acquire_reservation sp Dead reservation_name) (\<lambda>reservation.
             case reservation of
               None \<Rightarrow> ret None
             | Some fd \<Rightarrow>
                 bnd (name_exists Dead destination_name) (\<lambda>ex.
                 if ex then andthen (release_reservation sp Dead reservation_name (Some fd)) (ret None)
                 else ret (Some (destination_name, reservation_name, fd))))))) (\<lambda>r.
      case r of
        Some x \<Rightarrow> ret x
      | None \<Rightarrow> throw (OSError NoErrno)))"

section \<open>Moving a record\<close>

text \<open>
  The local variables the cleanup reads. \<open>mv_lock\<close> is \<open>None\<close> until
  \<open>destination_lock_name\<close> and \<open>destination_lock\<close> are first assigned: reading them
  before raises \<open>UnboundLocalError\<close>. \<open>mv_source\<close> is \<open>None\<close> for a descriptor of -1.
\<close>

record move_locals =
  mv_source :: "nat option"
  mv_source_locked :: bool
  mv_lock :: "(string \<times> nat option) option"
  mv_destination :: string
  mv_committed :: bool

type_synonym 'a mio = "(world \<times> move_locals, 'a) prog"

definition release_destination :: "spool \<Rightarrow> unit mio" where
  "release_destination sp =
     bnd (local_get mv_lock) (\<lambda>l.
     case l of
       None \<Rightarrow> throw UnboundLocalError
     | Some (n, fd) \<Rightarrow> on_world (release_reservation sp Dead n fd))"

definition set_destination_lock :: "string \<Rightarrow> nat option \<Rightarrow> unit mio" where
  "set_destination_lock n fd = local_set (\<lambda>l. l\<lparr>mv_lock := Some (n, fd)\<rparr>)"

text \<open>\<open>destination_lock = None\<close>, the name kept.\<close>

definition clear_destination_lock :: "unit mio" where
  "clear_destination_lock =
     local_set (\<lambda>l. l\<lparr>mv_lock := map_option (\<lambda>(n, _). (n, None)) (mv_lock l)\<rparr>)"

text \<open>
  Reserve a fresh destination and write its marker; the reservation is given up when the marker
  cannot be written.
\<close>

definition reserve_and_mark :: "spool \<Rightarrow> string \<Rightarrow> string \<Rightarrow> string \<Rightarrow> bool \<Rightarrow> unit mio" where
  "reserve_and_mark sp source suffix digest replace_existing =
     bnd (on_world (reserve_dead_letter_destination sp source suffix))
       (\<lambda>(destination, lock_name, fd).
     andthen (local_set (\<lambda>l. l\<lparr>mv_destination := destination\<rparr>)) (
     andthen (set_destination_lock lock_name (Some fd)) (
       on_error
         (on_world (persist_operation_marker sp (marker_name_of (sha sp) source suffix) source suffix
                      destination digest False replace_existing))
         (andthen (release_destination sp) clear_destination_lock))))"

definition commit_move :: "spool \<Rightarrow> string \<Rightarrow> string \<Rightarrow> string \<Rightarrow> string \<Rightarrow> string io" where
  "commit_move sp source suffix digest destination =
     andthen (fsync_directory Root) (
     andthen (fsync_directory Dead) (
     andthen (validate_dead_letter_destination sp destination digest) (
     andthen (persist_operation_marker sp (marker_name_of (sha sp) source suffix) source suffix
                destination digest True True)
       (ret destination))))"

definition source_matches :: "string \<Rightarrow> bool mio" where
  "source_matches source =
     bnd (local_get mv_source) (\<lambda>fd.
     case fd of
       None \<Rightarrow> on_world (syscall (throw (OSError EBADF)))
     | Some fd \<Rightarrow> on_world (open_name_matches Root source fd))"

text \<open>
  The \<open>while True\<close> loop. A turn ends the loop or goes round again after it has found its
  destination taken; the fuel is more than the turns there can be.
\<close>

fun move_loop :: "nat \<Rightarrow> spool \<Rightarrow> string \<Rightarrow> string \<Rightarrow> string \<Rightarrow> string mio" where
  "move_loop 0 sp source suffix digest = throw Hang"
| "move_loop (Suc k) sp source suffix digest =
     bnd (local_get mv_destination) (\<lambda>destination.
     bnd (on_world (name_exists Dead destination)) (\<lambda>ex.
     if ex then
       bnd (local_get mv_committed) (\<lambda>committed.
       bnd (if committed then on_world (destination_matches_digest sp destination digest)
            else ret False) (\<lambda>same.
       if same then ret destination
       else
         andthen (release_destination sp) (
         andthen (set_destination_lock [] None) (
         andthen (reserve_and_mark sp source suffix digest True) (
         andthen (local_set (\<lambda>l. l\<lparr>mv_committed := False\<rparr>))
           (move_loop k sp source suffix digest))))))
     else
       bnd (local_get mv_lock) (\<lambda>l0.
       andthen
         (when_m (map_option snd l0 = Some None)
            (let lock_name = dead_letter_reservation_name (sha sp) destination in
             andthen (set_destination_lock lock_name None) (
             bnd (on_world (acquire_reservation sp Dead lock_name)) (\<lambda>fd.
             set_destination_lock lock_name fd)))) (
       bnd (local_get mv_lock) (\<lambda>l1.
       if map_option snd l1 = Some None then
         bnd (on_world (name_exists Dead destination)) (\<lambda>ex2.
         if ex2 then move_loop k sp source suffix digest else throw (OSError (Io EAGAIN)))
       else
         bnd (source_matches source) (\<lambda>same.
         if \<not> same then throw (ValueError ''dead-letter source changed before commit'')
         else
           bnd (on_world is_posix) (\<lambda>posix.
           bnd (local_get mv_source) (\<lambda>fd.
           andthen
             (if posix then ret ()
              else (case fd of
                      None \<Rightarrow> on_world (syscall (throw (OSError EBADF)))
                    | Some fd \<Rightarrow> andthen (on_world (os_close fd)) (local_set (\<lambda>l. l\<lparr>mv_source := None\<rparr>)))) (
           try_else (on_world (publish_noreplace Root source Dead destination)) is_FileExistsError
             (\<lambda>_.
                andthen (release_destination sp) (
                andthen (set_destination_lock [] None) (
                andthen
                  (bnd (local_get mv_source) (\<lambda>fd.
                   when_m (fd = None)
                     (bnd (on_world (open_record Root source)) (\<lambda>fd.
                      local_set (\<lambda>l. l\<lparr>mv_source := Some fd\<rparr>)))))
                  (move_loop k sp source suffix digest))))
             (\<lambda>_. on_world (commit_move sp source suffix digest destination)))))))))))"

definition move_fuel :: nat where
  "move_fuel = 8"

definition close_source :: "unit mio" where
  "close_source =
     bnd (local_get id) (\<lambda>l.
     case mv_source l of
       None \<Rightarrow> ret ()
     | Some fd \<Rightarrow> on_world (close_descriptor fd (mv_source_locked l)))"

definition move_marked :: "spool \<Rightarrow> string \<Rightarrow> string \<Rightarrow> string \<Rightarrow> string mio" where
  "move_marked sp source suffix digest =
     bnd (on_world (read_operation_marker sp (marker_name_of (sha sp) source suffix) source suffix))
       (\<lambda>marker.
     andthen (set_destination_lock [] None) (
     andthen
       (case marker of
          None \<Rightarrow>
            andthen (local_set (\<lambda>l. l\<lparr>mv_committed := False\<rparr>))
              (reserve_and_mark sp source suffix digest False)
        | Some (destination, marker_digest, committed) \<Rightarrow>
            andthen (local_set (\<lambda>l. l\<lparr>mv_destination := destination, mv_committed := committed\<rparr>))
              (when_m (marker_digest \<noteq> digest)
                 (throw (ValueError ''dead-letter operation marker does not match source content''))))
       (move_loop move_fuel sp source suffix digest)))"

definition move_open :: "spool \<Rightarrow> string \<Rightarrow> string \<Rightarrow> nat \<Rightarrow> string mio" where
  "move_open sp source suffix fd =
     bnd (on_world is_posix) (\<lambda>posix.
     andthen
       (when_m posix
          (andthen (on_world (lock_descriptor fd)) (local_set (\<lambda>l. l\<lparr>mv_source_locked := True\<rparr>)))) (
     andthen (on_world (fchmod_descriptor fd Root source mode_600)) (
     bnd (on_world (descriptor_digest sp fd)) (\<lambda>digest.
     let lock_name = operation_lock_name (sha sp) source suffix in
     bnd (on_world (acquire_reservation sp Dead lock_name)) (\<lambda>operation_lock.
     case operation_lock of
       None \<Rightarrow> throw (OSError (Io EAGAIN))
     | Some op_fd \<Rightarrow>
         try_finally (move_marked sp source suffix digest)
           (andthen (release_destination sp)
              (on_world (release_reservation sp Dead lock_name (Some op_fd)))))))))"

text \<open>
  The whole move for a name that \<open>_pending_path\<close> has accepted; \<open>Spool\<close> puts that check in
  front of it.
\<close>

definition move_validated :: "spool \<Rightarrow> string \<Rightarrow> string \<Rightarrow> string io" where
  "move_validated sp source suffix =
     bnd (open_record Root source) (\<lambda>fd.
     with_locals
       \<lparr>mv_source = Some fd, mv_source_locked = False, mv_lock = None, mv_destination = [],
        mv_committed = False\<rparr>
       (try_finally (move_open sp source suffix fd) close_source))"

end
