(* ===== verification/Models.thy ===== *)
theory Models
  imports Json Dates
begin

text \<open>
  \<open>models.py\<close>: the values the components hand to one another, and the two texts every one of
  them writes the same way, \<open>StrEnum\<close> values and UTC times in ISO format.
\<close>

section \<open>Delivery\<close>

datatype delivery_kind = Success | Retriable | Authentication | Permanent

fun kind_value :: "delivery_kind \<Rightarrow> string" where
  "kind_value Success = ''success''"
| "kind_value Retriable = ''retriable''"
| "kind_value Authentication = ''authentication''"
| "kind_value Permanent = ''permanent''"

record cycle_result =
  cr_event_id :: string
  cr_delivered :: bool
  cr_spooled :: bool
  cr_kind :: "delivery_kind option"

record delivery_result =
  dr_kind :: delivery_kind
  dr_status :: "int option"
  dr_attempts :: nat
  dr_message :: string

section \<open>Collection\<close>

datatype collector_status = CSuccess | CPartial | CDisabled | CTimedOut | CFailed

fun status_value :: "collector_status \<Rightarrow> string" where
  "status_value CSuccess = ''success''"
| "status_value CPartial = ''partial''"
| "status_value CDisabled = ''disabled''"
| "status_value CTimedOut = ''timed_out''"
| "status_value CFailed = ''failed''"

record collector_payload =
  cp_data :: json
  cp_status :: collector_status
  cp_error_code :: "string option"
  cp_error_message :: "string option"

record collector_result =
  res_name :: string
  res_status :: collector_status
  res_duration_ms :: int
  res_data :: json
  res_error_code :: "string option"
  res_error_message :: "string option"

record batch =
  batch_results :: "collector_result list"
  batch_duration_ms :: int

text \<open>\<open>CollectorPayload(data=...)\<close> with the defaults, and with a partial status.\<close>

definition plain_payload :: "json \<Rightarrow> collector_payload" where
  "plain_payload d = \<lparr>cp_data = d, cp_status = CSuccess, cp_error_code = None, cp_error_message = None\<rparr>"

definition disabled_payload :: "json \<Rightarrow> collector_payload" where
  "disabled_payload d = \<lparr>cp_data = d, cp_status = CDisabled, cp_error_code = None, cp_error_message = None\<rparr>"

definition partial_payload :: "json \<Rightarrow> string \<Rightarrow> string \<Rightarrow> collector_payload" where
  "partial_payload d c m = \<lparr>cp_data = d, cp_status = CPartial, cp_error_code = Some c, cp_error_message = Some m\<rparr>"

definition opt_str :: "string option \<Rightarrow> json" where
  "opt_str v = (case v of None \<Rightarrow> JNull | Some s \<Rightarrow> JStr s)"

definition opt_int :: "int option \<Rightarrow> json" where
  "opt_int v = (case v of None \<Rightarrow> JNull | Some i \<Rightarrow> JInt i)"

record identity =
  id_value :: string
  id_source :: string

section \<open>Times\<close>

text \<open>The optional \<open>now\<close> argument: absent, without a time zone, or an instant.\<close>

datatype now = NowNone | Naive | Aware int

text \<open>\<open>isoformat()\<close> of an aware UTC time: the microseconds only if there are any.\<close>

definition iso_date :: "date \<Rightarrow> string" where
  "iso_date t =
     fixed_dec 4 (d_year t) @ ''-'' @ fixed_dec 2 (d_month t) @ ''-'' @ fixed_dec 2 (d_day t) @ ''T'' @
     fixed_dec 2 (d_hour t) @ '':'' @ fixed_dec 2 (d_minute t) @ '':'' @ fixed_dec 2 (d_second t) @
     (if d_micro t = 0 then [] else ''.'' @ fixed_dec 6 (d_micro t)) @ ''+00:00''"

definition iso_utc :: "int \<Rightarrow> string" where
  "iso_utc us = iso_date (to_date us)"

text \<open>
  \<open>datetime.fromtimestamp(x, tz=UTC).isoformat()\<close> of a whole number of microseconds since 1970;
  outside the years 1 to 9999 it raises.
\<close>

definition epoch_us :: int where
  "epoch_us = 62135596800000000"

definition iso_from_epoch :: "int \<Rightarrow> string option" where
  "iso_from_epoch us = (if valid_instant (epoch_us + us) then Some (iso_utc (epoch_us + us)) else None)"

subsection \<open>An ISO time can be read back\<close>

definition read_iso :: "string \<Rightarrow> date" where
  "read_iso s =
     (let num = (\<lambda>k n. undec 0 (take n (drop k s)))
      in \<lparr>d_year = num 0 4, d_month = num 5 2, d_day = num 8 2, d_hour = num 11 2, d_minute = num 14 2,
          d_second = num 17 2, d_micro = (if length s = 32 then num 20 6 else 0)\<rparr>)"

lemma undec_fixed: "n < 10 ^ k \<Longrightarrow> undec 0 (fixed_dec k n) = n"
  using undec_fixed_dec [of n k 0] by simp

lemma take_fixed: "take k (fixed_dec k n @ s) = fixed_dec k n" "drop k (fixed_dec k n @ s) = s"
  by simp_all

lemma read_iso_date:
  assumes "valid_date t"
  shows "read_iso (iso_date t) = t"
proof -
  have day: "d_day t < 100"
    using assms days_in_month_le [of "d_month t" "d_year t"] by (auto simp: valid_date_def)
  have small: "d_year t < 10 ^ 4" "d_month t < 10 ^ 2" "d_day t < 10 ^ 2" "d_hour t < 10 ^ 2"
    "d_minute t < 10 ^ 2" "d_second t < 10 ^ 2" "d_micro t < 10 ^ 6"
    using assms day by (auto simp: valid_date_def)
  note fields = small [THEN undec_fixed]
  show ?thesis
    unfolding read_iso_def iso_date_def Let_def
    using fields by (simp add: drop_append take_append)
qed

lemma iso_utc_inj:
  assumes "valid_instant a" and "valid_instant b" and "iso_utc a = iso_utc b"
  shows "a = b"
proof -
  have "to_date a = to_date b"
    using assms read_iso_date valid_to_date unfolding iso_utc_def by metis
  then show ?thesis using assms(1,2) of_date_to_date by (metis valid_instant_def)
qed

end
