(* ===== verification/Spool.thy ===== *)
theory Spool
  imports Dead_Letters Models
begin

text \<open>
  Recovery after a crash and the public operations of \<open>spool.py\<close>: \<open>enqueue\<close>,
  \<open>pending\<close>, \<open>load\<close>, \<open>ack\<close>, \<open>reject\<close>, \<open>enforce_retention\<close>,
  \<open>stats\<close>. One process uses the spool object and its operations exclude one another (the
  source holds an \<open>RLock\<close> around each); other processes show up as the locks they hold.
\<close>

section \<open>Preparation and recovery\<close>

definition ensure_directories :: "unit io" where
  "ensure_directories =
     for_each [Root, Dead] (\<lambda>d.
       andthen (os_mkdir d) (
       bnd (os_lstat_dir d) (\<lambda>k.
       case k of
         RealDir _ \<Rightarrow> os_chmod_dir d mode_700
       | _ \<Rightarrow> throw (ValueError ''spool directory must be a real directory''))))"

definition is_json_name :: "string \<Rightarrow> bool" where
  "is_json_name n \<longleftrightarrow> ends_with n ''.json''"

definition is_marker_name :: "string \<Rightarrow> bool" where
  "is_marker_name n \<longleftrightarrow> starts_with n ''.deadop-'' \<and> ends_with n ''.json'' \<and> 13 \<le> length n"

definition same_pair :: "stat \<Rightarrow> stat \<Rightarrow> bool" where
  "same_pair a b \<longleftrightarrow>
     st_kind a = Regular \<and> st_kind b = Regular \<and> st_nlink a = 2 \<and> st_nlink b = 2 \<and> st_ino a = st_ino b"

text \<open>
  A staged file with two links is a publication that was interrupted between \<open>link\<close> and
  \<open>unlink\<close>: the staged name is removed if exactly one record is the other link.
\<close>

definition pending_link_matches :: "stat \<Rightarrow> string list io" where
  "pending_link_matches hidden =
     bnd (path_glob Root is_json_name) (\<lambda>candidates.
     filter_m
       (\<lambda>c. bnd (stat_or_none Root c) (\<lambda>st.
            case st of None \<Rightarrow> ret False | Some st \<Rightarrow> ret (same_pair st hidden)))
       candidates)"

definition recover_pending_link :: "string \<Rightarrow> nat \<Rightarrow> unit io" where
  "recover_pending_link hidden fd =
     bnd (os_fstat fd) (\<lambda>st.
     if st_kind st \<noteq> Regular \<or> st_nlink st \<noteq> 2 then ret ()
     else
       bnd (pending_link_matches st) (\<lambda>found.
       if length found \<noteq> 1 then ret ()
       else
         bnd (unlink_open_name Root hidden fd) (\<lambda>removed.
         when_m removed (fsync_directory Root))))"

definition recover_pending_links :: "spool \<Rightarrow> unit io" where
  "recover_pending_links sp =
     bnd (path_glob Root (\<lambda>n. starts_with n ''.spool-'')) (\<lambda>names.
     for_each names (\<lambda>hidden.
       bnd (acquire_artifact_guard sp Root hidden False) (\<lambda>held.
       when_m held
         (try_finally
            (try_else (open_name Root hidden False False False) is_OSError (\<lambda>_. ret ()) (\<lambda>fd.
               bnd (on_error (try_lock_descriptor fd) (os_close fd)) (\<lambda>locked.
               if \<not> locked then os_close fd
               else try_finally (recover_pending_link hidden fd)
                      (close_locked_descriptor_with_retry fd))))
            (release_artifact_guard sp Root hidden)))))"

text \<open>
  The same for a dead-letter move: the source is removed if the marker's destination is its other
  link and its content is the one the marker names.
\<close>

definition parse_recovery_marker :: "spool \<Rightarrow> string \<Rightarrow> dict \<Rightarrow> (string \<times> string \<times> string) option" where
  "parse_recovery_marker sp marker d =
     (case (json_str (dict_get d ''source''), json_str (dict_get d ''suffix''),
            json_str (dict_get d ''destination''), json_str (dict_get d ''sha256''),
            json_bool (dict_get d ''committed'')) of
        (Some source, Some suffix, Some destination, Some digest, Some _) \<Rightarrow>
          if plain_json_name source \<and> marker = marker_name_of (sha sp) source suffix \<and>
             plain_json_name destination \<and> length digest = 64
          then Some (source, destination, digest) else None
      | _ \<Rightarrow> None)"

definition recover_dead_letter_link :: "spool \<Rightarrow> string \<Rightarrow> string \<Rightarrow> string \<Rightarrow> nat \<Rightarrow> unit io" where
  "recover_dead_letter_link sp source destination expected fd =
     bnd (os_fstat fd) (\<lambda>source_stat.
     bnd (stat_or_none Dead destination) (\<lambda>st.
     case st of
       None \<Rightarrow> ret ()
     | Some destination_stat \<Rightarrow>
         if \<not> same_pair source_stat destination_stat then ret ()
         else
           bnd (descriptor_digest sp fd) (\<lambda>digest.
           if digest \<noteq> expected
           then throw (ValueError ''dead-letter recovery source does not match marker'')
           else
             bnd (unlink_open_name Root source fd) (\<lambda>removed.
             when_m removed (andthen (fsync_directory Root) (fsync_directory Dead))))))"

definition recover_dead_letter_links :: "spool \<Rightarrow> unit io" where
  "recover_dead_letter_links sp =
     bnd (path_glob Dead is_marker_name) (\<lambda>markers.
     for_each markers (\<lambda>marker.
       let lock_name = path_stem marker @ ''.lock'' in
       bnd (acquire_artifact_guard sp Dead lock_name False) (\<lambda>held.
       when_m held
         (try_finally
            (bnd (decode_operation_marker sp marker) (\<lambda>d.
             case parse_recovery_marker sp marker d of
               None \<Rightarrow> throw (ValueError ''invalid dead-letter operation marker'')
             | Some (source, destination, expected) \<Rightarrow>
                 try_else (open_name Root source False False False) is_FileNotFoundError
                   (\<lambda>_. ret ()) (\<lambda>fd.
                   bnd (on_error (try_lock_descriptor fd) (os_close fd)) (\<lambda>locked.
                   if \<not> locked then os_close fd
                   else try_finally (recover_dead_letter_link sp source destination expected fd)
                          (close_locked_descriptor_with_retry fd)))))
            (release_artifact_guard sp Dead lock_name)))))"

definition artifact_prefixes :: "dir \<Rightarrow> string list" where
  "artifact_prefixes d =
     (case d of
        Root \<Rightarrow> [''.spool-'', ''.publish-'']
      | Dead \<Rightarrow> [''.deadmark-'', ''.deadop-'', ''.deadres-''])"

definition is_stale_candidate :: "dir \<Rightarrow> string \<Rightarrow> bool" where
  "is_stale_candidate d n \<longleftrightarrow>
     list_ex (starts_with n) (artifact_prefixes d) \<and>
     \<not> (starts_with n ''.deadop-'' \<and> ends_with n ''.json'')"

definition cleanup_hidden_artifacts :: "spool \<Rightarrow> unit io" where
  "cleanup_hidden_artifacts sp =
     for_each [Root, Dead] (\<lambda>d.
       bnd (os_listdir d) (\<lambda>names.
       for_each names (\<lambda>n.
         when_m (is_stale_candidate d n)
           (andthen (cleanup_stale_hidden_file sp d n) (ret ())))))"

definition prepare :: "spool \<Rightarrow> unit io" where
  "prepare sp =
     andthen ensure_directories (
     andthen (recover_dead_letter_links sp) (
     andthen (recover_pending_links sp)
       (cleanup_hidden_artifacts sp)))"

section \<open>Time\<close>

definition timestamp :: "now \<Rightarrow> int io" where
  "timestamp n =
     (case n of
        NowNone \<Rightarrow> gets clock
      | Naive \<Rightarrow> throw (ValueError ''now must be timezone-aware'')
      | Aware us \<Rightarrow> ret us)"

text \<open>\<open>timestamp - timedelta(seconds=max_age_sec)\<close>.\<close>

definition retention_cutoff :: "spool \<Rightarrow> int \<Rightarrow> int io" where
  "retention_cutoff sp us =
     (let c = us - max_age_sec sp * 1000000 in if c < 0 then throw OverflowError else ret c)"

section \<open>Records\<close>

definition is_regular_file :: "dir \<Rightarrow> string \<Rightarrow> bool io" where
  "is_regular_file d n =
     try_else (os_lstat d n) is_OSError (\<lambda>_. ret False)
       (\<lambda>st. ret (st_kind st = Regular \<and> st_nlink st = 1))"

definition validated_record_stat :: "string \<Rightarrow> stat io" where
  "validated_record_stat n =
     bnd (try_except (os_lstat Root n) is_FileNotFoundError
            (\<lambda>_. throw (ValueError ''not a pending spool record''))) (\<lambda>st.
     if st_kind st \<noteq> Regular \<or> st_nlink st \<noteq> 1
     then throw (ValueError ''not a pending spool record'') else ret st)"

definition record_time :: "string \<Rightarrow> int io" where
  "record_time n =
     (case name_time n of
        Some t \<Rightarrow> ret t
      | None \<Rightarrow> bnd (validated_record_stat n) (\<lambda>st. ret (st_mtime st)))"

definition sort_records :: "(int \<times> string) list \<Rightarrow> string list" where
  "sort_records ks = map snd (sort_key id ks)"

definition pending_paths :: "string list io" where
  "pending_paths =
     bnd (path_glob Root is_json_name) (\<lambda>names.
     bnd (filter_m (is_regular_file Root) names) (\<lambda>records.
     bnd (map_m (\<lambda>n. bnd (record_time n) (\<lambda>t. ret (t, n))) records) (\<lambda>keyed.
     ret (sort_records keyed))))"

text \<open>
  A path given to \<open>load\<close>, \<open>ack\<close> or \<open>reject\<close>: a name directly in one of the two
  directories, or any other path.
\<close>

datatype path = At dir string | Outside string

definition pending_path :: "path \<Rightarrow> string io" where
  "pending_path p =
     (case p of
        At Root n \<Rightarrow>
          if path_suffix n \<noteq> ''.json'' then throw (ValueError ''not a pending spool record'')
          else
            bnd (path_exists Root n) (\<lambda>ex.
            andthen (when_m ex (andthen (validated_record_stat n) (ret ()))) (ret n))
      | _ \<Rightarrow> throw (ValueError ''not a pending spool record''))"

definition read_record :: "spool \<Rightarrow> string \<Rightarrow> json io" where
  "read_record sp n =
     bnd (open_record Root n) (\<lambda>fd.
     with_handle fd
       (bnd (os_read_all fd) (\<lambda>bytes. lift_result (json_load_bytes (depth_limit sp) bytes))))"

definition move_to_dead_letter :: "spool \<Rightarrow> path \<Rightarrow> string \<Rightarrow> string io" where
  "move_to_dead_letter sp p suffix =
     bnd (pending_path p) (\<lambda>source. move_validated sp source suffix)"

definition existing_rejection :: "spool \<Rightarrow> string \<Rightarrow> string io" where
  "existing_rejection sp source =
     bnd (read_operation_marker sp (marker_name_of (sha sp) source ''.rejected'') source ''.rejected'')
       (\<lambda>marker.
     case marker of
       Some (destination, expected, _) \<Rightarrow>
         bnd (name_exists Dead destination) (\<lambda>ex.
         andthen (when_m ex (validate_dead_letter_destination sp destination expected))
           (ret destination))
     | None \<Rightarrow> ret (dead_letter_name (sha sp) source ''.rejected''))"

section \<open>Staging and publishing\<close>

text \<open>\<open>fill_staged\<close> is the body of the inner \<open>try\<close> of \<open>_write_staged\<close>.\<close>

definition fill_staged :: "string \<Rightarrow> nat \<Rightarrow> string \<Rightarrow> (string \<times> nat) io" where
  "fill_staged temporary fd encoded =
     andthen (lock_descriptor fd) (
     andthen (fchmod_descriptor fd Root temporary mode_600) (
     andthen
       (bnd (os_dup fd) (\<lambda>copy.
        with_handle copy (andthen (os_write copy encoded) (os_fsync copy))))
       (ret (temporary, fd))))"

definition write_staged :: "spool \<Rightarrow> string \<Rightarrow> (string \<times> nat) io" where
  "write_staged sp encoded =
     bnd (acquire_artifact_guard sp Root ''.spool-'' True) (\<lambda>held.
     if \<not> held then throw (OSError (Io EAGAIN))
     else
       bnd (on_error (os_mkstemp Root ''.spool-'' ''.tmp'') (release_artifact_guard sp Root ''.spool-''))
         (\<lambda>(fd, temporary).
       on_error (fill_staged temporary fd encoded)
         (suppress any_exn
            (try_finally (close_locked_descriptor_with_retry fd)
               (try_finally (unlink_if_exists Root temporary)
                  (release_artifact_guard sp Root ''.spool-''))))))"

text \<open>
  One turn of the loop of \<open>_publish_staged\<close>, the part after the reservation first:
  \<open>None\<close> goes on to the next number.
\<close>

definition publish_reserved :: "spool \<Rightarrow> string \<Rightarrow> string \<Rightarrow> string \<Rightarrow> nat \<Rightarrow> string option io" where
  "publish_reserved sp temporary destination reservation_name fd =
     try_else
       (andthen (publish_noreplace Root temporary Root destination) (fsync_directory Root))
       any_exn
       (\<lambda>e. if is_FileExistsError e
            then andthen (release_reservation sp Root reservation_name (Some fd)) (ret None)
            else
              andthen
                (try_finally
                   (suppress any_exn (close_locked_descriptor_with_retry fd))
                   (suppress any_exn (release_artifact_guard sp Root reservation_name)))
                (throw e))
       (\<lambda>_. andthen (release_reservation sp Root reservation_name (Some fd))
              (ret (Some destination)))"

definition publish_attempt :: "spool \<Rightarrow> string \<Rightarrow> string \<Rightarrow> nat \<Rightarrow> string option io" where
  "publish_attempt sp temporary name number =
     bnd (lift_result (numbered_name name number)) (\<lambda>destination.
     let reservation_name = publish_reservation_name (sha sp) destination in
     bnd (acquire_reservation sp Root reservation_name) (\<lambda>reservation.
     case reservation of
       None \<Rightarrow> ret None
     | Some fd \<Rightarrow> publish_reserved sp temporary destination reservation_name fd))"

definition publish_staged :: "spool \<Rightarrow> string \<Rightarrow> string \<Rightarrow> string io" where
  "publish_staged sp temporary name =
     bnd (for_range max_candidates 0 (publish_attempt sp temporary name)) (\<lambda>r.
     case r of Some destination \<Rightarrow> ret destination | None \<Rightarrow> throw (OSError NoErrno))"

text \<open>The cleanup of \<open>enqueue\<close> after staging succeeded and publishing did not.\<close>

definition discard_staged :: "spool \<Rightarrow> string \<Rightarrow> nat option \<Rightarrow> unit io" where
  "discard_staged sp temporary descriptor =
     try_finally
       (suppress any_exn
          (try_finally
             (case descriptor of None \<Rightarrow> ret () | Some fd \<Rightarrow> close_locked_descriptor_with_retry fd)
             (unlink_name Root temporary)))
       (suppress any_exn (release_artifact_guard sp Root ''.spool-''))"

section \<open>Public operations\<close>

text \<open>\<open>enforce_retention\<close>; \<open>evict_records\<close> is what follows the choice of the cutoff.\<close>

definition evict_expired :: "int \<Rightarrow> string list \<Rightarrow> (nat \<times> nat) io" where
  "evict_expired cutoff records =
     for_acc records (0, 0) (\<lambda>record (count, bytes).
       bnd (record_time record) (\<lambda>t.
       if t < cutoff then
         bnd (validated_record_stat record) (\<lambda>st.
         andthen (unlink_name Root record) (ret (count + 1, bytes + st_size st)))
       else ret (count, bytes)))"

definition total_size :: "string list \<Rightarrow> nat io" where
  "total_size records =
     for_acc records 0 (\<lambda>record total.
       bnd (validated_record_stat record) (\<lambda>st. ret (total + st_size st)))"

definition evict_oldest :: "spool \<Rightarrow> string list \<Rightarrow> nat \<times> nat \<times> nat \<Rightarrow> (nat \<times> nat \<times> nat) io" where
  "evict_oldest sp records acc =
     for_acc records acc (\<lambda>record (total, count, bytes).
       if int total \<le> max_bytes sp then ret (total, count, bytes)
       else
         bnd (validated_record_stat record) (\<lambda>st.
         andthen (unlink_name Root record)
           (ret (total - st_size st, count + 1, bytes + st_size st))))"

definition evict_records :: "spool \<Rightarrow> int \<Rightarrow> (nat \<times> nat) io" where
  "evict_records sp cutoff =
     bnd pending_paths (\<lambda>first.
     bnd (evict_expired cutoff first) (\<lambda>(count1, bytes1).
     bnd pending_paths (\<lambda>records.
     bnd (total_size records) (\<lambda>pending_bytes.
     bnd (evict_oldest sp records (pending_bytes, count1, bytes1)) (\<lambda>(_, count2, bytes2).
     andthen (when_m (0 < count2) (fsync_directory Root))
       (ret (count2, bytes2)))))))"

definition enforce_retention :: "spool \<Rightarrow> now \<Rightarrow> (nat \<times> nat) io" where
  "enforce_retention sp n =
     andthen (prepare sp) (
     bnd (timestamp n) (\<lambda>us.
     bnd (retention_cutoff sp us) (evict_records sp)))"

text \<open>\<open>enqueue\<close>; \<open>publish_record\<close> is what follows the staging.\<close>

definition publish_record :: "spool \<Rightarrow> string \<Rightarrow> string \<Rightarrow> nat \<Rightarrow> string io" where
  "publish_record sp name temporary fd =
     bnd is_posix (\<lambda>posix.
     bnd (if posix then ret (Some fd)
          else on_error (andthen (close_locked_descriptor fd) (ret None))
                 (discard_staged sp temporary (Some fd))) (\<lambda>descriptor.
     bnd (on_error (publish_staged sp temporary name) (discard_staged sp temporary descriptor))
       (\<lambda>destination.
     andthen
       (try_finally
          (case descriptor of None \<Rightarrow> ret () | Some fd \<Rightarrow> close_locked_descriptor_with_retry fd)
          (release_artifact_guard sp Root ''.spool-''))
       (ret destination))))"

definition enqueue :: "spool \<Rightarrow> json \<Rightarrow> now \<Rightarrow> string io" where
  "enqueue sp payload n =
     bnd (timestamp n) (\<lambda>us.
     bnd (lift_result (record_name payload us)) (\<lambda>name.
     bnd (lift_result (serialize (depth_limit sp) payload)) (\<lambda>encoded.
     andthen (prepare sp) (
     bnd (write_staged sp encoded) (\<lambda>(temporary, fd).
     bnd (publish_record sp name temporary fd) (\<lambda>destination.
     andthen (enforce_retention sp (Aware us))
       (ret destination)))))))"

definition pending :: "spool \<Rightarrow> string list io" where
  "pending sp = andthen (prepare sp) pending_paths"

definition load :: "spool \<Rightarrow> path \<Rightarrow> json option io" where
  "load sp p =
     andthen (prepare sp) (
     bnd (pending_path p) (\<lambda>candidate.
     bnd (path_exists Root candidate) (\<lambda>ex.
     if \<not> ex then ret None
     else
       try_else (read_record sp candidate)
         (\<lambda>e. is_OSError e \<or> e = JSONDecodeError \<or> e = UnicodeDecodeError)
         (\<lambda>_. andthen (move_to_dead_letter sp (At Root candidate) []) (ret None))
         (\<lambda>decoded.
            if \<not> valid_payload decoded
            then andthen (move_to_dead_letter sp (At Root candidate) []) (ret None)
            else ret (Some decoded)))))"

definition ack :: "spool \<Rightarrow> path \<Rightarrow> unit io" where
  "ack sp p =
     andthen (prepare sp) (
     bnd (pending_path p) (\<lambda>candidate.
     bnd (path_exists Root candidate) (\<lambda>ex.
     when_m ex
       (andthen (validated_record_stat candidate) (
        andthen (unlink_name Root candidate)
          (fsync_directory Root))))))"

definition reject :: "spool \<Rightarrow> path \<Rightarrow> string io" where
  "reject sp p =
     andthen (prepare sp) (
     bnd (pending_path p) (\<lambda>candidate.
     bnd (path_exists Root candidate) (\<lambda>ex.
     if \<not> ex then existing_rejection sp candidate
     else move_to_dead_letter sp (At Root candidate) ''.rejected'')))"

definition stats :: "spool \<Rightarrow> (nat \<times> nat \<times> nat) io" where
  "stats sp =
     andthen (prepare sp) (
     bnd pending_paths (\<lambda>records.
     bnd (path_glob Dead is_json_name) (\<lambda>names.
     bnd (filter_m (\<lambda>n. if starts_with n ''.'' then ret False else is_regular_file Dead n) names)
       (\<lambda>dead.
     bnd (total_size records) (\<lambda>bytes.
     ret (length records, bytes, length dead))))))"

text \<open>The constructor: limits checked, then one preparation.\<close>

definition new_spool :: "int \<Rightarrow> int \<Rightarrow> (string \<Rightarrow> string) \<Rightarrow> nat \<Rightarrow> spool io" where
  "new_spool maximum age sha256 dep =
     (if maximum \<le> 0 then throw (ValueError ''max_bytes must be positive'')
      else if age \<le> 0 then throw (ValueError ''max_age_sec must be positive'')
      else
        (let sp = \<lparr>max_bytes = maximum, max_age_sec = age, sha = sha256, depth_limit = dep\<rparr>
         in andthen (prepare sp) (ret sp)))"

end
