(* ===== verification/Frames.thy ===== *)
theory Frames
  imports Spool
begin

text \<open>
  How properties of the files survive the operations of the spool, whatever system calls fail and
  wherever the process dies.

  The theory is a tower of locales over a property \<open>I\<close> of the world. Each level assumes what
  a kind of elementary step does to \<open>I\<close> and gives \<open>keeps I\<close> for the operations made of
  such steps: \<open>descriptor_invariant\<close> (nothing but reading), \<open>file_invariant\<close> (names and
  contents alone), \<open>name_invariant\<close> (creating, removing and replacing the names in
  \<open>free\<close>; writing to empty files), \<open>move_invariant\<close> (moving a record to the
  dead-letter directory), \<open>record_invariant\<close> (removing records). The interpretations are in
  the theories that follow.
\<close>

section \<open>Steps that leave the files alone\<close>

lemma keeps_platform [keeps_intros]:
  "keeps I a \<Longrightarrow> keeps I b \<Longrightarrow> keeps I c \<Longrightarrow>
    keeps I (case p of Posix \<Rightarrow> a | Nt \<Rightarrow> b | OtherOS \<Rightarrow> c)"
  by (cases p) simp_all

definition same_files :: "world \<Rightarrow> world \<Rightarrow> bool" where
  "same_files w w' \<longleftrightarrow>
     ents w' = ents w \<and> next_ino w' = next_ino w \<and> (faults w = [] \<longrightarrow> faults w' = []) \<and>
     (\<forall>i. i_data (inodes w' i) = i_data (inodes w i) \<and> i_kind (inodes w' i) = i_kind (inodes w i) \<and>
          (i_synced (inodes w i) \<longrightarrow> i_synced (inodes w' i)))"

lemma same_files_refl [simp]: "same_files w w"
  by (simp add: same_files_def)

lemma same_files_trans [trans]: "same_files u v \<Longrightarrow> same_files v w \<Longrightarrow> same_files u w"
  by (simp add: same_files_def)

text \<open>Code that leaves names and contents alone.\<close>

definition quiet :: "'a io \<Rightarrow> bool" where
  "quiet m \<longleftrightarrow> (\<forall>w. same_files w (snd (m w)))"

lemma quiet_keeps: "quiet m \<longleftrightarrow> (\<forall>u. keeps (same_files u) m)"
  unfolding quiet_def keeps_def by (meson same_files_refl same_files_trans)

lemma same_files_fields [simp]:
  "same_files u (w\<lparr>fds := b\<rparr>) = same_files u w"
  "same_files u (w\<lparr>next_fd := k\<rparr>) = same_files u w"
  "same_files u (w\<lparr>flocks := c\<rparr>) = same_files u w"
  "same_files u (w\<lparr>guards := g\<rparr>) = same_files u w"
  "same_files u (w\<lparr>dnodes := x\<rparr>) = same_files u w"
  "same_files u (w\<lparr>dsynced := y\<rparr>) = same_files u w"
  "same_files u (w\<lparr>tokens := t\<rparr>) = same_files u w"
  "same_files u (w\<lparr>clock := t'\<rparr>) = same_files u w"
  "same_files u (add_fd i wr w) = same_files u w"
  "same_files u (set_lock i h w) = same_files u w"
  by (simp_all add: same_files_def add_fd_def set_lock_def)

lemma faults_write_bytes: "faults (write_bytes i bs w) = faults w"
  by (simp add: write_bytes_def set_inode_def)

lemma same_files_faults: "same_files u w \<Longrightarrow> faults w \<noteq> [] \<Longrightarrow> same_files u (w\<lparr>faults := fs\<rparr>)"
  by (auto simp: same_files_def)

lemma same_files_inode:
  "i_data x = i_data (inodes w i) \<Longrightarrow> i_kind x = i_kind (inodes w i) \<Longrightarrow>
   (i_synced (inodes w i) \<longrightarrow> i_synced x) \<Longrightarrow> same_files u w \<Longrightarrow> same_files u (set_inode i x w)"
  by (simp add: same_files_def set_inode_def)

lemma same_files_link [simp]:
  "same_files u (add_link i w) = same_files u w" "same_files u (drop_link i w) = same_files u w"
  by (auto simp: same_files_def add_link_def drop_link_def set_inode_def)

lemma syscall_snd:
  "snd (syscall m w) = snd (m w) \<or> (\<exists>fs. faults w \<noteq> [] \<and> snd (syscall m w) = w\<lparr>faults := fs\<rparr>) \<or>
   (\<exists>fs. faults w \<noteq> [] \<and> snd (syscall m w) = snd (m (w\<lparr>faults := fs\<rparr>)))"
  unfolding syscall_def by (auto split: list.split fault.split)

lemma keeps_syscall:
  "keeps I m \<Longrightarrow> (\<And>w fs. I w \<Longrightarrow> faults w \<noteq> [] \<Longrightarrow> I (w\<lparr>faults := fs\<rparr>)) \<Longrightarrow> keeps I (syscall m)"
  unfolding keeps_def by (metis syscall_snd)

lemma wp_syscall:
  assumes "\<And>fs. faults w \<noteq> [] \<Longrightarrow> wp m Q E (w\<lparr>faults := fs\<rparr>)" and "wp m Q E w"
    and "\<And>e fs. faults w \<noteq> [] \<Longrightarrow> E e (w\<lparr>faults := fs\<rparr>)"
  shows "wp (syscall m) Q E w"
  using assms by (auto simp: wp_def syscall_def split: list.split fault.split)

lemma wp_syscall_from:
  assumes "P w" and "\<And>u. P u \<Longrightarrow> wp m Q E u" and "\<And>u fs. P u \<Longrightarrow> faults u \<noteq> [] \<Longrightarrow> P (u\<lparr>faults := fs\<rparr>)"
    and "\<And>e u. P u \<Longrightarrow> E e u"
  shows "wp (syscall m) Q E w"
  by (intro wp_syscall assms)

lemma same_files_inodes:
  assumes "same_files w w'"
  shows "next_ino w' = next_ino w" "i_data (inodes w' i) = i_data (inodes w i)"
    "i_kind (inodes w' i) = i_kind (inodes w i)" "i_synced (inodes w i) \<Longrightarrow> i_synced (inodes w' i)"
    "lookup d n w' = lookup d n w"
  using assms by (auto simp: same_files_def lookup_def)

lemma quiet_syscall: "quiet m \<Longrightarrow> quiet (syscall m)"
  by (simp add: quiet_keeps keeps_syscall same_files_faults)

lemma quietI: "(\<And>u w. same_files u w \<Longrightarrow> same_files u (snd (m w))) \<Longrightarrow> quiet m"
  by (simp add: quiet_def)

lemma quiet_ret [simp]: "quiet (ret x)" by (simp add: quiet_def ret_def)
lemma quiet_throw [simp]: "quiet (throw x)" by (simp add: quiet_def throw_def)
lemma quiet_gets [simp]: "quiet (gets x)" by (simp add: quiet_def gets_def)

lemmas os_quiet_defs =
  os_mkdir_def os_lstat_dir_def os_chmod_dir_def os_open_dir_def os_close_dir_def os_fsync_dir_def
  os_listdir_def os_lstat_def os_chmod_def os_fstat_def os_close_def os_dup_def os_lseek_def
  os_fsync_def os_fchmod_def os_read_def os_read_all_def flock_ex_def flock_nb_def flock_un_def
  msvcrt_lock_def msvcrt_nblock_def msvcrt_unlock_def

lemma quiet_os:
  "quiet (os_mkdir d)" "quiet (os_lstat_dir d)" "quiet (os_chmod_dir d m)" "quiet (os_open_dir d)"
  "quiet (os_close_dir d)" "quiet (os_fsync_dir d)" "quiet (os_listdir d)" "quiet (os_lstat d n)"
  "quiet (os_chmod d n m)" "quiet (os_fstat fd)" "quiet (os_close fd)" "quiet (os_dup fd)"
  "quiet (os_lseek fd)" "quiet (os_fsync fd)" "quiet (os_fchmod fd m)" "quiet (os_read fd a b)"
  "quiet (os_read_all fd)" "quiet (flock_ex fd)" "quiet (flock_nb fd)" "quiet (flock_un fd)"
  "quiet (msvcrt_lock fd)" "quiet (msvcrt_nblock fd)" "quiet (msvcrt_unlock fd)"
  unfolding os_quiet_defs
  by (intro quiet_syscall quietI;
      auto simp: with_fd_def ret_def gets_def modify_def intro!: same_files_inode
           split: dnode.split option.split holder.split)+


lemma quiet_open: "quiet (os_open d n wr False False mode)"
  unfolding os_open_def
  by (intro quiet_syscall quietI) (auto split: option.split fkind.split)

text \<open>Quiet code that leaves the table of descriptors alone too.\<close>

definition calm :: "'a io \<Rightarrow> bool" where
  "calm m \<longleftrightarrow> (\<forall>w. same_files w (snd (m w)) \<and> fds (snd (m w)) = fds w)"

definition small_file :: "nat \<Rightarrow> world \<Rightarrow> bool" where
  "small_file fd w \<longleftrightarrow> (\<forall>f. fds w fd = Some f \<longrightarrow> length (i_data (inodes w (of_ino f))) \<le> 1)"

lemma calm_syscall:
  "(\<And>w. same_files w (snd (m w)) \<and> fds (snd (m w)) = fds w) \<Longrightarrow> calm (syscall m)"
proof -
  assume m: "\<And>w. same_files w (snd (m w)) \<and> fds (snd (m w)) = fds w"
  have "same_files w (snd (m (w\<lparr>faults := fs\<rparr>))) \<and> fds (snd (m (w\<lparr>faults := fs\<rparr>))) = fds w" if "faults w \<noteq> []" for w fs
    using m [of "w\<lparr>faults := fs\<rparr>"] that by (simp add: same_files_def)
  with m show ?thesis
    by (auto simp: calm_def syscall_def same_files_faults split: list.split fault.split)
qed

lemma calmI: "(\<And>w. same_files w (snd (m w)) \<and> fds (snd (m w)) = fds w) \<Longrightarrow> calm m"
  by (simp add: calm_def)

lemma calm_os:
  "calm (os_fstat fd)" "calm (os_lseek fd)" "calm (os_fchmod fd m)" "calm (os_chmod d n m)"
  "calm (os_open_dir d)" "calm (os_close_dir d)" "calm (os_fsync_dir d)" "calm (os_listdir d)"
  "calm (os_lstat d n)" "calm (os_fsync fd)" "calm (os_read fd a b)" "calm (os_read_all fd)"
  "calm (flock_ex fd)" "calm (flock_nb fd)" "calm (flock_un fd)" "calm (msvcrt_lock fd)"
  "calm (msvcrt_nblock fd)" "calm (msvcrt_unlock fd)"
  unfolding os_quiet_defs
  by (intro calm_syscall;
      auto simp: with_fd_def ret_def gets_def modify_def set_inode_def set_lock_def same_files_def
           split: option.split holder.split)+

lemma gives_ret: "P x \<Longrightarrow> gives P (ret x)"
  by (simp add: gives_def ret_def)

lemma gives_throw: "gives P (throw e)"
  by (simp add: gives_def throw_def)

lemma gives_andthen: "gives P k \<Longrightarrow> gives P (andthen m k)"
  by (simp add: andthen_def gives_bnd)

lemma gives_bnd_gives: "gives Q m \<Longrightarrow> (\<And>x. Q x \<Longrightarrow> gives P (f x)) \<Longrightarrow> gives P (bnd m f)"
  unfolding gives_def bnd_def by (fastforce split: sum.splits prod.splits)

lemma gives_if: "(b \<Longrightarrow> gives P m) \<Longrightarrow> (\<not> b \<Longrightarrow> gives P k) \<Longrightarrow> gives P (if b then m else k)"
  by simp

lemma gives_option:
  "gives P m \<Longrightarrow> (\<And>x. r = Some x \<Longrightarrow> gives P (f x)) \<Longrightarrow> gives P (case r of None \<Rightarrow> m | Some x \<Rightarrow> f x)"
  by (cases r) auto

lemma gives_for_range:
  "(\<And>i. gives (\<lambda>r. \<forall>y. r = Some y \<longrightarrow> P y) (f i)) \<Longrightarrow> gives (\<lambda>r. \<forall>y. r = Some y \<longrightarrow> P y) (for_range k i f)"
proof (induction k arbitrary: i)
  case (Suc k)
  then show ?case
    unfolding gives_def for_range.simps bnd_def
    by (fastforce split: sum.splits prod.splits option.splits simp: ret_def)
qed (simp add: gives_def ret_def)

section \<open>Properties of the files and the descriptors\<close>

locale descriptor_invariant =
  fixes I :: "world \<Rightarrow> bool"
  assumes calm_step: "I w \<Longrightarrow> same_files w w' \<Longrightarrow> fds w' = fds w \<Longrightarrow> I w'"
begin

lemma keeps_calm: "calm m \<Longrightarrow> keeps I m"
  unfolding calm_def keeps_def using calm_step by blast

lemmas keeps_calm_os [keeps_intros] = calm_os [THEN keeps_calm]

lemma keeps_query: "keeps I (syscall (gets f))"
  by (intro keeps_calm calm_syscall) (simp add: gets_def)

lemma keeps_fail [keeps_intros]: "keeps I (syscall (throw e))"
  by (intro keeps_calm calm_syscall) (simp add: throw_def)

lemma keeps_exists [keeps_intros]: "keeps I (path_exists d n)"
  unfolding path_exists_def
  by (intro keeps_intros keeps_query; simp add: gets_def)

lemma keeps_glob [keeps_intros]: "keeps I (path_glob d p)"
  unfolding path_glob_def by (intro keeps_intros)

lemma keeps_posix [keeps_intros]: "keeps I is_posix"
  unfolding is_posix_def by (intro keeps_intros)

lemma keeps_with_dir [keeps_intros]: "keeps I m \<Longrightarrow> keeps I (with_dir d m)"
  unfolding with_dir_def by (intro keeps_intros)

lemma keeps_in_dir [keeps_intros]:
  "keeps I m \<Longrightarrow> keeps I ((if posix then with_dir d else id) m)"
  by (simp add: keeps_with_dir)

lemma keeps_stat [keeps_intros]:
  "keeps I (stat_or_none d n)" "keeps I (name_exists d n)" "keeps I (current_stat d n)"
  "keeps I (open_name_matches d n fd)"
  unfolding open_name_matches_def current_stat_def name_exists_def stat_or_none_def
  by (intro keeps_intros)+

lemma keeps_fchmod [keeps_intros]: "keeps I (fchmod_descriptor fd d n mode)"
  unfolding fchmod_descriptor_def by (intro keeps_intros)

lemma keeps_chunks [keeps_intros]: "keeps I (read_chunks k fd off acc)"
  by (induction k arbitrary: off acc) (auto intro!: keeps_intros)

lemma keeps_digest [keeps_intros]: "keeps I (descriptor_digest sp fd)"
  unfolding descriptor_digest_def by (intro keeps_intros)

end

section \<open>Properties of the files\<close>

locale file_invariant =
  fixes I :: "world \<Rightarrow> bool"
  assumes quiet_step: "I w \<Longrightarrow> same_files w w' \<Longrightarrow> I w'"

sublocale file_invariant < descriptor_invariant I
  by unfold_locales (rule quiet_step)

context file_invariant begin

lemma keeps_quiet: "quiet m \<Longrightarrow> keeps I m"
  unfolding quiet_def keeps_def using quiet_step by blast

lemma unrelated:
  "I w \<Longrightarrow> I (add_fd i b w)" "I w \<Longrightarrow> I (w\<lparr>tokens := ts\<rparr>)" "I w \<Longrightarrow> I (drop_link i w)"
  by (erule quiet_step; simp)+

lemma keeps_faults: "I w \<Longrightarrow> faults w \<noteq> [] \<Longrightarrow> I (w\<lparr>faults := fs\<rparr>)"
  by (erule quiet_step) (simp add: same_files_faults)

lemma keeps_call: "(\<And>w. I w \<Longrightarrow> I (snd (m w))) \<Longrightarrow> keeps I (syscall m)"
  using keeps_syscall keepsI keeps_faults by metis

lemmas keeps_os [keeps_intros] = quiet_os [THEN keeps_quiet] quiet_open [THEN keeps_quiet]

text \<open>Removing a name, given what that does to the property.\<close>

lemma keeps_unlink_if:
  assumes "\<And>w i. I w \<Longrightarrow> lookup d n w = Some i \<Longrightarrow> I (unlink_ent d n i w)"
  shows "keeps I (os_unlink d n)"
  unfolding os_unlink_def
  by (rule keeps_call) (auto simp: assms split: option.split)

lemma keeps_unlink_name_if:
  assumes "\<And>w i. I w \<Longrightarrow> lookup d n w = Some i \<Longrightarrow> I (unlink_ent d n i w)"
  shows "keeps I (unlink_name d n)"
  unfolding unlink_name_def by (intro keeps_intros keeps_unlink_if assms)

lemma keeps_set_guard [keeps_intros]: "keeps I (set_guard d g h)"
  unfolding set_guard_def
  by (rule keepsI) (auto simp: modify_def elim: quiet_step)

lemma keeps_unlock [keeps_intros]:
  "keeps I (unlock_descriptor fd)" "keeps I (close_locked_descriptor fd)"
  "keeps I (close_locked_descriptor_with_retry fd)" "keeps I (close_descriptor fd locked)"
  unfolding close_descriptor_def close_locked_descriptor_with_retry_def close_locked_descriptor_def
    unlock_descriptor_def
  by (intro keeps_intros)+

lemma keeps_open_existing [keeps_intros]:
  "keeps I (open_name d n wr False False)" "keeps I (open_record d n)"
  unfolding open_record_def open_name_def by (intro keeps_intros)+

lemma keeps_fsync_directory [keeps_intros]: "keeps I (fsync_directory d)"
  unfolding fsync_directory_def by (intro keeps_intros)

lemma keeps_with_handle [keeps_intros]: "keeps I m \<Longrightarrow> keeps I (with_handle fd m)"
  unfolding with_handle_def by (intro keeps_intros)

lemma keeps_decode_marker [keeps_intros]: "keeps I (decode_operation_marker sp n)"
  unfolding decode_operation_marker_def
  by (intro keeps_intros; auto split: json.split intro!: keeps_intros)

lemma keeps_read_marker [keeps_intros]: "keeps I (read_operation_marker sp n s x)"
  unfolding read_operation_marker_def
  by (intro keeps_intros; auto split: option.split intro!: keeps_intros)

lemma keeps_validate_destination [keeps_intros]:
  "keeps I (validate_dead_letter_destination sp d x)" "keeps I (destination_matches_digest sp d x)"
  unfolding destination_matches_digest_def validate_dead_letter_destination_def
  by (intro keeps_intros)+

lemma keeps_ensure_directories [keeps_intros]: "keeps I ensure_directories"
  unfolding ensure_directories_def
  by (intro keeps_intros; auto split: dnode.split intro!: keeps_intros)

lemma keeps_timestamp [keeps_intros]: "keeps I (timestamp n)" "keeps I (retention_cutoff sp us)"
  unfolding timestamp_def retention_cutoff_def
  by (auto split: now.split intro!: keeps_intros)

lemma keeps_records [keeps_intros]:
  "keeps I (is_regular_file d n)" "keeps I (validated_record_stat n)" "keeps I (record_time n)"
  "keeps I pending_paths"
  unfolding pending_paths_def record_time_def validated_record_stat_def is_regular_file_def
  by (intro keeps_intros)+

lemma keeps_pending_path [keeps_intros]: "keeps I (pending_path p)"
  unfolding pending_path_def
  by (auto split: path.split dir.split intro!: keeps_intros)

lemma keeps_read_record [keeps_intros]: "keeps I (read_record sp n)"
  unfolding read_record_def by (intro keeps_intros)

lemma keeps_link_matches [keeps_intros]: "keeps I (pending_link_matches st)"
  unfolding pending_link_matches_def by (intro keeps_intros)

lemma keeps_existing_rejection [keeps_intros]: "keeps I (existing_rejection sp n)"
  unfolding existing_rejection_def by (intro keeps_intros)

end


lemma leads_on_error: "leads P I m \<Longrightarrow> keeps I h \<Longrightarrow> leads P I (on_error m h)"
  unfolding on_error_def try_except_def by (intro leads_try_else keeps_intros)

lemma leads_guarded:
  assumes "keeps P m" and "keeps I h" and "\<And>w. P w \<Longrightarrow> I w" and "leads P I k"
  shows "leads P I (andthen (on_error m h) k)"
  unfolding leads_def
proof (intro allI impI)
  fix w
  assume P: "P w"
  obtain r v where m: "m w = (r, v)" by (cases "m w")
  with P assms(1) have v: "P v" by (auto simp: keeps_def dest: spec [of _ w])
  show "I (snd (andthen (on_error m h) k w))"
  proof (cases r)
    case (Inl e)
    with m v assms(2,3) show ?thesis
      by (cases "h v")
        (auto simp: andthen_def bnd_def on_error_def try_except_def try_else_def throw_def keeps_def
          split: sum.split dest: spec [of _ v])
  next
    case (Inr x)
    with m v assms(4) show ?thesis
      by (simp add: andthen_def bnd_def on_error_def try_except_def try_else_def ret_def leads_def)
  qed
qed

lemma leads_syscall:
  assumes "\<And>w. P w \<Longrightarrow> I (snd (m w))" and "\<And>w. P w \<Longrightarrow> I w" and "\<And>w fs. P w \<Longrightarrow> faults w \<noteq> [] \<Longrightarrow> P (w\<lparr>faults := fs\<rparr>)"
  shows "leads P I (syscall m)"
  unfolding leads_def using syscall_snd [of m] assms by metis

lemma leads_in_dir:
  assumes "leads P I m" and "keeps P (os_open_dir d)" and "keeps I (os_close_dir d)"
    and "\<And>w. P w \<Longrightarrow> I w"
  shows "leads P I ((if posix then with_dir d else id) m)"
  using assms by (auto simp: with_dir_def intro: leads_andthen_next leads_try_finally)

lemma wp_fstat_ino:
  "wp (os_fstat fd) (\<lambda>st v. \<exists>f. fds v fd = Some f \<and> st = stat_of v (of_ino f)) (\<lambda>_ _. True) w"
  by (auto simp: wp_def os_fstat_def syscall_def with_fd_def split: list.split fault.split option.split)

lemma wp_stat_or_none:
  "wp (stat_or_none d n)
     (\<lambda>cur v. case cur of None \<Rightarrow> lookup d n v = None
              | Some st \<Rightarrow> \<exists>i. lookup d n v = Some i \<and> st = stat_of v i) (\<lambda>_ _. True) w"
proof -
  have [simp]: "lookup d n (w\<lparr>faults := fs\<rparr>) = lookup d n w" "stat_of (w\<lparr>faults := fs\<rparr>) i = stat_of w i" for fs i
    by (simp_all add: lookup_def stat_of_def)
  show ?thesis
    by (simp add: wp_def os_lstat_def syscall_def stat_or_none_def try_except_def try_else_def bnd_def
        ret_def split: list.split fault.split option.split)
qed

lemma same_files_lookup: "same_files w w' \<Longrightarrow> lookup d n w' = lookup d n w"
  by (simp add: same_files_def lookup_def)

lemma calm_keeps_empty:
  "calm m \<Longrightarrow> keeps I m \<Longrightarrow> keeps (\<lambda>w. I w \<and> small_file fd w) m"
  unfolding calm_def keeps_def small_file_def same_files_def by simp

lemma wp_fstat_size:
  "wp (os_fstat fd) (\<lambda>st w'. st_size st = 0 \<longrightarrow> small_file fd w') (\<lambda>_ _. True) w"
  by (auto simp: wp_def os_fstat_def syscall_def with_fd_def small_file_def
      split: list.split fault.split option.split)


locale name_invariant = file_invariant I for I +
  fixes free :: "dir \<Rightarrow> string \<Rightarrow> bool"
  assumes touch: "I w \<Longrightarrow> length (i_data (inodes w i)) \<le> 1 \<Longrightarrow> I (write_bytes i bs w)"
    and create: "I w \<Longrightarrow> free d n \<Longrightarrow> lookup d n w = None \<Longrightarrow> I (create_ent d n mode w)"
    and remove: "I w \<Longrightarrow> free d n \<Longrightarrow> lookup d n w = Some i \<Longrightarrow> I (unlink_ent d n i w)"
    and overwrite: "I w \<Longrightarrow> free d n \<Longrightarrow> free d m \<Longrightarrow> lookup d n w = Some i \<Longrightarrow>
                      I (put_ent d m i (del_ent d n w))"
    and guards_free: "starts_with g guard_prefix \<Longrightarrow> free d g"
begin

lemma write_empty:
  assumes "I w" and "small_file fd w"
  shows "I (snd (os_write fd bs w))"
proof (cases "fds w fd")
  case None
  then show ?thesis
    using assms keepsD [OF keeps_quiet [OF quiet_syscall [OF quiet_throw]]] by (simp add: os_write_def)
next
  case (Some f)
  then have empty: "length (i_data (inodes w (of_ino f))) \<le> 1"
    using assms(2) by (simp add: small_file_def)
  have whole: "keeps (\<lambda>w. I w \<and> length (i_data (inodes w (of_ino f))) \<le> 1) (syscall (throw (OSError EBADF)))"
    by (rule keeps_syscall) (auto intro: keeps_intros keeps_faults)
  have "I (snd (syscall (modify (write_bytes (of_ino f) bs)) w))"
    using assms(1) empty
    by (auto simp: syscall_def modify_def touch keeps_faults split: list.split fault.split)
  then show ?thesis
    using Some assms(1) empty keepsD [OF whole, of w]
    by (auto simp: os_write_def touch keeps_faults faults_write_bytes split: list.split fault.split)
qed

lemma keeps_ensure_lock_byte [keeps_intros]: "keeps I (ensure_lock_byte fd)"
proof (rule keeps_of_wp)
  fix w
  assume I: "I w"
  have body: "wp (andthen (when_m (st_size st = 0) (andthen (os_lseek fd) (os_write fd [CHR 0x00])))
              (os_lseek fd)) (\<lambda>_. I) (\<lambda>_. I) v"
    if v: "I v" "st_size st = 0 \<longrightarrow> small_file fd v" for st v
  proof -
    have seek: "wp (os_lseek fd) (\<lambda>_. I) (\<lambda>_. I) u" if "I u" for u
      using that by (intro keeps_wp) (intro keeps_intros)
    have writing: "wp (os_write fd bs) (\<lambda>_. I) (\<lambda>_. I) u" if "I u \<and> small_file fd u" for u bs
      using write_empty [of u fd bs] that
      by (cases "os_write fd bs u"; cases "fst (os_write fd bs u)") (simp_all add: wp_def)
    show ?thesis
    proof (cases "st_size st = 0")
      case True
      with v have "I v \<and> small_file fd v" by simp
      moreover have "keeps (\<lambda>u. I u \<and> small_file fd u) (os_lseek fd)"
        by (intro calm_keeps_empty calm_os keeps_intros)
      ultimately have "wp (os_lseek fd) (\<lambda>_ u. I u \<and> small_file fd u) (\<lambda>_. I) v"
        by (elim wp_keeps) auto
      then have "wp (os_lseek fd)
          (\<lambda>_. wp (os_write fd [CHR 0x00]) (\<lambda>_. wp (os_lseek fd) (\<lambda>_. I) (\<lambda>_. I)) (\<lambda>_. I)) (\<lambda>_. I) v"
        by (rule wp_mono) (rule wp_mono [OF writing], auto intro: seek)
      with True show ?thesis by (simp add: wp_simps)
    qed (simp add: wp_simps seek v)
  qed
  have "wp (os_fstat fd) (\<lambda>st v. (st_size st = 0 \<longrightarrow> small_file fd v) \<and> I v) (\<lambda>_ v. True \<and> I v) w"
    using I by (intro wp_conj wp_fstat_size keeps_wp) (intro keeps_intros)
  then show "wp (ensure_lock_byte fd) (\<lambda>_. I) (\<lambda>_. I) w"
    unfolding ensure_lock_byte_def wp_bnd by (rule wp_mono) (rule body, simp_all)
qed

lemma keeps_lock [keeps_intros]: "keeps I (lock_descriptor fd)" "keeps I (try_lock_descriptor fd)"
  unfolding lock_descriptor_def try_lock_descriptor_def by (intro keeps_intros)+

lemma keeps_unlink:
  assumes "free d n"
  shows "keeps I (os_unlink d n)"
  by (rule keeps_unlink_if) (rule remove [OF _ assms])

lemma keeps_open_new:
  assumes "free d n"
  shows "keeps I (os_open d n wr creat excl mode)"
  unfolding os_open_def
  by (rule keeps_call)
    (auto simp: assms create split: option.split fkind.split intro!: unrelated)

lemma keeps_mkstemp:
  assumes "\<And>t. free d (pre @ t @ suf)"
  shows "keeps I (os_mkstemp d pre suf)"
proof -
  have found: "lookup d (pre @ t @ suf) w = None"
    if "free_token ts (\<lambda>t. lookup d (pre @ t @ suf) w \<noteq> None) = Some (t, us)" for t ts us w
    using that by (induction ts) (auto split: if_splits)
  show ?thesis
    unfolding os_mkstemp_def
    by (rule keeps_call)
      (auto simp del: not_None_eq split: option.split dest: found intro!: unrelated create assms)
qed

lemma keeps_replace:
  assumes "free d n" and "free d m"
  shows "keeps I (os_replace d n d m)"
proof -
  have "I (put_ent d m i (del_ent d n (drop_link j w)))" if "I w" "lookup d n w = Some i" for w i j
    using that assms by (intro overwrite unrelated) simp_all
  then show ?thesis
    unfolding os_replace_def
    by (intro keeps_call) (auto simp: overwrite assms split: option.split)
qed


lemma keeps_unlink_name:
  assumes "free d n"
  shows "keeps I (unlink_name d n)" and "keeps I (unlink_if_exists d n)"
    and "keeps I (unlink_open_name d n fd)"
  unfolding unlink_name_def unlink_if_exists_def unlink_open_name_def
  by (intro keeps_intros keeps_unlink assms)+

lemma keeps_open_name:
  assumes "free d n"
  shows "keeps I (open_name d n wr creat excl)"
  unfolding open_name_def by (intro keeps_intros keeps_open_new assms)

lemma keeps_acquire_guard [keeps_intros]: "keeps I (acquire_artifact_guard sp d n b)"
  unfolding acquire_artifact_guard_def
  by (rule keeps_bnd_gives [where P = "\<lambda>g. free d g"])
    (auto intro!: keeps_intros keeps_open_name guards_free guard_name_prefix)

lemma keeps_release_guard [keeps_intros]: "keeps I (release_artifact_guard sp d n)"
  unfolding release_artifact_guard_def by (intro keeps_intros)

lemma keeps_cleanup:
  assumes "free d n"
  shows "keeps I (cleanup_stale_hidden_file sp d n)"
  unfolding cleanup_stale_hidden_file_def
  by (intro keeps_intros keeps_unlink_name keeps_unlink assms)

lemma keeps_reservation:
  assumes "free d n"
  shows "keeps I (acquire_reservation sp d n)" and "keeps I (release_reservation sp d n r)"
proof -
  have "keeps I (reserve_attempt sp d n)"
    unfolding reserve_attempt_def
    by (intro keeps_intros keeps_open_name keeps_cleanup keeps_unlink_name assms)
  then show "keeps I (acquire_reservation sp d n)"
    unfolding acquire_reservation_def by (intro keeps_intros)
  show "keeps I (release_reservation sp d n r)"
    unfolding release_reservation_def
    by (intro keeps_intros keeps_unlink_name assms)
qed

lemma keeps_replace_name:
  assumes "free d n" and "free d m"
  shows "keeps I (replace_name d n d m)"
  unfolding replace_name_def by (intro keeps_intros keeps_replace assms)


lemma leads_write: "leads (\<lambda>w. I w \<and> small_file fd w) I (os_write fd bs)"
  by (simp add: leads_def write_empty)

lemma calm_fchmod: "keeps (\<lambda>w. I w \<and> small_file fd w) (fchmod_descriptor fd' d n mode)"
  unfolding fchmod_descriptor_def is_posix_def
  by (intro keeps_intros calm_keeps_empty calm_os)

lemma wp_mkstemp:
  assumes "\<And>t. free d (pre @ t @ suf)" and "I w"
  shows "wp (os_mkstemp d pre suf)
           (\<lambda>(fd, n) v. (I v \<and> small_file fd v) \<and> (\<exists>t. n = pre @ t @ suf)) (\<lambda>_. I) w"
proof -
  have "wp (os_mkstemp d pre suf) (\<lambda>_. I) (\<lambda>_. I) w"
    using keeps_mkstemp [OF assms(1)] assms(2) by (rule keeps_wp)
  moreover have "wp (os_mkstemp d pre suf)
      (\<lambda>(fd, n) v. small_file fd v \<and> (\<exists>t. n = pre @ t @ suf)) (\<lambda>_ _. True) w"
    by (auto simp: wp_def os_mkstemp_def syscall_def small_file_def add_fd_def create_ent_def
        put_ent_def set_inode_def new_inode_def split: list.split fault.split option.split)
  ultimately show ?thesis
    by (rule wp_mono [OF wp_conj]) auto
qed

lemma leads_fill_marker:
  assumes "free Dead temporary" and "free Dead marker"
  shows "leads (\<lambda>w. I w \<and> small_file fd w) I (fill_operation_marker marker encoded r fd temporary)"
  unfolding fill_operation_marker_def with_handle_def
  by (intro leads_guarded leads_on_error leads_andthen_first leads_try_finally leads_write
      calm_fchmod keeps_intros keeps_unlink_name keeps_replace_name assms) simp

lemma keeps_persist:
  assumes "\<And>t. free Dead (''.deadmark-'' @ t @ ''.tmp'')" and "free Dead marker"
  shows "keeps I (persist_operation_marker sp marker s x d g c r)"
proof -
  let ?P = "\<lambda>y w. (I w \<and> small_file (fst y) w) \<and> (\<exists>t. snd y = ''.deadmark-'' @ t @ ''.tmp'')"
  have body: "leads (?P y) I (case y of (fd, temporary) \<Rightarrow> fill_operation_marker marker e r fd temporary)"
    for y e
  proof (cases "\<exists>t. snd y = ''.deadmark-'' @ t @ ''.tmp''")
    case True
    then have "free Dead (snd y)" using assms(1) by metis
    then show ?thesis
      using leads_fill_marker [of "snd y" marker "fst y" e r] assms(2)
      by (simp add: case_prod_beta leads_def)
  qed (simp add: leads_def)
  have staged: "wp (os_mkstemp Dead ''.deadmark-'' ''.tmp'') ?P (\<lambda>_. I) w" if "I w" for w
    by (rule wp_mono [OF wp_mkstemp [OF assms(1) that]]) (simp_all add: case_prod_beta)
  have "keeps I (bnd (os_mkstemp Dead ''.deadmark-'' ''.tmp'')
      (\<lambda>(fd, temporary). fill_operation_marker marker e r fd temporary))" for e
    by (rule keeps_bnd_leads [OF staged body])
  then show ?thesis
    unfolding persist_operation_marker_def
    by (intro keeps_bnd [OF keeps_acquire_guard] keeps_bnd [OF keeps_lift_result] keeps_if
        keeps_throw keeps_try_finally keeps_release_guard)
qed

end


context file_invariant begin

text \<open>Removing a name only while it leads to the open file.\<close>

lemma leads_unlink_open_name:
  assumes P: "descriptor_invariant P" and PI: "\<And>w. P w \<Longrightarrow> I w"
    and step: "\<And>w f. P w \<Longrightarrow> fds w fd = Some f \<Longrightarrow> lookup d n w = Some (of_ino f) \<Longrightarrow>
                 I (unlink_ent d n (of_ino f) w)"
  shows "leads P I (unlink_open_name d n fd)"
proof -
  let ?Q = "\<lambda>st w. P w \<and> (\<exists>f. fds w fd = Some f \<and> of_ino f = st_ino st)"
  let ?R = "\<lambda>st cur w. ?Q st w \<and> (\<forall>s. cur = Some s \<longrightarrow> lookup d n w = Some (st_ino s))"
  have Q: "descriptor_invariant (?Q st)" for st
    using descriptor_invariant.calm_step [OF P] by unfold_locales auto
  have R: "descriptor_invariant (?R st cur)" for st cur
    using descriptor_invariant.calm_step [OF Q [of st]] same_files_lookup
    by unfold_locales metis
  have opened: "wp (os_fstat fd) ?Q (\<lambda>_. I) w" if "P w" for w
    by (rule wp_mono [OF wp_conj [OF keeps_wp [OF descriptor_invariant.keeps_calm [OF P calm_os(1)] that]
          wp_fstat_ino]]) (auto simp: PI)
  have named: "wp (stat_or_none d n) (?R st) (\<lambda>_. I) w" if "?Q st w" for w st
    by (rule wp_mono [OF wp_conj [OF keeps_wp [OF descriptor_invariant.keeps_stat(1) [OF Q] that]
          wp_stat_or_none]]) (auto simp: PI split: option.splits)
  have drop: "leads (?R st (Some s)) I (andthen (os_unlink d n) (ret True))"
    if same: "st_ino s = st_ino st" for st s
  proof (rule leads_andthen_first)
    show "leads (?R st (Some s)) I (os_unlink d n)"
      unfolding os_unlink_def
    proof (rule leads_syscall)
      fix w fs
      assume *: "?R st (Some s) w"
      then show "I w" by (simp add: PI)
      show "?R st (Some s) (w\<lparr>faults := fs\<rparr>)" if "faults w \<noteq> []"
        by (rule descriptor_invariant.calm_step [OF R *]) (simp_all add: same_files_faults that)
      from * step [of w] PI same
      show "I (snd (case lookup d n w of
          None \<Rightarrow> (Inl (OSError ENOENT), w)
        | Some i \<Rightarrow> if i_kind (inodes w i) = Directory then (Inl (OSError EISDIR), w)
                    else (Inr (), unlink_ent d n i w)))"
        by auto
    qed
  qed (intro keeps_intros)
  show ?thesis
    unfolding unlink_open_name_def is_posix_def
    by (intro leads_bnd [of P, OF opened] leads_bnd_next descriptor_invariant.keeps_calm [OF Q] 
        leads_in_dir leads_bnd [of "?Q x" for x, OF named] leads_option leads_if leads_ret
        keeps_intros calm_os drop)
      (auto intro: PI leads_weaken [OF drop])
qed

end


section \<open>Moves into the dead-letter directory\<close>

definition movable :: "string \<Rightarrow> string \<Rightarrow> bool" where
  "movable s d \<longleftrightarrow> starts_with s ''.'' \<or> \<not> starts_with d ''.''"

lemma not_hidden_iff: "\<not> starts_with s ''.'' \<longleftrightarrow> s = [] \<or> hd s \<noteq> CHR ''.''"
  by (cases s) (auto simp: starts_with_def)

lemma length_takeWhile_lt: "x \<in> set l \<Longrightarrow> \<not> p x \<Longrightarrow> length (takeWhile p l) < length l"
  by (induction l) auto

lemma last_dot_split:
  assumes "CHR ''.'' \<in> set s" and "hd s \<noteq> CHR ''.''"
  shows "\<exists>c a. s = c # a \<and> c \<noteq> CHR ''.'' \<and>
    length (takeWhile (\<lambda>x. x \<noteq> CHR ''.'') (rev s)) < length a"
proof -
  obtain c a where s: "s = c # a" using assms(1) by (cases s) auto
  with assms have c: "c \<noteq> CHR ''.''" "CHR ''.'' \<in> set (rev a)" by auto
  then have "takeWhile (\<lambda>x. x \<noteq> CHR ''.'') (rev a @ [c]) = takeWhile (\<lambda>x. x \<noteq> CHR ''.'') (rev a)"
    by (intro takeWhile_append1) auto
  moreover have "length (takeWhile (\<lambda>x. x \<noteq> CHR ''.'') (rev a)) < length (rev a)"
    using c(2) by (intro length_takeWhile_lt) auto
  ultimately show ?thesis using s c by auto
qed

lemma numbered_visible:
  assumes "numbered_name n k = Inr d" and "n \<noteq> []" and "hd n \<noteq> CHR ''.''"
  shows "d \<noteq> [] \<and> hd d = hd n"
proof (cases "k = 0")
  case False
  with assms(1) have dot: "CHR ''.'' \<in> set n" 
    by (auto simp: numbered_name_def rsplit_dot_def split: if_splits)
  from last_dot_split [OF this assms(3)] obtain c a where n: "n = c # a"
    and len: "length (takeWhile (\<lambda>x. x \<noteq> CHR ''.'') (rev n)) < length a" by auto
  then have "take (length n - length (takeWhile (\<lambda>x. x \<noteq> CHR ''.'') (rev n)) - 1) n =
      c # take (length a - length (takeWhile (\<lambda>x. x \<noteq> CHR ''.'') (rev n)) - 1) a"
    by (cases "length a - length (takeWhile (\<lambda>x. x \<noteq> CHR ''.'') (rev n))") auto
  with assms(1) False dot n show ?thesis
    by (auto simp: numbered_name_def rsplit_dot_def Let_def)
qed (use assms in \<open>simp add: numbered_name_def\<close>)

lemma dead_letter_movable:
  assumes "path_suffix s = ''.json''" and "numbered_name (dead_letter_name sha' s x) k = Inr d"
  shows "movable s d"
proof (cases "starts_with s ''.''")
  case False
  with assms(1) have s: "s \<noteq> []" "hd s \<noteq> CHR ''.''"
    by (auto simp: not_hidden_iff path_suffix_def last_dot_def Let_def)
  have drop: "dropWhile (\<lambda>c. c = CHR ''.'') s = s" using s by (cases s) auto
  from assms(1) drop obtain k where k: "last_dot s = Some k" "CHR ''.'' \<in> set s"
    "k = length s - length (takeWhile (\<lambda>x. x \<noteq> CHR ''.'') (rev s)) - 1"
    by (auto simp: path_suffix_def last_dot_def Let_def split: if_splits)
  from last_dot_split [OF k(2) s(2)] k(3) have "0 < k" by auto
  with k(1) s have "path_stem s \<noteq> []" "hd (path_stem s) = hd s"
    by (auto simp: path_stem_def hd_take)
  with numbered_visible [OF assms(2)] s show ?thesis
    by (simp add: movable_def not_hidden_iff dead_letter_name_def)
qed (simp add: movable_def)

locale move_invariant = name_invariant I free for I free +
  assumes hidden_free: "starts_with n ''.'' \<Longrightarrow> free e n"
    and link: "I w \<Longrightarrow> movable s d \<Longrightarrow> lookup Root s w = Some i \<Longrightarrow> lookup Dead d w = None \<Longrightarrow>
                 I (put_ent Dead d i (add_link i w))"
    and unlink_source: "I w \<Longrightarrow> movable s d \<Longrightarrow> lookup Root s w = Some i \<Longrightarrow> lookup Dead d w = Some i \<Longrightarrow>
                 I (unlink_ent Root s i w)"
    and rename: "I w \<Longrightarrow> movable s d \<Longrightarrow> lookup Root s w = Some i \<Longrightarrow> lookup Dead d w = None \<Longrightarrow>
                 I (put_ent Dead d i (del_ent Root s w))"
begin

lemma keeps_publish:
  assumes m: "movable s d"
  shows "keeps I (publish_noreplace Root s Dead d)"
proof -
  have ren: "keeps I (os_rename_noreplace Root s Dead d)"
    unfolding os_rename_noreplace_def
    by (rule keeps_call) (auto split: option.split intro: rename [OF _ m])
  have "keeps I (andthen (os_link Root s Dead d) (os_unlink Root s))"
    unfolding andthen_def
  proof (rule keeps_bnd_leads)
    let ?P = "\<lambda>w. I w \<and> (\<exists>i. lookup Root s w = Some i \<and> lookup Dead d w = Some i)"
    have both: "\<exists>i. lookup Root s v = Some i \<and> lookup Dead d v = Some i"
      if "v = put_ent Dead d i (add_link i w)" "lookup Root s w = Some i" for v w i
      using that by (auto simp: lookup_def put_ent_def update_conv' add_link_def set_inode_def)
    show "wp (os_link Root s Dead d) (\<lambda>_. ?P) (\<lambda>_. I) w" if "I w" for w
    proof -
      have step: "wp (\<lambda>w.
         case lookup Root s w of
           None \<Rightarrow> (Inl (OSError ENOENT), w)
         | Some i \<Rightarrow>
             if lookup Dead d w \<noteq> None then (Inl (OSError EEXIST), w)
             else if i_kind (inodes w i) = Directory then (Inl (OSError (Io EACCES)), w)
             else (Inr (), put_ent Dead d i (add_link i w))) (\<lambda>_. ?P) (\<lambda>_. I) u" if "I u" for u
        using that by (auto simp: wp_def split: option.split intro: both [OF refl] link [OF _ m])
      show ?thesis
        unfolding os_link_def by (intro wp_syscall step keeps_faults that)
    qed
    show "leads ?P I (os_unlink Root s)"
      unfolding os_unlink_def
    proof (rule leads_syscall)
      fix w fs
      assume P: "?P w"
      then show "I w" by simp
      show "?P (w\<lparr>faults := fs\<rparr>)" if "faults w \<noteq> []"
        using P keeps_faults that by (auto simp: lookup_def)
      show "I (snd (case lookup Root s w of
          None \<Rightarrow> (Inl (OSError ENOENT), w)
        | Some i \<Rightarrow> if i_kind (inodes w i) = Directory then (Inl (OSError EISDIR), w)
                    else (Inr (), unlink_ent Root s i w)))"
        using P by (auto intro: unlink_source [OF _ m])
    qed
  qed
  then have lnk: "keeps I (if b then ret () else andthen (os_link Root s Dead d) (os_unlink Root s))" for b
    by (simp add: keeps_ret)
  have "keeps I (linux_rename_noreplace Root s Dead d)"
    unfolding linux_rename_noreplace_def by (intro keeps_intros ren)
  then have "keeps I (bnd (gets linux) (\<lambda>lx.
      bnd (if lx then linux_rename_noreplace Root s Dead d else ret False) (\<lambda>done.
      if done then ret () else andthen (os_link Root s Dead d) (os_unlink Root s))))"
    by (intro keeps_bnd lnk keeps_gets keeps_if keeps_ret)
  then show ?thesis
    unfolding publish_noreplace_def
    by (intro keeps_bnd [OF keeps_posix] keeps_if keeps_andthen keeps_try_finally keeps_calm_os ren)
qed


lemma keeps_recover_dead_letter_link:
  assumes m: "movable source destination"
  shows "keeps I (recover_dead_letter_link sp source destination expected fd)"
proof -
  let ?P = "\<lambda>st w. I w \<and> (\<exists>f. fds w fd = Some f \<and> of_ino f = st_ino st)"
  let ?Q = "\<lambda>st cur w. ?P st w \<and> (\<forall>s. cur = Some s \<longrightarrow> lookup Dead destination w = Some (st_ino s))"
  have P: "descriptor_invariant (?P st)" for st
    by unfold_locales (metis quiet_step)
  have Q: "descriptor_invariant (?Q st cur)" for st cur
    using descriptor_invariant.calm_step [OF P [of st]] same_files_lookup by unfold_locales metis
  have opened: "wp (os_fstat fd) ?P (\<lambda>_. I) w" if "I w" for w
    by (rule wp_mono [OF wp_conj [OF keeps_wp [OF keeps_calm_os(1) that] wp_fstat_ino]]) auto
  have named: "wp (stat_or_none Dead destination) (?Q st) (\<lambda>_. I) w" if "?P st w" for w st
    by (rule wp_mono [OF wp_conj [OF keeps_wp [OF descriptor_invariant.keeps_stat(1) [OF P] that]
          wp_stat_or_none]]) (auto split: option.splits)
  have drop: "leads (?Q st cur) I (bnd (unlink_open_name Root source fd) k)"
    if "\<not> \<not> same_pair st s" and "cur = Some s" and "\<And>x. keeps I (k x)" for st s cur and k :: "bool \<Rightarrow> unit io"
    using that by (intro leads_bnd_first leads_unlink_open_name Q)
      (auto simp: same_pair_def intro: unlink_source [OF _ m])
  show ?thesis
    unfolding recover_dead_letter_link_def leads_keeps [symmetric]
    by (intro leads_bnd [of I, OF opened] leads_bnd [of "?P x" _ "?Q x" for x, OF named] leads_option leads_if
        leads_ret leads_throw leads_bnd_next [OF descriptor_invariant.keeps_digest [OF Q]] drop keeps_intros)
      simp_all
qed

lemma keeps_recover_dead_letter_links [keeps_intros]: "keeps I (recover_dead_letter_links sp)"
proof -
  have link: "keeps I (recover_dead_letter_link sp s d x fd)"
    if "parse_recovery_marker sp n dct = Some (s, d, x)" for s d x fd n dct
    using that
    by (auto simp: parse_recovery_marker_def split: option.splits if_splits
        intro!: keeps_recover_dead_letter_link simp: movable_def plain_json_name_def)
  show ?thesis
    unfolding recover_dead_letter_links_def
    by (intro keeps_intros) (auto intro: link)
qed

lemma gives_glob: "gives (\<lambda>ns. \<forall>n \<in> set ns. p n) (path_glob d p)"
  by (auto simp: gives_def path_glob_def try_except_def try_else_def bnd_def ret_def
      split: sum.splits prod.splits if_splits)

lemma keeps_recover_pending_links [keeps_intros]: "keeps I (recover_pending_links sp)"
proof -
  have hidden: "free Root n" if "starts_with n ''.spool-''" for n
    using that by (auto intro!: hidden_free simp: starts_with_iff)
  show ?thesis
    unfolding recover_pending_links_def recover_pending_link_def
    by (rule keeps_bnd_gives [OF _ gives_glob])
      (auto intro!: keeps_intros keeps_for_each_set keeps_unlink_name hidden)
qed

lemma keeps_cleanup_hidden_artifacts [keeps_intros]: "keeps I (cleanup_hidden_artifacts sp)"
proof -
  have "free d n" if "is_stale_candidate d n" for d n
    using that
    by (intro hidden_free) (auto simp: is_stale_candidate_def artifact_prefixes_def starts_with_iff split: dir.splits)
  then show ?thesis
    unfolding cleanup_hidden_artifacts_def by (intro keeps_intros keeps_cleanup)
qed

lemma keeps_prepare [keeps_intros]: "keeps I (prepare sp)"
  unfolding prepare_def by (intro keeps_intros)


lemma keeps_on_world: "keeps I m \<Longrightarrow> (\<And>w l. J (w, l) \<longleftrightarrow> I w \<and> L l) \<Longrightarrow> keeps J (on_world m)"
  unfolding keeps_def on_world_def by (auto split: prod.split)

lemma keeps_local_set:
  "(\<And>l. L l \<Longrightarrow> L (f l)) \<Longrightarrow> (\<And>w l. J (w, l) \<longleftrightarrow> I w \<and> L l) \<Longrightarrow> keeps J (local_set f)"
  by (auto simp: keeps_def local_set_def modify_def)

lemma keeps_local_get: "keeps J (local_get f)"
  unfolding local_get_def by (rule keeps_gets)

text \<open>
  While a move runs: the lock it holds is a hidden name, and its destination is one the source
  may go to.
\<close>

definition locals_ok :: "string \<Rightarrow> move_locals \<Rightarrow> bool" where
  "locals_ok s l \<longleftrightarrow>
     (\<forall>n fd. mv_lock l = Some (n, fd) \<longrightarrow> fd = None \<or> starts_with n ''.'') \<and> movable s (mv_destination l)"

definition moving :: "string \<Rightarrow> world \<times> move_locals \<Rightarrow> bool" where
  "moving s st \<longleftrightarrow> I (fst st) \<and> locals_ok s (snd st)"

lemma moving_iff: "moving s (w, l) \<longleftrightarrow> I w \<and> locals_ok s l"
  by (simp add: moving_def)

lemmas moving_world = keeps_on_world [OF _ moving_iff]
lemmas moving_set = keeps_local_set [OF _ moving_iff]

lemma moving_get:
  "(\<And>l. locals_ok s l \<Longrightarrow> keeps (moving s) (k (f l))) \<Longrightarrow> keeps (moving s) (bnd (local_get f) k)"
  by (auto simp: keeps_def bnd_def local_get_def gets_def moving_def)

lemma moving_release [keeps_intros]: "keeps (moving s) (release_destination sp)"
proof -
  have "keeps I (release_reservation sp Dead n fd)" if "fd = None \<or> starts_with n ''.''" for n fd
    using that by (auto intro: keeps_reservation(2) hidden_free simp: release_reservation_def [of _ _ _ None] keeps_ret)
  then show ?thesis
    unfolding release_destination_def
    by (intro moving_get keeps_option keeps_throw keeps_prod) (auto intro!: moving_world simp: locals_ok_def)
qed

lemma moving_set_lock [keeps_intros]:
  "fd = None \<or> starts_with n ''.'' \<Longrightarrow> keeps (moving s) (set_destination_lock n fd)"
  "keeps (moving s) clear_destination_lock"
  unfolding set_destination_lock_def clear_destination_lock_def
  by (intro moving_set; auto simp: locals_ok_def)+

lemma keeps_reserve_destination [keeps_intros]: "keeps I (reserve_dead_letter_destination sp s x)"
  unfolding reserve_dead_letter_destination_def
  by (intro keeps_intros keeps_reservation hidden_free)
    (auto simp: dead_letter_reservation_name_def starts_with_def)

lemma keeps_persist_marker [keeps_intros]:
  "keeps I (persist_operation_marker sp (marker_name_of h s x) s' x' d g c r)"
  by (intro keeps_persist hidden_free) (auto simp: marker_name_of_def starts_with_def)

lemma gives_reserve_destination:
  assumes "path_suffix s = ''.json''"
  shows "gives (\<lambda>(d, n, fd). movable s d \<and> starts_with n ''.'') (reserve_dead_letter_destination sp s x)"
  unfolding reserve_dead_letter_destination_def Let_def
  by (intro gives_bnd_gives [OF gives_for_range [where P = "\<lambda>(d, n, fd). movable s d \<and> starts_with n ''.''"]]
        gives_option gives_ret gives_throw
        gives_bnd_gives [where m = "lift_result _" and Q = "movable s"] gives_bnd gives_if gives_andthen)
    (auto simp: dead_letter_reservation_name_def starts_with_def intro: dead_letter_movable [OF assms])


lemma gives_on_world: "gives P m \<Longrightarrow> gives P (on_world m)"
  unfolding gives_def on_world_def by (auto split: prod.splits)

lemma moving_reserve [keeps_intros]:
  assumes "path_suffix s = ''.json''"
  shows "keeps (moving s) (reserve_and_mark sp s x digest r)"
  unfolding reserve_and_mark_def
  by (rule keeps_bnd_gives [OF _ gives_on_world [OF gives_reserve_destination [OF assms]]];
      auto intro!: keeps_intros moving_world moving_set simp: locals_ok_def)

lemma moving_loop [keeps_intros]:
  assumes "path_suffix s = ''.json''"
  shows "keeps (moving s) (move_loop k sp s x digest)"
proof (induction k)
  case (Suc k)
  have pub: "keeps (moving s) (on_world (publish_noreplace Root s Dead (mv_destination l)))"
    if "locals_ok s l" for l
    using that by (auto simp: locals_ok_def intro: moving_world keeps_publish)
  have set: "keeps (moving s) (local_set (\<lambda>l. l\<lparr>mv_committed := b\<rparr>))"
    "keeps (moving s) (local_set (\<lambda>l. l\<lparr>mv_source := fd\<rparr>))" for b fd
    by (intro moving_set; simp add: locals_ok_def)+
  have lock: "keeps (moving s) (set_destination_lock (dead_letter_reservation_name h d) fd)" for h d fd
    by (rule moving_set_lock) (simp add: dead_letter_reservation_name_def starts_with_def)
  show ?case
    unfolding move_loop.simps source_matches_def commit_move_def
    by (rule moving_get)
      (intro keeps_intros pub lock set moving_world Suc.IH keeps_local_get assms
        keeps_reservation hidden_free; simp add: dead_letter_reservation_name_def starts_with_def)
qed (simp add: keeps_throw)


lemma moving_marked [keeps_intros]:
  assumes s: "path_suffix s = ''.json''"
  shows "keeps (moving s) (move_marked sp s x digest)"
proof -
  have marker: "gives (\<lambda>m. \<forall>d h c. m = Some (d, h, c) \<longrightarrow> movable s d) (read_operation_marker sp n s x)" for n
    unfolding read_operation_marker_def decode_operation_marker_def with_handle_def
    by (intro gives_bnd gives_if gives_ret gives_throw gives_option)
      (auto split: option.split prod.split intro!: gives_if gives_ret gives_throw
        simp: plain_json_name_def movable_def)
  show ?thesis
    unfolding move_marked_def
    by (rule keeps_bnd_gives [OF _ gives_on_world [OF marker]])
      (auto intro!: keeps_intros moving_world moving_set s simp: locals_ok_def)
qed

lemma keeps_move [keeps_intros]:
  assumes s: "path_suffix s = ''.json''"
  shows "keeps I (move_validated sp s x)"
proof -
  have lock: "starts_with (operation_lock_name h s x) ''.''" for h
    by (simp add: operation_lock_name_def starts_with_def)
  have "keeps (moving s) (try_finally (move_open sp s x fd) close_source)" for fd
    unfolding move_open_def close_source_def
    by (intro keeps_intros moving_world moving_set keeps_reservation hidden_free lock s keeps_local_get;
        simp add: locals_ok_def lock)
  then have "keeps I (with_locals l (try_finally (move_open sp s x fd) close_source))"
    if "locals_ok s l" for fd l
    using that by (auto simp: keeps_def with_locals_def moving_def case_prod_beta)
  then show ?thesis
    unfolding move_validated_def
    by (intro keeps_bnd keeps_open_existing) (simp add: locals_ok_def movable_def starts_with_def)
qed

lemma gives_pending_path: "gives (\<lambda>n. path_suffix n = ''.json'') (pending_path p)"
  unfolding pending_path_def
  by (auto split: path.split dir.split intro!: gives_if gives_bnd gives_andthen gives_ret gives_throw)

lemma keeps_move_to_dead_letter [keeps_intros]: "keeps I (move_to_dead_letter sp p x)"
  unfolding move_to_dead_letter_def
  by (rule keeps_bnd_gives [OF _ gives_pending_path]) (intro keeps_intros)+

lemma keeps_public [keeps_intros]:
  "keeps I (load sp p)" "keeps I (reject sp p)" "keeps I (pending sp)" "keeps I (stats sp)"
  unfolding load_def reject_def pending_def stats_def total_size_def by (intro keeps_intros)+

end

section \<open>Removing records\<close>

locale record_invariant = move_invariant I free for I free +
  fixes removable :: "string \<Rightarrow> bool"
  assumes remove_record:
    "I w \<Longrightarrow> removable n \<Longrightarrow> lookup Root n w = Some i \<Longrightarrow> I (unlink_ent Root n i w)"
begin

lemma keeps_ack:
  assumes "\<And>n. p = At Root n \<Longrightarrow> removable n"
  shows "keeps I (ack sp p)"
proof -
  have root: "gives (\<lambda>n. p = At Root n) (pending_path p)"
    unfolding pending_path_def
    by (auto split: path.split dir.split intro!: gives_if gives_bnd gives_andthen gives_ret gives_throw)
  show ?thesis
    unfolding ack_def
    by (intro keeps_andthen keeps_prepare keeps_bnd_gives [OF _ root])
      (auto intro!: keeps_intros keeps_unlink_name_if remove_record assms)
qed

lemma keeps_retention:
  assumes "\<And>n. removable n"
  shows "keeps I (enforce_retention sp t)"
  unfolding enforce_retention_def evict_records_def evict_expired_def evict_oldest_def total_size_def
  by (intro keeps_intros keeps_unlink_name_if; simp add: assms remove_record)

end

end
