(* ===== verification/Publication.thy ===== *)
theory Publication
  imports Frames
begin

text \<open>
  The operation that adds records: \<open>enqueue\<close> stages the bytes in a hidden file, flushes them,
  and only then gives the file its record name.
\<close>

section \<open>A staged file\<close>

text \<open>The hidden name \<open>t\<close> leads to a flushed file with the bytes \<open>c\<close>.\<close>

definition staged :: "string \<Rightarrow> string \<Rightarrow> world \<Rightarrow> bool" where
  "staged t c w \<longleftrightarrow>
     (case lookup Root t w of
        None \<Rightarrow> False
      | Some i \<Rightarrow> i_data (inodes w i) = c \<and> i_synced (inodes w i) \<and> i_kind (inodes w i) = Regular \<and>
                  i < next_ino w)"

definition temp_name :: "string \<Rightarrow> bool" where
  "temp_name t \<longleftrightarrow> (\<exists>u. t = ''.spool-'' @ u @ ''.tmp'')"

lemma temp_name_facts:
  assumes "temp_name t"
  shows "starts_with t ''.''" and "\<not> starts_with t guard_prefix" and "starts_with t ''.spool-''"
  using assms by (auto simp: temp_name_def starts_with_def guard_prefix_def)

text \<open>Nothing but its own name being removed ends that.\<close>

lemma named_invariant:
  assumes "2 \<le> length c" and "\<not> starts_with t guard_prefix"
  shows "name_invariant (staged t c) (\<lambda>d n. (d, n) \<noteq> (Root, t))"
proof unfold_locales
  show "staged t c (put_ent d m i (del_ent d n w))"
    if "staged t c w" "(d, n) \<noteq> (Root, t)" "(d, m) \<noteq> (Root, t)" for w d n m i
    using that by (auto simp: staged_def split: option.splits simp: lookup_put_ent lookup_del_ent)
  show "(d, g) \<noteq> (Root, t)" if "starts_with g guard_prefix" for d g
    using that assms(2) by auto
  show "staged t c w'" if "staged t c w" "same_files w w'" for w w'
    using that(1) same_files_inodes [OF that(2)] by (auto simp: staged_def split: option.splits)
  show "staged t c (write_bytes i bs w)" if "staged t c w" "length (i_data (inodes w i)) \<le> 1" for w i bs
    using that assms(1) by (auto simp: staged_def write_bytes_def split: option.splits)
  show "staged t c (create_ent d n mode w)" if "staged t c w" "(d, n) \<noteq> (Root, t)" for w d n mode
    using that less_irrefl [of "next_ino w"]
    by (auto simp: staged_def lookup_create_ent create_ent_inodes less_Suc_eq split: option.splits)
  show "staged t c (unlink_ent d n i w)" if "staged t c w" "(d, n) \<noteq> (Root, t)" for w d n i
    using that by (auto simp: staged_def lookup_unlink_ent split: option.splits)
qed

lemmas staged_invariant = named_invariant [OF _ temp_name_facts(2)]

section \<open>Staging\<close>

text \<open>A temporary file just created, open as \<open>fd\<close>, with at most a lock byte in it.\<close>

definition fresh_temp :: "string \<Rightarrow> nat \<Rightarrow> world \<Rightarrow> bool" where
  "fresh_temp t fd w \<longleftrightarrow>
     (case (lookup Root t w, fds w fd) of
        (Some i, Some f) \<Rightarrow>
          of_ino f = i \<and> i_kind (inodes w i) = Regular \<and> i < next_ino w \<and> length (i_data (inodes w i)) \<le> 1
      | _ \<Rightarrow> False)"

lemma fresh_temp_invariant: "descriptor_invariant (fresh_temp t fd)"
proof unfold_locales
  show "fresh_temp t fd w'" if "fresh_temp t fd w" "same_files w w'" "fds w' = fds w" for w w'
    using that(1) same_files_inodes [OF that(2)] that(3) by (auto simp: fresh_temp_def split: option.splits)
qed

lemmas fresh_temp_keeps = descriptor_invariant.keeps_calm [OF fresh_temp_invariant]

lemma keeps_lock_byte: "keeps (fresh_temp t fd) (os_write fd [CHR 0x00])"
proof (rule keepsI)
  fix w
  assume fresh: "fresh_temp t fd w"
  then obtain f where f: "fds w fd = Some f" by (auto simp: fresh_temp_def split: option.splits)
  have byte: "fresh_temp t fd (write_bytes (of_ino f) bs w)" if "bs \<in> {[], [CHR 0x00]}" for bs
    using fresh f that by (auto simp: fresh_temp_def write_bytes_def split: option.splits)
  have other: "fresh_temp t fd (v\<lparr>faults := fs\<rparr>) = fresh_temp t fd v" for v fs
    by (simp add: fresh_temp_def lookup_def cong: option.case_cong)
  have [simp]: "write_bytes i bs (w\<lparr>faults := fs\<rparr>) = (write_bytes i bs w)\<lparr>faults := fs\<rparr>" for i bs fs
    by (simp add: write_bytes_def set_inode_def)
  have "take n [CHR 0x00] \<in> {[], [CHR 0x00]}" for n by (cases n) auto
  then show "fresh_temp t fd (snd (os_write fd [CHR 0x00] w))"
    using f fresh by (auto simp: os_write_def syscall_def throw_def modify_def other byte
        split: list.split fault.split)
qed

lemma keeps_fresh_lock: "keeps (fresh_temp t fd) (lock_descriptor fd)"
  unfolding lock_descriptor_def ensure_lock_byte_def
  by (intro keeps_intros keeps_lock_byte fresh_temp_keeps calm_os)

lemma keeps_fresh_fchmod: "keeps (fresh_temp t fd) (fchmod_descriptor fd d n m)"
  by (rule descriptor_invariant.keeps_fchmod [OF fresh_temp_invariant])

lemma wp_fresh_temp:
  "wp (os_mkstemp Root pre suf) (\<lambda>(fd, t) v. fresh_temp t fd v \<and> (\<exists>u. t = pre @ u @ suf)) (\<lambda>_ _. True) w"
  unfolding os_mkstemp_def
  by (rule wp_syscall)
    (auto simp: wp_def fresh_temp_def lookup_create_ent add_fd_def create_ent_inodes new_inode_def
      split: option.split)


lemma wp_dup: "fresh_temp t fd w \<Longrightarrow> wp (os_dup fd) (\<lambda>fd'. fresh_temp t fd') (\<lambda>_ _. True) w"
  unfolding os_dup_def
  by (rule wp_syscall) (auto simp: wp_def with_fd_def fresh_temp_def split: option.splits)

text \<open>The bytes are there, flushed or not.\<close>

definition filled :: "string \<Rightarrow> nat \<Rightarrow> string \<Rightarrow> world \<Rightarrow> bool" where
  "filled t fd c w \<longleftrightarrow>
     (case (lookup Root t w, fds w fd) of
        (Some i, Some f) \<Rightarrow>
          of_ino f = i \<and> i_kind (inodes w i) = Regular \<and> i < next_ino w \<and> i_data (inodes w i) = c
      | _ \<Rightarrow> False)"

lemma wp_fill:
  assumes "fresh_temp t fd w" and "2 \<le> length c"
  shows "wp (os_write fd c) (\<lambda>_. filled t fd c) (\<lambda>_ _. True) w"
proof -
  from assms(1) obtain f where f: "fds w fd = Some f" by (auto simp: fresh_temp_def split: option.splits)
  have "wp (syscall (modify (write_bytes (of_ino f) c))) (\<lambda>_. filled t fd c) (\<lambda>_ _. True) w"
    using assms f
    by (intro wp_syscall)
      (auto simp: wp_def modify_def fresh_temp_def filled_def write_bytes_def split: option.splits)
  then show ?thesis
    using f by (auto simp: os_write_def wp_def syscall_def throw_def split: list.split fault.split)
qed

lemma wp_flush: "filled t fd c w \<Longrightarrow> wp (os_fsync fd) (\<lambda>_. staged t c) (\<lambda>_ _. True) w"
  unfolding os_fsync_def
  by (rule wp_syscall) (auto simp: wp_def with_fd_def modify_def filled_def staged_def split: option.splits)

lemma wp_staging:
  assumes "fresh_temp t fd w" and c: "2 \<le> length c" and t: "temp_name t"
  shows "wp (fill_staged t fd c) (\<lambda>r v. r = (t, fd) \<and> staged t c v) (\<lambda>_ _. True) w"
proof -
  have close: "wp (os_close k) (\<lambda>_. staged t c) (\<lambda>_ _. True) v" if "staged t c v" for k v
    using keeps_wp [OF file_invariant.keeps_quiet [OF name_invariant.axioms(1)
        [OF staged_invariant [OF c t]] quiet_os(11)] that]
    by (rule wp_mono) auto
  have any: "wp m (\<lambda>_ _. True) (\<lambda>_ _. True) v" for m :: "'a io" and v
    by (simp add: wp_def split: prod.split sum.split)
  have fill: "wp (with_handle k (andthen (os_write k c) (os_fsync k))) (\<lambda>_. staged t c) (\<lambda>_ _. True) v"
    if "fresh_temp t k v" for k v
    unfolding with_handle_def wp_try_finally wp_andthen
    by (rule wp_mono [OF wp_fill [OF that c]]; (rule wp_mono [OF wp_flush])?)
      (auto intro: close any)
  show ?thesis
    unfolding fill_staged_def wp_andthen wp_bnd wp_ret
    apply (rule wp_keeps [OF keeps_fresh_lock assms(1)])
     apply (rule wp_keeps [OF keeps_fresh_fchmod], assumption)
      apply (rule wp_mono [OF wp_dup], assumption)
       apply (rule wp_mono [OF fill])
    by auto
qed


section \<open>Publishing\<close>

lemma record_name_dict: "record_name payload us = Inr name \<Longrightarrow> \<exists>d. payload = JObj d"
  by (cases payload) auto

lemma serialize_long: "serialize dep payload = Inr c \<Longrightarrow> \<exists>d. payload = JObj d \<Longrightarrow> 2 \<le> length c"
  by (auto simp: serialize_def json_dumps_def utf8_encode_def split: sum.splits nat.splits if_splits)

locale publish_invariant = record_invariant I free removable for I free removable +
  fixes publishable :: "string \<Rightarrow> string \<Rightarrow> bool"
  assumes publish_link: "I w \<Longrightarrow> publishable d c \<Longrightarrow> temp_name t \<Longrightarrow> staged t c w \<Longrightarrow>
      lookup Root t w = Some i \<Longrightarrow> lookup Root d w = None \<Longrightarrow> I (put_ent Root d i (add_link i w))"
    and publish_rename: "I w \<Longrightarrow> publishable d c \<Longrightarrow> temp_name t \<Longrightarrow> staged t c w \<Longrightarrow>
      lookup Root t w = Some i \<Longrightarrow> lookup Root d w = None \<Longrightarrow> I (put_ent Root d i (del_ent Root t w))"
begin

definition staging :: "string \<Rightarrow> nat \<Rightarrow> world \<Rightarrow> bool" where
  "staging t fd w \<longleftrightarrow> I w \<and> fresh_temp t fd w"

lemma keeps_both: "keeps I m \<Longrightarrow> keeps (fresh_temp t fd) m \<Longrightarrow> keeps (staging t fd) m"
  by (simp add: keeps_def staging_def)

lemma leads_staging: "leads (staging t fd) I (fill_staged t fd c)"
proof -
  have dup: "wp (os_dup fd) (\<lambda>k. staging t k) (\<lambda>_. I) w" if "staging t fd w" for w
  proof -
    have "wp (os_dup fd) (\<lambda>_. I) (\<lambda>_. I) w"
      using that by (intro keeps_wp keeps_os) (simp add: staging_def)
    moreover have "wp (os_dup fd) (\<lambda>k. fresh_temp t k) (\<lambda>_ _. True) w"
      using that by (intro wp_dup) (simp add: staging_def)
    ultimately show ?thesis
      by (rule wp_mono [OF wp_conj]) (simp_all add: staging_def)
  qed
  have fill: "leads (staging t k) I (with_handle k (andthen (os_write k c) (os_fsync k)))" for k
    unfolding with_handle_def
    by (intro leads_try_finally leads_andthen_first leads_weaken [OF leads_write] keeps_intros)
      (auto simp: staging_def small_file_def fresh_temp_def split: option.splits)
  show ?thesis
    unfolding fill_staged_def
    by (intro leads_andthen_next leads_andthen_first leads_bnd [OF dup fill]
        keeps_both keeps_fresh_lock keeps_fresh_fchmod keeps_intros)
      (simp_all add: staging_def)
qed

lemma wp_leads: "leads P I m \<Longrightarrow> P w \<Longrightarrow> wp m (\<lambda>_. I) (\<lambda>_. I) w"
  by (auto simp: leads_def wp_def split: prod.split sum.split dest: spec [of _ w])

lemma wp_write_staged:
  assumes "I w" and c: "2 \<le> length c"
  shows "wp (write_staged sp c) (\<lambda>(t, fd) v. I v \<and> staged t c v \<and> temp_name t) (\<lambda>_. I) w"
proof -
  have hidden: "free Root n" if "temp_name n" for n
    using that by (intro hidden_free temp_name_facts)
  have release: "wp (release_artifact_guard sp Root n) (\<lambda>_. I) (\<lambda>_. I) v" if "I v" for v n
    using that by (rule keeps_wp [OF keeps_release_guard])
  have make: "wp (os_mkstemp Root ''.spool-'' ''.tmp'')
      (\<lambda>(fd, t) v. staging t fd v \<and> temp_name t) (\<lambda>_. I) v" if "I v" for v
  proof -
    have "keeps I (os_mkstemp Root ''.spool-'' ''.tmp'')"
      by (intro keeps_mkstemp hidden) (auto simp: temp_name_def)
    from wp_conj [OF keeps_wp [OF this that] wp_fresh_temp] show ?thesis
      by (rule wp_mono) (auto simp: staging_def temp_name_def)
  qed
  have give_up: "wp (suppress any_exn
            (try_finally (close_locked_descriptor_with_retry fd)
               (try_finally (unlink_if_exists Root t)
                  (release_artifact_guard sp Root ''.spool-'')))) (\<lambda>_. I) (\<lambda>_. I) v"
    if "I v" "temp_name t" for v t fd
    using that by (intro keeps_wp keeps_intros keeps_unlink_name hidden)
  have fill: "wp (fill_staged t fd c) (\<lambda>(t, fd) v. I v \<and> staged t c v \<and> temp_name t) (\<lambda>_. I) v"
    if "staging t fd v" "temp_name t" for t fd v
  proof -
    from that have "fresh_temp t fd v" by (simp add: staging_def)
    from wp_conj [OF wp_leads [OF leads_staging that(1)] wp_staging [OF this c that(2)]]
    show ?thesis by (rule wp_mono) (use that in auto)
  qed
  have rest: "wp (on_error (fill_staged t fd c)
         (suppress any_exn
            (try_finally (close_locked_descriptor_with_retry fd)
               (try_finally (unlink_if_exists Root t)
                  (release_artifact_guard sp Root ''.spool-'')))))
       (\<lambda>(t, fd) v. I v \<and> staged t c v \<and> temp_name t) (\<lambda>_. I) v"
    if "staging t fd v" "temp_name t" for t fd v
    unfolding wp_on_error
    by (rule wp_mono [OF fill [OF that]]) (use give_up that in \<open>auto simp del: wp_suppress\<close>)
  have "wp (bnd (on_error (os_mkstemp Root ''.spool-'' ''.tmp'') (release_artifact_guard sp Root ''.spool-''))
         (\<lambda>(fd, temporary).
       on_error (fill_staged temporary fd c)
         (suppress any_exn
            (try_finally (close_locked_descriptor_with_retry fd)
               (try_finally (unlink_if_exists Root temporary)
                  (release_artifact_guard sp Root ''.spool-''))))))
       (\<lambda>(t, fd) v. I v \<and> staged t c v \<and> temp_name t) (\<lambda>_. I) v" if "I v" for v
    unfolding wp_bnd wp_on_error [where m = "os_mkstemp _ _ _"]
    by (rule wp_mono [OF make [OF that]]) (auto intro: release rest split: prod.splits)
  then show ?thesis
    unfolding write_staged_def wp_bnd
    by (intro wp_keeps [OF keeps_acquire_guard assms(1)]) (simp_all only: wp_if wp_throw wp_bnd simp_thms split: if_split)
qed


definition ready :: "string \<Rightarrow> string \<Rightarrow> world \<Rightarrow> bool" where
  "ready t c w \<longleftrightarrow> I w \<and> staged t c w"

lemma keeps_ready: "keeps I m \<Longrightarrow> keeps (staged t c) m \<Longrightarrow> keeps (ready t c) m"
  by (simp add: keeps_def ready_def)

text \<open>What holds when publishing fails: a name already taken leaves the staged file as it was.\<close>

definition unpublished :: "string \<Rightarrow> string \<Rightarrow> exn \<Rightarrow> world \<Rightarrow> bool" where
  "unpublished t c e w \<longleftrightarrow> I w \<and> (e = OSError EEXIST \<longrightarrow> staged t c w)"

lemma ready_quiet: "2 \<le> length c \<Longrightarrow> temp_name t \<Longrightarrow> quiet m \<Longrightarrow> keeps (ready t c) m"
  by (intro keeps_ready keeps_quiet file_invariant.keeps_quiet [OF name_invariant.axioms(1)
        [OF staged_invariant]])

lemma io_error_only:
  "wp (os_close_dir d) (\<lambda>_ _. True) (\<lambda>e _. e \<noteq> OSError EEXIST) w"
  "wp (os_open_dir d) (\<lambda>_ _. True) (\<lambda>e _. e \<noteq> OSError EEXIST) w"
  "wp (os_fsync_dir d) (\<lambda>_ _. True) (\<lambda>e _. e \<noteq> OSError EEXIST) w"
  "wp (os_unlink d n) (\<lambda>_ _. True) (\<lambda>e _. e \<noteq> OSError EEXIST) w"
  by (auto simp: wp_def os_close_dir_def os_open_dir_def os_fsync_dir_def os_unlink_def syscall_def
      ret_def modify_def split: list.split fault.split option.split)

lemma wp_fsync_directory:
  assumes "I w"
  shows "wp (fsync_directory d) (\<lambda>_. I) (\<lambda>e v. I v \<and> e \<noteq> OSError EEXIST) w"
proof -
  have "wp (fsync_directory d) (\<lambda>_ _. True) (\<lambda>e _. e \<noteq> OSError EEXIST) w"
    unfolding fsync_directory_def is_posix_def
    by (simp add: wp_simps)
      (auto intro!: wp_mono [OF io_error_only(1)] wp_mono [OF io_error_only(2)]
        wp_mono [OF io_error_only(3)] simp: wp_simps)
  from wp_conj [OF keeps_wp [OF keeps_fsync_directory assms] this] show ?thesis
    by (rule wp_mono) auto
qed

lemma ready_faults: "ready t c w \<Longrightarrow> faults w \<noteq> [] \<Longrightarrow> ready t c (w\<lparr>faults := fs\<rparr>)"
  using keeps_faults by (simp add: ready_def staged_def cong: option.case_cong)

lemma ready_unpublished: "ready t c w \<Longrightarrow> unpublished t c e w"
  by (simp add: ready_def unpublished_def)

lemma wp_publish_rename:
  assumes "ready t c w" and "publishable d c" and "temp_name t"
  shows "wp (os_rename_noreplace Root t Root d) (\<lambda>_. I) (\<lambda>_. ready t c) w"
  unfolding os_rename_noreplace_def
  by (rule wp_syscall_from [of "ready t c", OF assms(1) _ ready_faults])
    (use assms(2,3) in \<open>auto simp: wp_def ready_def split: option.split intro: publish_rename\<close>)

lemma wp_publish_link:
  assumes "ready t c w" and "publishable d c" and "temp_name t"
  shows "wp (os_link Root t Root d) (\<lambda>_. I) (\<lambda>_. ready t c) w"
  unfolding os_link_def
  by (rule wp_syscall_from [of "ready t c", OF assms(1) _ ready_faults])
    (use assms(2,3) in \<open>auto simp: wp_def ready_def split: option.split intro: publish_link\<close>)

lemma wp_publish_unlink:
  assumes "I w" and "temp_name t"
  shows "wp (os_unlink Root t) (\<lambda>_. I) (unpublished t c) w"
proof -
  have "keeps I (os_unlink Root t)"
    by (intro keeps_unlink hidden_free temp_name_facts assms(2))
  from wp_conj [OF keeps_wp [OF this assms(1)] io_error_only(4)] show ?thesis
    by (rule wp_mono) (auto simp: unpublished_def)
qed

lemma wp_publish_moves:
  assumes "ready t c w" and d: "publishable d c" and t: "temp_name t"
  shows "wp (bnd (gets linux) (\<lambda>lx.
      bnd (if lx then linux_rename_noreplace Root t Root d else ret False) (\<lambda>done.
      if done then ret () else andthen (os_link Root t Root d) (os_unlink Root t))))
      (\<lambda>_. I) (unpublished t c) w"
proof -
  have pair: "wp (andthen (os_link Root t Root d) (os_unlink Root t)) (\<lambda>_. I) (unpublished t c) v"
    if "ready t c v" for v
    unfolding wp_andthen
    by (rule wp_mono [OF wp_publish_link [OF that d t]]) (auto intro: wp_publish_unlink t ready_unpublished)
  have linux: "wp (linux_rename_noreplace Root t Root d)
      (\<lambda>done v. if done then I v else ready t c v) (\<lambda>_. ready t c) v" if "ready t c v" for v
    unfolding linux_rename_noreplace_def using that d t
    by (auto simp: wp_simps intro!: wp_mono [OF wp_publish_rename])
  show ?thesis
    unfolding wp_bnd wp_gets using assms(1)
    by (auto simp: wp_if wp_ret wp_bnd intro!: wp_mono [OF linux] pair ready_unpublished split: if_split)
qed

lemma wp_publish_closes:
  assumes c: "2 \<le> length c" and t: "temp_name t"
  shows "I w \<Longrightarrow> wp (andthen (os_close_dir d) (os_close_dir e)) (\<lambda>_. I) (unpublished t c) w"
    and "unpublished t c x w \<Longrightarrow>
      wp (andthen (os_close_dir d) (os_close_dir e)) (\<lambda>_. unpublished t c x) (unpublished t c) w"
proof -
  have one: "wp (os_close_dir e) (\<lambda>_. I) (unpublished t c) v" if "I v" for e v
    by (rule wp_mono [OF wp_conj [OF keeps_wp [OF keeps_calm_os(6) that] io_error_only(1)]])
      (auto simp: unpublished_def)
  have two: "wp (os_close_dir e) (\<lambda>_. unpublished t c x) (unpublished t c) v" if "unpublished t c x v" for e v x
  proof (cases "x = OSError EEXIST")
    case True
    with that have "ready t c v" by (simp add: unpublished_def ready_def)
    from keeps_wp [OF ready_quiet [OF c t quiet_os(5)] this] show ?thesis
      by (rule wp_mono) (auto intro: ready_unpublished)
  next
    case False
    from that have "I v" by (simp add: unpublished_def)
    from one [OF this] show ?thesis
      by (rule wp_mono) (use False in \<open>auto simp: unpublished_def\<close>)
  qed
  show "I w \<Longrightarrow> wp (andthen (os_close_dir d) (os_close_dir e)) (\<lambda>_. I) (unpublished t c) w"
    unfolding wp_andthen by (rule wp_mono [OF one]) (auto intro: one)
  show "unpublished t c x w \<Longrightarrow>
      wp (andthen (os_close_dir d) (os_close_dir e)) (\<lambda>_. unpublished t c x) (unpublished t c) w"
    unfolding wp_andthen by (rule wp_mono [OF two]) (auto intro: two)
qed

lemma wp_publish:
  assumes "ready t c w" and d: "publishable d c" and c: "2 \<le> length c" and t: "temp_name t"
  shows "wp (publish_noreplace Root t Root d) (\<lambda>_. I) (unpublished t c) w"
proof -
  have body: "wp (try_finally (bnd (gets linux) (\<lambda>lx.
      bnd (if lx then linux_rename_noreplace Root t Root d else ret False) (\<lambda>done.
      if done then ret () else andthen (os_link Root t Root d) (os_unlink Root t))))
      (andthen (os_close_dir Root) (os_close_dir Root))) (\<lambda>_. I) (unpublished t c) v" if "ready t c v" for v
    unfolding wp_try_finally
    by (rule wp_mono [OF wp_publish_moves [OF that d t]]) (auto intro: wp_publish_closes [OF c t])
  have opened: "wp (os_open_dir Root) (\<lambda>_. ready t c) (unpublished t c) v" if "ready t c v" for v
    by (rule wp_mono [OF keeps_wp [OF ready_quiet [OF c t quiet_os(4)] that]]) (auto intro: ready_unpublished)
  have "wp (andthen (os_open_dir Root) (andthen (os_open_dir Root)
      (try_finally (bnd (gets linux) (\<lambda>lx.
        bnd (if lx then linux_rename_noreplace Root t Root d else ret False) (\<lambda>done.
        if done then ret () else andthen (os_link Root t Root d) (os_unlink Root t))))
        (andthen (os_close_dir Root) (os_close_dir Root))))) (\<lambda>_. I) (unpublished t c) w"
    using assms(1) body unfolding wp_andthen [of "os_open_dir _"]
    by (intro wp_mono [OF opened] wp_mono [OF opened]) auto
  moreover have "wp (os_rename_noreplace Root t Root d) (\<lambda>_. I) (unpublished t c) w"
    by (rule wp_mono [OF wp_publish_rename [OF assms(1) d t]]) (auto intro: ready_unpublished)
  ultimately show ?thesis
    unfolding publish_noreplace_def is_posix_def wp_bnd [of "gets _"] wp_gets
    by (simp only: split: if_split) simp
qed

lemma ready_reservation:
  assumes "2 \<le> length c" and "temp_name t" and n: "starts_with n ''.publish-''"
  shows "keeps (ready t c) (acquire_reservation sp Root n)" and "keeps (ready t c) (release_reservation sp Root n r)"
proof -
  have hidden: "free Root n" using n by (intro hidden_free) (auto simp: starts_with_iff)
  have other: "(Root, n) \<noteq> (Root, t)"
    using n temp_name_facts(3) [OF assms(2)] by (auto simp: starts_with_iff)
  note staged = name_invariant.keeps_reservation [OF staged_invariant [OF assms(1,2)] other]
  show "keeps (ready t c) (acquire_reservation sp Root n)" "keeps (ready t c) (release_reservation sp Root n r)"
    by (intro keeps_ready keeps_reservation hidden staged)+
qed

lemma wp_publish_reserved:
  assumes "ready t c w" and c: "2 \<le> length c" and t: "temp_name t" and d: "publishable d c"
    and n: "starts_with n ''.publish-''"
  shows "wp (publish_reserved sp t d n fd) (\<lambda>r. if r = None then ready t c else I) (\<lambda>_. I) w"
proof -
  have hidden: "free Root n" using n by (intro hidden_free) (auto simp: starts_with_iff)
  have body: "wp (andthen (publish_noreplace Root t Root d) (fsync_directory Root)) (\<lambda>_. I) (unpublished t c) w"
    unfolding wp_andthen
    by (rule wp_mono [OF wp_publish [OF assms(1) d c t]])
      (auto intro!: wp_mono [OF wp_fsync_directory] simp: unpublished_def)
  have rel: "wp (release_reservation sp Root n r) (\<lambda>_. I) (\<lambda>_. I) v" if "I v" for v r
    using that by (intro keeps_wp keeps_reservation hidden)
  have rel': "wp (release_reservation sp Root n r) (\<lambda>_. ready t c) (\<lambda>_. I) v"
    if "I v" "staged t c v" for v r
    by (rule wp_keeps [OF ready_reservation(2) [OF c t n]]) (use that in \<open>auto simp: ready_def\<close>)
  have drop: "wp (try_finally
                (suppress any_exn (close_locked_descriptor_with_retry fd))
                (suppress any_exn (release_artifact_guard sp Root n)))
       (\<lambda>_. I) (\<lambda>_. I) v" if "I v" for v
    using that by (intro keeps_wp keeps_intros)
  show ?thesis
    unfolding publish_reserved_def wp_try_else
    by (rule wp_mono [OF body])
      (auto simp: wp_andthen wp_ends wp_if is_FileExistsError_def unpublished_def
        simp del: wp_suppress intro: rel rel' drop)
qed

lemma wp_publish_attempt:
  assumes "ready t c w" and c: "2 \<le> length c" and t: "temp_name t"
    and d: "\<And>d. numbered_name name k = Inr d \<Longrightarrow> publishable d c"
  shows "wp (publish_attempt sp t name k) (\<lambda>r. if r = None then ready t c else I) (\<lambda>_. I) w"
proof -
  have weaken: "I v" if "ready t c v" for v using that by (simp add: ready_def)
  have res: "starts_with (publish_reservation_name h d) ''.publish-''" for h d
    by (simp add: publish_reservation_name_def starts_with_def)
  have "wp (bnd (acquire_reservation sp Root (publish_reservation_name (sha sp) d)) (\<lambda>r.
      case r of None \<Rightarrow> ret None
      | Some fd \<Rightarrow> publish_reserved sp t d (publish_reservation_name (sha sp) d) fd))
      (\<lambda>r. if r = None then ready t c else I) (\<lambda>_. I) w" if "publishable d c" for d
    unfolding wp_bnd
    by (rule wp_mono [OF keeps_wp [OF ready_reservation(1) [OF c t res] assms(1)]])
      (auto simp: wp_ends weaken intro: wp_publish_reserved c t res that split: option.split)
  then show ?thesis
    unfolding publish_attempt_def wp_bnd [of "lift_result _"] Let_def wp_lift_result
    using d weaken [OF assms(1)] by (auto split: sum.split)
qed

lemma wp_publish_loop:
  assumes "ready t c w" and c: "2 \<le> length c" and t: "temp_name t"
    and d: "\<And>d k. numbered_name name k = Inr d \<Longrightarrow> publishable d c"
  shows "wp (for_range m k (publish_attempt sp t name)) (\<lambda>_. I) (\<lambda>_. I) w"
  using assms(1)
proof (induction m arbitrary: k w)
  case 0
  then show ?case by (simp add: wp_ends ready_def)
next
  case (Suc m)
  show ?case
    unfolding for_range.simps wp_bnd
    by (rule wp_mono [OF wp_publish_attempt [OF Suc.prems c t d]])
      (auto simp: wp_ends intro: Suc.IH split: if_splits option.split)
qed

lemma leads_publish_staged:
  assumes "2 \<le> length c" and "temp_name t" and "\<And>d k. numbered_name name k = Inr d \<Longrightarrow> publishable d c"
  shows "leads (ready t c) I (publish_staged sp t name)"
  unfolding publish_staged_def
  by (rule leads_bnd [OF wp_publish_loop [OF _ assms]])
    (auto intro!: keeps_intros simp: leads_keeps)

lemma keeps_discard [keeps_intros]: "temp_name t \<Longrightarrow> keeps I (discard_staged sp t fd)"
  unfolding discard_staged_def
  by (intro keeps_intros keeps_unlink_name hidden_free temp_name_facts)

lemma leads_publish_record:
  assumes c: "2 \<le> length c" and t: "temp_name t"
    and d: "\<And>d k. numbered_name name k = Inr d \<Longrightarrow> publishable d c"
  shows "leads (ready t c) I (publish_record sp name t fd)"
proof -
  have posix: "keeps (ready t c) is_posix"
    unfolding is_posix_def by (rule keeps_gets)
  have closing: "wp (if posix then ret (Some fd)
        else on_error (andthen (close_locked_descriptor fd) (ret None))
               (discard_staged sp t (Some fd))) (\<lambda>_. ready t c) (\<lambda>_. I) w" if "ready t c w" for w posix
  proof -
    have "keeps (ready t c) (close_locked_descriptor fd)"
      by (intro keeps_ready keeps_unlock file_invariant.keeps_unlock [OF name_invariant.axioms(1)
          [OF staged_invariant [OF c t]]])
    moreover have "wp (discard_staged sp t (Some fd)) (\<lambda>_. I) (\<lambda>_. I) v" if "I v" for v
      using that t by (intro keeps_wp keeps_discard)
    ultimately show ?thesis
      using that by (auto simp: wp_simps wp_ends wp_on_error ready_def elim!: wp_keeps)
  qed
  show ?thesis
    unfolding publish_record_def
    by (rule leads_bnd_next [OF posix], simp add: ready_def, rule leads_bnd [OF closing], assumption)
      (intro leads_bnd_first leads_on_error leads_publish_staged [OF c t d] keeps_intros t)
qed

lemma keeps_enqueue:
  assumes publishable: "\<And>name c k d us. record_name payload us = Inr name \<Longrightarrow> numbered_name name k = Inr d \<Longrightarrow>
      serialize (depth_limit sp) payload = Inr c \<Longrightarrow> publishable d c"
    and removable: "\<And>n. removable n"
  shows "keeps I (enqueue sp payload n)"
  unfolding enqueue_def
proof (rule keeps_bnd [OF keeps_timestamp(1)], rule keeps_lift, rule keeps_lift,
    rule keeps_andthen [OF keeps_prepare], rule keeps_bnd_leads)
  fix us name c w
  assume name: "record_name payload us = Inr name" and c: "serialize (depth_limit sp) payload = Inr c"
  from record_name_dict [OF name] serialize_long c have long: "2 \<le> length c" by blast
  show "wp (write_staged sp c) (\<lambda>x w. ready (fst x) c w \<and> temp_name (fst x)) (\<lambda>_. I) w" if "I w"
    by (rule wp_mono [OF wp_write_staged [OF that long]]) (auto simp: ready_def)
  fix x :: "string \<times> nat"
  show "leads (\<lambda>w. ready (fst x) c w \<and> temp_name (fst x)) I (case x of (temporary, fd) \<Rightarrow>
      bnd (publish_record sp name temporary fd) (\<lambda>destination.
      andthen (enforce_retention sp (Aware us)) (ret destination)))"
  proof (cases "temp_name (fst x)")
    case True
    obtain t fd where x: "x = (t, fd)" by (cases x)
    with True have "leads (ready t c) I (bnd (publish_record sp name t fd) (\<lambda>destination.
        andthen (enforce_retention sp (Aware us)) (ret destination)))"
      by (intro leads_bnd_first leads_publish_record [OF long] keeps_intros keeps_retention removable
          publishable [OF name _ c]) simp_all
    with x True show ?thesis by (simp add: leads_def)
  qed (simp add: leads_def)
qed

end


section \<open>What a published name leads to\<close>

interpretation anything: publish_invariant "\<lambda>_. True" "\<lambda>_ _. True" "\<lambda>_. True" "\<lambda>_ _. True"
  by unfold_locales auto

lemma wp_true: "wp m (\<lambda>_ _. True) (\<lambda>_ _. True) w"
  by (simp add: wp_def split: prod.split sum.split)

lemma visible_not_guard: "\<not> starts_with d ''.'' \<Longrightarrow> \<not> starts_with d guard_prefix"
  by (auto simp: starts_with_iff guard_prefix_def)

lemma published_keeps:
  assumes "2 \<le> length c" and "\<not> starts_with d ''.''" and "staged d c w"
  shows "quiet m \<Longrightarrow> wp m (\<lambda>_. staged d c) (\<lambda>_ _. True) w"
    and "starts_with n ''.'' \<Longrightarrow> wp (os_unlink Root n) (\<lambda>_. staged d c) (\<lambda>_ _. True) w"
    and "starts_with n ''.'' \<Longrightarrow> wp (release_reservation sp Root n r) (\<lambda>_. staged d c) (\<lambda>_ _. True) w"
    and "wp (fsync_directory e) (\<lambda>_. staged d c) (\<lambda>_ _. True) w"
proof -
  note inv = named_invariant [OF assms(1) visible_not_guard [OF assms(2)]]
  note base = name_invariant.axioms(1) [OF inv]
  have other: "(Root, n) \<noteq> (Root, d)" if "starts_with n ''.''" for n using that assms(2) by auto
  have from_keeps: "wp m (\<lambda>_. staged d c) (\<lambda>_ _. True) w" if "keeps (staged d c) m" for m :: "'x io"
    by (rule wp_mono [OF keeps_wp [OF that assms(3)]]) auto
  show "quiet m \<Longrightarrow> wp m (\<lambda>_. staged d c) (\<lambda>_ _. True) w"
    by (intro from_keeps file_invariant.keeps_quiet [OF base])
  show "starts_with n ''.'' \<Longrightarrow> wp (os_unlink Root n) (\<lambda>_. staged d c) (\<lambda>_ _. True) w"
    by (intro from_keeps name_invariant.keeps_unlink [OF inv] other)
  show "starts_with n ''.'' \<Longrightarrow> wp (release_reservation sp Root n r) (\<lambda>_. staged d c) (\<lambda>_ _. True) w"
    by (intro from_keeps name_invariant.keeps_reservation(2) [OF inv] other)
  show "wp (fsync_directory e) (\<lambda>_. staged d c) (\<lambda>_ _. True) w"
    by (intro from_keeps file_invariant.keeps_fsync_directory [OF base])
qed

lemma staged_faults: "staged t c w \<Longrightarrow> staged t c (w\<lparr>faults := fs\<rparr>)"
  by (simp add: staged_def cong: option.case_cong)

lemma wp_move_staged:
  assumes "staged t c w" and "temp_name t" and "\<not> starts_with d ''.''"
  shows "wp (os_rename_noreplace Root t Root d) (\<lambda>_. staged d c) (\<lambda>_. staged t c) w"
    and "wp (os_link Root t Root d) (\<lambda>_. staged d c) (\<lambda>_. staged t c) w"
proof -
  show "wp (os_rename_noreplace Root t Root d) (\<lambda>_. staged d c) (\<lambda>_. staged t c) w"
    unfolding os_rename_noreplace_def
    by (rule wp_syscall_from [of "staged t c", OF assms(1) _ staged_faults])
      (auto simp: wp_def staged_def lookup_put_ent lookup_del_ent split: option.splits)
  show "wp (os_link Root t Root d) (\<lambda>_. staged d c) (\<lambda>_. staged t c) w"
    unfolding os_link_def
    by (rule wp_syscall_from [of "staged t c", OF assms(1) _ staged_faults])
      (auto simp: wp_def staged_def lookup_put_ent split: option.splits)
qed

lemma wp_published:
  assumes c: "2 \<le> length c" and t: "temp_name t" and d: "\<not> starts_with d ''.''" and "staged t c w"
  shows "wp (publish_noreplace Root t Root d) (\<lambda>_. staged d c) (\<lambda>_ _. True) w"
proof -
  note keep = published_keeps [OF c d]
  have ren: "wp (os_rename_noreplace Root t Root d) (\<lambda>_. staged d c) (\<lambda>_ _. True) v" if "staged t c v" for v
    by (rule wp_mono [OF wp_move_staged(1) [OF that t d]]) auto
  have pair: "wp (andthen (os_link Root t Root d) (os_unlink Root t)) (\<lambda>_. staged d c) (\<lambda>_ _. True) v"
    if "staged t c v" for v
    unfolding wp_andthen
    by (rule wp_mono [OF wp_move_staged(2) [OF that t d]]) (auto intro: keep(2) temp_name_facts t)
  have linux: "wp (linux_rename_noreplace Root t Root d)
      (\<lambda>done v. if done then staged d c v else staged t c v) (\<lambda>_ _. True) v" if "staged t c v" for v
    unfolding linux_rename_noreplace_def using that t d
    by (auto simp: wp_simps intro!: wp_mono [OF wp_move_staged(1)])
  have closes: "wp (andthen (os_close_dir Root) (os_close_dir Root)) (\<lambda>_. staged d c) (\<lambda>_ _. True) v"
    if "staged d c v" for v
    unfolding wp_andthen by (rule wp_mono [OF keep(1) [OF that quiet_os(5)]]) (auto intro: keep(1) quiet_os)
  have move: "wp (bnd (gets linux) (\<lambda>lx.
        bnd (if lx then linux_rename_noreplace Root t Root d else ret False) (\<lambda>done.
        if done then ret () else andthen (os_link Root t Root d) (os_unlink Root t))))
      (\<lambda>_. staged d c) (\<lambda>_ _. True) v" if "staged t c v" for v
    unfolding wp_bnd wp_gets using that
    by (auto simp: wp_if wp_ret wp_bnd intro!: wp_mono [OF linux] pair split: if_split)
  have body: "wp (try_finally (bnd (gets linux) (\<lambda>lx.
        bnd (if lx then linux_rename_noreplace Root t Root d else ret False) (\<lambda>done.
        if done then ret () else andthen (os_link Root t Root d) (os_unlink Root t))))
        (andthen (os_close_dir Root) (os_close_dir Root))) (\<lambda>_. staged d c) (\<lambda>_ _. True) v" if "staged t c v" for v
    unfolding wp_try_finally
    by (rule wp_mono [OF move [OF that]]) (auto intro: closes wp_true)
  have opened: "wp (os_open_dir Root) (\<lambda>_. staged t c) (\<lambda>_ _. True) v" if "staged t c v" for v
    by (rule wp_keeps [OF file_invariant.keeps_quiet [OF name_invariant.axioms(1) [OF staged_invariant [OF c t]]
        quiet_os(4)] that]) auto
  have "wp (andthen (os_open_dir Root) (andthen (os_open_dir Root)
      (try_finally (bnd (gets linux) (\<lambda>lx.
        bnd (if lx then linux_rename_noreplace Root t Root d else ret False) (\<lambda>done.
        if done then ret () else andthen (os_link Root t Root d) (os_unlink Root t))))
        (andthen (os_close_dir Root) (os_close_dir Root))))) (\<lambda>_. staged d c) (\<lambda>_ _. True) w"
    using assms(4) body unfolding wp_andthen [of "os_open_dir _"]
    by (intro wp_mono [OF opened] wp_mono [OF opened]) auto
  with ren [OF assms(4)] show ?thesis
    unfolding publish_noreplace_def is_posix_def wp_bnd [of "gets _"] wp_gets
    by (simp only: split: if_split) simp
qed

lemma wp_publish_reserved_done:
  assumes c: "2 \<le> length c" and t: "temp_name t" and d: "\<not> starts_with d ''.''" and w: "staged t c w"
    and n: "starts_with n ''.publish-''"
  shows "wp (publish_reserved sp t d n fd)
    (\<lambda>r v. if r = None then staged t c v else r = Some d \<and> staged d c v) (\<lambda>_ _. True) w"
proof -
  have hidden: "starts_with n ''.''" using n by (auto simp: starts_with_iff)
  note keep = published_keeps [OF c d]
  have body: "wp (andthen (publish_noreplace Root t Root d) (fsync_directory Root)) (\<lambda>_. staged d c) (\<lambda>_ _. True) w"
    unfolding wp_andthen by (rule wp_mono [OF wp_published [OF c t d w]]) (auto intro: keep(4))
  have "wp (publish_reserved sp t d n fd)
      (\<lambda>r v. r \<noteq> None \<longrightarrow> r = Some d \<and> staged d c v) (\<lambda>_ _. True) w"
    unfolding publish_reserved_def wp_try_else
  proof (rule wp_mono [OF body])
    fix v
    assume "staged d c v"
    from keep(3) [OF this hidden]
    show "wp (andthen (release_reservation sp Root n (Some fd)) (ret (Some d)))
        (\<lambda>r v. r \<noteq> None \<longrightarrow> r = Some d \<and> staged d c v) (\<lambda>_ _. True) v"
      by (auto simp: wp_andthen wp_ends elim!: wp_mono)
  qed (auto simp: wp_andthen wp_ends wp_if intro: wp_true)
  moreover have "wp (publish_reserved sp t d n fd)
      (\<lambda>r. if r = None then anything.ready t c else (\<lambda>_. True)) (\<lambda>_ _. True) w"
    by (rule anything.wp_publish_reserved [OF _ c t _ n]) (simp_all add: anything.ready_def w)
  ultimately show ?thesis
    by (rule wp_mono [OF wp_conj]) (auto simp: anything.ready_def split: if_splits)
qed

lemma wp_publish_staged_done:
  assumes c: "2 \<le> length c" and t: "temp_name t" and w: "staged t c w"
    and visible: "\<And>d k. numbered_name name k = Inr d \<Longrightarrow> \<not> starts_with d ''.''"
  shows "wp (publish_staged sp t name)
    (\<lambda>d v. (\<exists>k. numbered_name name k = Inr d) \<and> staged d c v) (\<lambda>_ _. True) w"
proof -
  let ?done = "\<lambda>r v. case r of None \<Rightarrow> staged t c v
    | Some d \<Rightarrow> (\<exists>k. numbered_name name k = Inr d) \<and> staged d c v"
  have attempt: "wp (publish_attempt sp t name k) ?done (\<lambda>_ _. True) v" if v: "staged t c v" for k v
  proof (cases "numbered_name name k")
    case (Inr d)
    let ?n = "publish_reservation_name (sha sp) d"
    have n: "starts_with ?n ''.publish-''" by (simp add: publish_reservation_name_def starts_with_def)
    then have other: "(Root, ?n) \<noteq> (Root, t)"
      using temp_name_facts(3) [OF t] by (auto simp: starts_with_iff)
    have "keeps (staged t c) (acquire_reservation sp Root ?n)"
      by (rule name_invariant.keeps_reservation(1) [OF staged_invariant [OF c t] other])
    from keeps_wp [OF this v] have "wp (acquire_reservation sp Root ?n)
        (\<lambda>r. wp (case r of None \<Rightarrow> ret None | Some fd \<Rightarrow> publish_reserved sp t d ?n fd) ?done (\<lambda>_ _. True))
        (\<lambda>_ _. True) v"
    proof (rule wp_mono)
      fix r u
      assume u: "staged t c u"
      show "wp (case r of None \<Rightarrow> ret None | Some fd \<Rightarrow> publish_reserved sp t d ?n fd) ?done (\<lambda>_ _. True) u"
      proof (cases r)
        case (Some fd)
        show ?thesis
          unfolding Some option.case
          by (rule wp_mono [OF wp_publish_reserved_done [OF c t visible [OF Inr] u n]])
              (use Inr in \<open>auto split: option.splits if_splits\<close>)
      qed (simp add: wp_ends u)
    qed simp
    then show ?thesis
      by (simp add: publish_attempt_def wp_bnd wp_lift_result Inr Let_def)
  qed (simp add: publish_attempt_def wp_bnd wp_lift_result)
  have loop: "wp (for_range m k (publish_attempt sp t name)) ?done (\<lambda>_ _. True) v" if "staged t c v" for m k v
    using that
  proof (induction m arbitrary: k v)
    case (Suc m)
    show ?case
      unfolding for_range.simps wp_bnd
    proof (rule wp_mono [OF attempt [OF Suc.prems]])
      fix r u
      assume "?done r u"
      then show "wp (case r of None \<Rightarrow> for_range m (Suc k) (publish_attempt sp t name) | Some y \<Rightarrow> ret (Some y))
          ?done (\<lambda>_ _. True) u"
        by (cases r) (simp_all add: wp_ends Suc.IH)
    qed simp
  qed (simp add: wp_ends)
  show ?thesis
    unfolding publish_staged_def wp_bnd
    by (rule wp_mono [OF loop [OF w]]) (auto simp: wp_ends split: option.splits)
qed

text \<open>The name \<open>publish_record\<close> returns leads to a flushed file with all the bytes.\<close>

lemma wp_publish_record_done:
  assumes c: "2 \<le> length c" and t: "temp_name t" and w: "staged t c w"
    and visible: "\<And>d k. numbered_name name k = Inr d \<Longrightarrow> \<not> starts_with d ''.''"
  shows "wp (publish_record sp name t fd)
    (\<lambda>d v. (\<exists>k. numbered_name name k = Inr d) \<and> staged d c v) (\<lambda>_ _. True) w"
proof -
  note base = name_invariant.axioms(1) [OF staged_invariant [OF c t]]
  have closing: "wp (if posix then ret (Some fd)
        else on_error (andthen (close_locked_descriptor fd) (ret None))
               (discard_staged sp t (Some fd))) (\<lambda>_. staged t c) (\<lambda>_ _. True) v" if "staged t c v" for v posix
    using that by (auto simp: wp_ends wp_on_error wp_andthen wp_if intro: wp_true
        intro!: wp_keeps [OF file_invariant.keeps_unlock(2) [OF base]])
  have tidy: "wp (try_finally
          (case x of None \<Rightarrow> ret () | Some fd \<Rightarrow> close_locked_descriptor_with_retry fd)
          (release_artifact_guard sp Root ''.spool-'')) (\<lambda>_. staged d c) (\<lambda>_ _. True) v"
    if "staged d c v" "\<not> starts_with d ''.''" for d v x
  proof -
    note inv = named_invariant [OF c visible_not_guard [OF that(2)]]
    have "keeps (staged d c) (try_finally
          (case x of None \<Rightarrow> ret () | Some fd \<Rightarrow> close_locked_descriptor_with_retry fd)
          (release_artifact_guard sp Root ''.spool-''))"
      by (intro keeps_intros file_invariant.keeps_unlock [OF name_invariant.axioms(1) [OF inv]]
          name_invariant.keeps_release_guard [OF inv])
    from keeps_wp [OF this that(1)] show ?thesis by (rule wp_mono) auto
  qed
  have publish: "wp (on_error (publish_staged sp t name) (discard_staged sp t x))
      (\<lambda>d v. (\<exists>k. numbered_name name k = Inr d) \<and> staged d c v) (\<lambda>_ _. True) v" if "staged t c v" for v x
    unfolding wp_on_error
    by (rule wp_mono [OF wp_publish_staged_done [OF c t that visible]]) (auto intro: wp_true)
  show ?thesis
    unfolding publish_record_def is_posix_def wp_bnd wp_gets
    by (rule wp_mono [OF closing [OF w]], rule wp_mono [OF publish], assumption)
      (auto simp: wp_andthen wp_ends dest: visible intro!: wp_mono [OF tidy])
qed

end
