(* ===== verification/Spool_Safety.thy ===== *)
theory Spool_Safety
  imports Publication
begin

text \<open>
  What the spool guarantees whatever fails: interpretations of the locales of \<open>Frames\<close> and
  \<open>Publication\<close> on four properties of the world, and the histories of a spool as a step
  relation.
\<close>

section \<open>Properties of the world\<close>

abbreviation hidden :: "string \<Rightarrow> bool" where
  "hidden n \<equiv> starts_with n ''.''"

text \<open>Every entry leads to an inode that was created, and no name appears twice.\<close>

definition well_formed :: "world \<Rightarrow> bool" where
  "well_formed w \<longleftrightarrow>
     (\<forall>d n i. lookup d n w = Some i \<longrightarrow> i < next_ino w) \<and> (\<forall>d. distinct (map fst (ents w d)))"

text \<open>Bytes flushed in \<open>u\<close> (a lock byte apart) are still those of the same file in \<open>w\<close>.\<close>

definition contents_kept :: "world \<Rightarrow> world \<Rightarrow> bool" where
  "contents_kept u w \<longleftrightarrow>
     next_ino u \<le> next_ino w \<and>
     (\<forall>i < next_ino u. 2 \<le> length (i_data (inodes u i)) \<longrightarrow> i_synced (inodes u i) \<longrightarrow>
        i_data (inodes w i) = i_data (inodes u i) \<and> i_synced (inodes w i))"

text \<open>The bytes of a record: those \<open>_serialize\<close> gives for an accepted payload.\<close>

definition record_bytes :: "nat \<Rightarrow> string \<Rightarrow> bool" where
  "record_bytes dep c \<longleftrightarrow> (\<exists>payload. valid_payload payload \<and> serialize dep payload = Inr c)"

definition records_complete :: "nat \<Rightarrow> world \<Rightarrow> bool" where
  "records_complete dep w \<longleftrightarrow>
     (\<forall>n i. \<not> hidden n \<longrightarrow> lookup Root n w = Some i \<longrightarrow>
        i < next_ino w \<and> i_kind (inodes w i) = Regular \<and> i_synced (inodes w i) \<and>
        record_bytes dep (i_data (inodes w i)))"

text \<open>The record \<open>n\<close> with bytes \<open>c\<close> is at its name, or at a name of the dead-letter directory.\<close>

definition record_kept :: "string \<Rightarrow> nat \<Rightarrow> string \<Rightarrow> world \<Rightarrow> bool" where
  "record_kept n r c w \<longleftrightarrow>
     \<not> hidden n \<and> 2 \<le> length c \<and>
     r < next_ino w \<and> i_data (inodes w r) = c \<and> i_synced (inodes w r) \<and>
     (lookup Root n w = Some r \<or> (\<exists>d. \<not> hidden d \<and> lookup Dead d w = Some r))"

section \<open>Interpretations\<close>

lemma distinct_put_ent: "(\<And>d. distinct (map fst (ents w d))) \<Longrightarrow> distinct (map fst (ents (put_ent d n i w) e))"
  by (simp add: put_ent_def distinct_update)

lemma distinct_del_ent: "(\<And>d. distinct (map fst (ents w d))) \<Longrightarrow> distinct (map fst (ents (del_ent d n w) e))"
  by (simp add: del_ent_def distinct_delete)

lemma distinct_create_ent:
  "(\<And>d. distinct (map fst (ents w d))) \<Longrightarrow> distinct (map fst (ents (create_ent d n m w) e))"
  by (simp add: create_ent_def put_ent_def set_inode_def distinct_update)

lemma distinct_unlink_ent:
  "(\<And>d. distinct (map fst (ents w d))) \<Longrightarrow> distinct (map fst (ents (unlink_ent d n i w) e))"
  by (simp add: unlink_ent_def del_ent_def drop_link_def set_inode_def distinct_delete)

lemma ents_fields [simp]:
  "ents (set_inode i x w) = ents w" "ents (add_link i w) = ents w" "ents (drop_link i w) = ents w"
  "ents (write_bytes i bs w) = ents w"
  by (simp_all add: set_inode_def add_link_def drop_link_def write_bytes_def)

interpretation wf: publish_invariant well_formed "\<lambda>_ _. True" "\<lambda>_. True" "\<lambda>_ _. True"
proof unfold_locales
  fix w w'
  assume *: "well_formed w" "same_files w w'"
  from *(2) have "ents w' = ents w" by (simp add: same_files_def)
  with * show "well_formed w'" by (simp add: well_formed_def same_files_inodes [OF *(2)])
qed (auto simp: well_formed_def lookup_put_ent lookup_del_ent lookup_create_ent lookup_unlink_ent
  intro!: distinct_put_ent distinct_del_ent distinct_create_ent distinct_unlink_ent split: if_splits
  intro: less_SucI)

interpretation contents: publish_invariant "contents_kept u" "\<lambda>_ _. True" "\<lambda>_. True" "\<lambda>_ _. True" for u
proof unfold_locales
  fix w w'
  assume *: "contents_kept u w" "same_files w w'"
  then show "contents_kept u w'" by (simp add: contents_kept_def same_files_inodes [OF *(2)])
next
  fix w i bs
  assume *: "contents_kept u w" "length (i_data (inodes w i)) \<le> 1"
  show "contents_kept u (write_bytes i bs w)"
    unfolding contents_kept_def
  proof (intro conjI allI impI)
    fix j
    assume j: "j < next_ino u" "2 \<le> length (i_data (inodes u j))" "i_synced (inodes u j)"
    with * have "i_data (inodes w j) = i_data (inodes u j)" "i_synced (inodes w j)"
      by (auto simp: contents_kept_def)
    moreover from this * j have "j \<noteq> i" by auto
    ultimately show "i_data (inodes (write_bytes i bs w) j) = i_data (inodes u j)"
      and "i_synced (inodes (write_bytes i bs w) j)" by simp_all
  qed (use * in \<open>simp add: contents_kept_def\<close>)
qed (auto simp: contents_kept_def create_ent_inodes)

lemma guard_hidden: "starts_with g guard_prefix \<Longrightarrow> hidden g"
  by (auto simp: starts_with_iff guard_prefix_def)

lemma record_bytes_long: "record_bytes dep c \<Longrightarrow> 2 \<le> length c"
proof -
  assume "record_bytes dep c"
  then obtain p where p: "valid_payload p" "serialize dep p = Inr c" by (auto simp: record_bytes_def)
  from p(1) have "\<exists>d. p = JObj d" by (cases p) auto
  with p(2) show ?thesis by (rule serialize_long)
qed

interpretation complete: publish_invariant "records_complete dep" "\<lambda>_ n. hidden n" "\<lambda>_. True"
  "\<lambda>d c. record_bytes dep c" for dep
proof unfold_locales
  fix w w'
  assume *: "records_complete dep w" "same_files w w'"
  then show "records_complete dep w'" by (simp add: records_complete_def same_files_inodes [OF *(2)])
next
  fix w i bs
  assume *: "records_complete dep w" "length (i_data (inodes w i)) \<le> 1"
  show "records_complete dep (write_bytes i bs w)"
    unfolding records_complete_def
  proof (intro allI impI)
    fix n j
    assume "\<not> hidden n" "lookup Root n (write_bytes i bs w) = Some j"
    with *(1) have j: "j < next_ino w" "i_kind (inodes w j) = Regular" "i_synced (inodes w j)"
      "record_bytes dep (i_data (inodes w j))" by (auto simp: records_complete_def)
    with *(2) record_bytes_long have "j \<noteq> i" by fastforce
    with j show "j < next_ino (write_bytes i bs w) \<and> i_kind (inodes (write_bytes i bs w) j) = Regular \<and>
      i_synced (inodes (write_bytes i bs w) j) \<and> record_bytes dep (i_data (inodes (write_bytes i bs w) j))"
      by simp
  qed
next
  fix w n d i
  assume *: "records_complete dep w" "movable n d" "lookup Root n w = Some i" "lookup Dead d w = None"
  then show "records_complete dep (put_ent Dead d i (add_link i w))"
    "records_complete dep (put_ent Dead d i (del_ent Root n w))"
    by (auto simp: records_complete_def lookup_put_ent lookup_del_ent split: if_splits)
qed (auto simp: records_complete_def lookup_put_ent lookup_del_ent lookup_create_ent lookup_unlink_ent
  create_ent_inodes staged_def guard_hidden split: if_splits option.splits intro: less_SucI)

lemma record_kept_step:
  assumes "record_kept n r c w" and "next_ino w \<le> next_ino w'"
    and "r < next_ino w \<Longrightarrow> 2 \<le> length (i_data (inodes w r)) \<Longrightarrow>
           i_data (inodes w' r) = i_data (inodes w r) \<and> (i_synced (inodes w r) \<longrightarrow> i_synced (inodes w' r))"
    and "\<And>d m. \<not> hidden m \<Longrightarrow> (d = Root \<longrightarrow> m = n) \<Longrightarrow> lookup d m w = Some r \<Longrightarrow>
           lookup d m w' = Some r \<or> (\<exists>e. \<not> hidden e \<and> lookup Dead e w' = Some r)"
  shows "record_kept n r c w'"
proof -
  from assms(1) have base: "\<not> hidden n" "2 \<le> length c" "r < next_ino w" "i_data (inodes w r) = c" "i_synced (inodes w r)"
    and "lookup Root n w = Some r \<or> (\<exists>d. \<not> hidden d \<and> lookup Dead d w = Some r)"
    by (simp_all add: record_kept_def)
  then have "lookup Root n w' = Some r \<or> (\<exists>d. \<not> hidden d \<and> lookup Dead d w' = Some r)"
    using assms(4) [of n Root] assms(4) [of _ Dead] by blast
  with base assms(2,3) show ?thesis by (simp add: record_kept_def)
qed

interpretation kept: publish_invariant "record_kept n r c" "\<lambda>_ n. hidden n" "\<lambda>m. m \<noteq> n" "\<lambda>_ _. True"
  for n r c
proof unfold_locales
  fix w w'
  assume *: "record_kept n r c w" "same_files w w'"
  show "record_kept n r c w'"
    by (rule record_kept_step [OF *(1)]) (simp_all add: same_files_inodes [OF *(2)])
next
  fix w i bs
  assume *: "record_kept n r c w" "length (i_data (inodes w i)) \<le> 1"
  then have "r \<noteq> i" by (auto simp: record_kept_def)
  then show "record_kept n r c (write_bytes i bs w)"
    by (intro record_kept_step [OF *(1)]) simp_all
next
  fix w d m mode
  assume *: "record_kept n r c w" "hidden m"
  show "record_kept n r c (create_ent d m mode w)"
    by (rule record_kept_step [OF *(1)]) (use *(2) in \<open>auto simp: lookup_create_ent create_ent_inodes\<close>)
next
  fix w d m i
  assume *: "record_kept n r c w" "hidden m"
  show "record_kept n r c (unlink_ent d m i w)"
    by (rule record_kept_step [OF *(1)]) (use *(2) in \<open>auto simp: lookup_unlink_ent\<close>)
next
  fix w d m m' i
  assume *: "record_kept n r c w" "hidden m" "hidden m'"
  show "record_kept n r c (put_ent d m' i (del_ent d m w))"
    by (rule record_kept_step [OF *(1)]) (use *(2,3) in \<open>auto simp: lookup_put_ent lookup_del_ent\<close>)
next
  fix w s d i
  assume *: "record_kept n r c w" "movable s d" "lookup Root s w = Some i"
  show "record_kept n r c (put_ent Dead d i (add_link i w))" if "lookup Dead d w = None"
    by (rule record_kept_step [OF *(1)]) (use that in \<open>auto simp: lookup_put_ent\<close>)
  show "record_kept n r c (put_ent Dead d i (del_ent Root s w))" if "lookup Dead d w = None"
    by (rule record_kept_step [OF *(1)])
      (use that *(2,3) in \<open>auto simp: lookup_put_ent lookup_del_ent movable_def\<close>)
  show "record_kept n r c (unlink_ent Root s i w)" if "lookup Dead d w = Some i"
    by (rule record_kept_step [OF *(1)]) (use that *(2,3) in \<open>auto simp: lookup_unlink_ent movable_def\<close>)
next
  fix w m i
  assume *: "record_kept n r c w" "m \<noteq> n"
  show "record_kept n r c (unlink_ent Root m i w)"
    by (rule record_kept_step [OF *(1)]) (use *(2) in \<open>auto simp: lookup_unlink_ent\<close>)
next
  fix w d t i and c' :: string
  assume *: "record_kept n r c w" "temp_name t" "lookup Root t w = Some i" "lookup Root d w = None"
  note t = temp_name_facts(1) [OF *(2)]
  show "record_kept n r c (put_ent Root d i (add_link i w))"
    by (rule record_kept_step [OF *(1)]) (use *(3,4) t in \<open>auto simp: lookup_put_ent lookup_del_ent\<close>)
  show "record_kept n r c (put_ent Root d i (del_ent Root t w))"
    by (rule record_kept_step [OF *(1)]) (use *(3,4) t in \<open>auto simp: lookup_put_ent lookup_del_ent\<close>)
qed (auto simp: guard_hidden)

text \<open>A world in which no system call is going to fail.\<close>

interpretation faultless: publish_invariant "\<lambda>w. faults w = []" "\<lambda>_ _. True" "\<lambda>_. True" "\<lambda>_ _. True"
  by unfold_locales
    (auto simp: same_files_def write_bytes_def create_ent_def put_ent_def del_ent_def unlink_ent_def
      set_inode_def drop_link_def add_link_def)

section \<open>Histories\<close>

datatype operation =
  Enqueue json now | Retention now | Pending | Stats | Load path | Ack path | Reject path

text \<open>The world an operation leaves behind, however it ends.\<close>

fun perform :: "spool \<Rightarrow> operation \<Rightarrow> world \<Rightarrow> world" where
  "perform sp (Enqueue payload t) w = snd (enqueue sp payload t w)"
| "perform sp (Retention t) w = snd (enforce_retention sp t w)"
| "perform sp Pending w = snd (pending sp w)"
| "perform sp Stats w = snd (stats sp w)"
| "perform sp (Load p) w = snd (load sp p w)"
| "perform sp (Ack p) w = snd (ack sp p w)"
| "perform sp (Reject p) w = snd (reject sp p w)"

text \<open>The records an operation may remove: retention any of them, an acknowledgement its own.\<close>

fun may_remove :: "operation \<Rightarrow> string \<Rightarrow> bool" where
  "may_remove (Enqueue payload t) n \<longleftrightarrow> True"
| "may_remove (Retention t) n \<longleftrightarrow> True"
| "may_remove (Ack p) n \<longleftrightarrow> p = At Root n"
| "may_remove _ n \<longleftrightarrow> False"

text \<open>
  One event: an operation with any pattern of failing system calls (or the process killed at one
  of them), any random tokens and any clock; a restart of the process, which closes its
  descriptors; a change of the locks other processes hold; a loss of power, which leaves
  unflushed bytes undefined.
\<close>

definition restarted :: "world \<Rightarrow> world" where
  "restarted w =
     w\<lparr>fds := (\<lambda>_. None), guards := (\<lambda>_. None),
       flocks := (\<lambda>i. if flocks w i = Some Foreign then Some Foreign else None)\<rparr>"

definition power_loss :: "(nat \<Rightarrow> string) \<Rightarrow> world \<Rightarrow> world" where
  "power_loss garbage w =
     restarted (w\<lparr>inodes := (\<lambda>i. if i_synced (inodes w i) then inodes w i
                               else (inodes w i)\<lparr>i_data := garbage i\<rparr>)\<rparr>)"

inductive event :: "spool \<Rightarrow> world \<Rightarrow> operation option \<Rightarrow> world \<Rightarrow> bool" for sp where
  call: "event sp w (Some x) (perform sp x (w\<lparr>faults := fs, tokens := ts, clock := t\<rparr>))"
| restart: "event sp w None (restarted w)"
| foreign: "(\<And>i d. fl i = Some (Mine d) \<longleftrightarrow> flocks w i = Some (Mine d)) \<Longrightarrow> event sp w None (w\<lparr>flocks := fl\<rparr>)"
| power: "event sp w None (power_loss garbage w)"

inductive_cases event_quiet: "event sp w None w'"
inductive_cases event_call: "event sp w (Some x) w'"

inductive history :: "spool \<Rightarrow> world \<Rightarrow> operation list \<Rightarrow> world \<Rightarrow> bool" for sp w where
  start: "history sp w [] w"
| quietly: "history sp w xs v \<Longrightarrow> event sp v None u \<Longrightarrow> history sp w xs u"
| calls: "history sp w xs v \<Longrightarrow> event sp v (Some x) u \<Longrightarrow> history sp w (xs @ [x]) u"

lemma lookup_clock [simp]: "lookup d n (w\<lparr>clock := t\<rparr>) = lookup d n w"
  by (simp add: lookup_def)

lemma power_loss_fields [simp]:
  "ents (power_loss g w) = ents w" "next_ino (power_loss g w) = next_ino w"
  "lookup d n (power_loss g w) = lookup d n w"
  "inodes (power_loss g w) i = (if i_synced (inodes w i) then inodes w i else (inodes w i)\<lparr>i_data := g i\<rparr>)"
  by (simp_all add: power_loss_def restarted_def lookup_def)

lemma same_files_restarted: "same_files w (restarted w)"
  by (simp add: same_files_def restarted_def)

locale history_invariant = publish_invariant I free removable publishable
  for I free removable publishable +
  fixes sp :: spool
  assumes power: "I w \<Longrightarrow> I (power_loss garbage w)"
    and environment: "I w \<Longrightarrow> I (w\<lparr>faults := fs, tokens := ts, clock := t\<rparr>)"
    and accepted: "record_name payload us = Inr name \<Longrightarrow> numbered_name name k = Inr d \<Longrightarrow>
          serialize (depth_limit sp) payload = Inr c \<Longrightarrow> publishable d c"
begin

lemma perform_keeps:
  assumes "I w" and "\<And>n. may_remove x n \<Longrightarrow> removable n"
  shows "I (perform sp x w)"
proof (cases x)
  case (Enqueue payload t)
  then show ?thesis using assms keepsD [OF keeps_enqueue [OF accepted]] by simp
next
  case (Retention t)
  then show ?thesis using assms keepsD [OF keeps_retention] by simp
next
  case (Ack p)
  then have "keeps I (ack sp p)"
    using assms(2) by (intro keeps_ack) auto
  then show ?thesis using Ack assms(1) keepsD by simp
qed (use assms(1) keepsD [OF keeps_public(1)] keepsD [OF keeps_public(2)] keepsD [OF keeps_public(3)]
  keepsD [OF keeps_public(4)] in auto)

lemma history_keeps:
  assumes "history sp w xs w'" and "I w" and "\<forall>x \<in> set xs. \<forall>n. may_remove x n \<longrightarrow> removable n"
  shows "I w'"
  using assms(1,3)
proof induction
  case start
  show ?case by (rule assms(2))
next
  case (quietly xs v u)
  then have "I v" by simp
  with quietly(2) show ?case
    by (cases rule: event_quiet) (auto intro: power quiet_step [OF _ same_files_restarted] quiet_step)
next
  case (calls xs v x u)
  then have v: "I v" and x: "\<And>n. may_remove x n \<Longrightarrow> removable n" by simp_all
  from calls(2) obtain fs ts t where u: "u = perform sp x (v\<lparr>faults := fs, tokens := ts, clock := t\<rparr>)"
    by (auto elim: event_call)
  have "I (v\<lparr>faults := fs, tokens := ts, clock := t\<rparr>)"
    using v by (rule environment)
  with u x show ?case by (simp add: perform_keeps)
qed

end

interpretation wf: history_invariant well_formed "\<lambda>_ _. True" "\<lambda>_. True" "\<lambda>_ _. True" sp for sp
  by unfold_locales (auto simp: well_formed_def)

interpretation contents: history_invariant "contents_kept u" "\<lambda>_ _. True" "\<lambda>_. True" "\<lambda>_ _. True" sp for u sp
  by unfold_locales (auto simp: contents_kept_def)

interpretation complete: history_invariant "records_complete (depth_limit sp)" "\<lambda>_ n. hidden n" "\<lambda>_. True"
  "\<lambda>d c. record_bytes (depth_limit sp) c" sp for sp
proof unfold_locales
  fix payload us name c
  assume name: "record_name payload us = Inr name" and c: "serialize (depth_limit sp) payload = Inr c"
  from name have "valid_payload payload"
    by (cases payload) (auto simp: valid_event_id_def split: option.splits if_splits)
  with c show "record_bytes (depth_limit sp) c" by (auto simp: record_bytes_def)
qed (auto simp: records_complete_def)

interpretation kept: history_invariant "record_kept n r c" "\<lambda>_ n. hidden n" "\<lambda>m. m \<noteq> n" "\<lambda>_ _. True" sp
  for n r c sp
  by unfold_locales (auto simp: record_kept_def)

section \<open>Properties\<close>

text \<open>Two worlds to apply them to: a new spool, and one with a record in it.\<close>

definition empty_world :: world where
  "empty_world =
     \<lparr>platform = Posix, linux = True, has_renameat2 = True, dnodes = (\<lambda>_. Absent), ents = (\<lambda>_. []),
      inodes = (\<lambda>_. \<lparr>i_kind = Regular, i_data = [], i_nlink = 0, i_mode = 0, i_mtime = 0, i_synced = False\<rparr>), next_ino = 1, fds = (\<lambda>_. None), next_fd = 3,
      flocks = (\<lambda>_. None), guards = (\<lambda>_. None), faults = [], clock = 63900000000000000,
      tokens = [''a1'', ''b2'', ''c3''], dsynced = (\<lambda>_. True)\<rparr>"

definition sample_name :: string where
  "sample_name = ''20251129T080000000000Z_12345678-1234-4678-9234-567812345678.json''"

definition sample_payload :: json where
  "sample_payload = JObj [(''event_id'', JStr ''12345678-1234-4678-9234-567812345678'')]"

definition sample_world :: world where
  "sample_world =
     put_ent Root sample_name 1
       (empty_world\<lparr>next_ino := 2,
          inodes := (\<lambda>_. \<lparr>i_kind = Regular, i_data = ''{}'', i_nlink = 1, i_mode = mode_600,
                          i_mtime = 0, i_synced = True\<rparr>)\<rparr>)"

definition sample_spool :: spool where
  "sample_spool = \<lparr>max_bytes = 1000, max_age_sec = 3600, sha = (\<lambda>_. replicate 64 CHR ''0''), depth_limit = 100\<rparr>"

lemma empty_world_lookup: "lookup d n empty_world = None"
  by (simp add: lookup_def empty_world_def)

lemma history_one: "history sp w [x] (perform sp x (w\<lparr>faults := fs, tokens := ts, clock := t\<rparr>))"
  using history.calls [OF history.start event.call] by (simp only: append_Nil)

text \<open>C1: At every point of every history (operations with any failing system calls, the process
  killed at any of them, restarts, loss of power), every file of the spool directory with a visible
  name holds, flushed, all the bytes of a payload with a UUID as event id: no partial record is
  ever exposed.\<close>

theorem no_partial_record:
  assumes "history sp w xs w'" and "records_complete (depth_limit sp) w"
  shows "records_complete (depth_limit sp) w'"
  using complete.history_keeps [OF assms] by simp

theorem no_partial_record_witness:
  "records_complete (depth_limit sample_spool) (perform sample_spool (Enqueue sample_payload NowNone)
     (empty_world\<lparr>faults := [NoFault, NoFault, Kill 7], tokens := [''t''], clock := 63900000000000000\<rparr>))"
  by (rule no_partial_record [OF history_one [of _ empty_world]])
    (simp add: records_complete_def empty_world_lookup)



text \<open>C36: No operation, failing or killed as it may, ever changes or truncates bytes that were flushed
  to a file: not those of a record, of a dead letter or of a marker.\<close>

theorem contents_never_altered:
  assumes "history sp w xs w'"
  shows "contents_kept w w'"
  using contents.history_keeps [OF assms, of w] by (simp add: contents_kept_def)

theorem contents_never_altered_witness:
  "contents_kept sample_world
     (perform sample_spool (Load (At Root sample_name))
        (sample_world\<lparr>faults := [Kill 3], tokens := [], clock := 0\<rparr>))"
  by (rule contents_never_altered [OF history_one])

text \<open>Both directories stay well formed: an entry leads to a file that was created, and no name
  stands twice.\<close>

theorem directories_well_formed:
  assumes "history sp w xs w'" and "well_formed w"
  shows "well_formed w'"
  using wf.history_keeps [OF assms] by simp

theorem directories_well_formed_witness:
  "well_formed (perform sample_spool (Enqueue sample_payload NowNone)
     (empty_world\<lparr>faults := [Fail 2 ENOSPC], tokens := [''t''], clock := 1\<rparr>))"
  by (rule directories_well_formed [OF history_one [of _ empty_world]])
    (simp add: well_formed_def empty_world_lookup, simp add: empty_world_def)

end
