(* ===== verification/Retention.thy ===== *)
theory Retention
  imports Spool_Safety
begin

text \<open>
  What the spool's reading and evicting code computes while no system call fails: the order of the
  pending records, and exactly which of them retention evicts, against reference functions on lists.
\<close>

section \<open>Runs without faults\<close>

lemma bnd_run: "m w = (Inr x, v) \<Longrightarrow> bnd m f w = f x v"
  by (simp add: bnd_def)

lemma andthen_run: "m w = (Inr x, v) \<Longrightarrow> andthen m k w = k v"
  by (simp add: andthen_def bnd_run)

lemma run_syscall: "faults w = [] \<Longrightarrow> syscall m w = m w"
  by (simp add: syscall_def)

lemma run_ends [simp]: "ret x w = (Inr x, w)" "throw e w = (Inl e, w)" "gets f w = (Inr (f w), w)"
  by (simp_all add: ret_def throw_def gets_def)

named_theorems run_simps \<open>what a call does when it does not fail\<close>

lemma run_filter_m:
  "(\<And>x. x \<in> set xs \<Longrightarrow> f x w = (Inr (p x), w)) \<Longrightarrow> filter_m f xs w = (Inr (filter p xs), w)"
  by (induction xs) (auto simp: bnd_run)

lemma run_map_m:
  "(\<And>x. x \<in> set xs \<Longrightarrow> f x w = (Inr (g x), w)) \<Longrightarrow> map_m f xs w = (Inr (map g xs), w)"
  by (induction xs) (auto simp: bnd_run)

text \<open>A regular file with one link, as every record is.\<close>

definition single_file :: "world \<Rightarrow> dir \<Rightarrow> string \<Rightarrow> bool" where
  "single_file w d n \<longleftrightarrow>
     (case lookup d n w of
        None \<Rightarrow> False
      | Some i \<Rightarrow> i_kind (inodes w i) = Regular \<and> i_nlink (inodes w i) = 1)"

definition file_of :: "world \<Rightarrow> string \<Rightarrow> inode" where
  "file_of w n = (case lookup Root n w of Some i \<Rightarrow> inodes w i)"

definition time_of :: "world \<Rightarrow> string \<Rightarrow> int" where
  "time_of w n = (case name_time n of Some t \<Rightarrow> t | None \<Rightarrow> i_mtime (file_of w n))"

definition size_of_record :: "world \<Rightarrow> string \<Rightarrow> nat" where
  "size_of_record w n = length (i_data (file_of w n))"

text \<open>The reference: the regular \<open>.json\<close> files by time, then by name.\<close>

definition records :: "world \<Rightarrow> string list" where
  "records w =
     sort_records (map (\<lambda>n. (time_of w n, n))
       (filter (single_file w Root) (filter is_json_name (map fst (ents w Root)))))"

lemma run_lstat:
  "faults w = [] \<Longrightarrow> os_lstat d n w = (case lookup d n w of None \<Rightarrow> (Inl (OSError ENOENT), w) | Some i \<Rightarrow> (Inr (stat_of w i), w))"
  by (simp add: os_lstat_def run_syscall)

lemma run_glob: "faults w = [] \<Longrightarrow> path_glob d p w = (Inr (filter p (map fst (ents w d))), w)"
  by (simp add: path_glob_def os_listdir_def try_except_def try_else_def bnd_def run_syscall)

lemma run_is_regular_file: "faults w = [] \<Longrightarrow> is_regular_file d n w = (Inr (single_file w d n), w)"
  by (simp add: is_regular_file_def try_else_def run_lstat single_file_def split: option.split)

lemma run_validated: "faults w = [] \<Longrightarrow> single_file w Root n \<Longrightarrow> lookup Root n w = Some i \<Longrightarrow>
  validated_record_stat n w = (Inr (stat_of w i), w)"
  by (simp add: validated_record_stat_def try_except_def try_else_def bnd_def run_lstat single_file_def)

lemma run_record_time: "faults w = [] \<Longrightarrow> single_file w Root n \<Longrightarrow> record_time n w = (Inr (time_of w n), w)"
  by (cases "lookup Root n w")
    (auto simp: record_time_def time_of_def file_of_def single_file_def bnd_run run_validated split: option.split)

lemma run_pending_paths:
  assumes ok: "faults w = []"
  shows "pending_paths w = (Inr (records w), w)"
proof -
  let ?names = "filter is_json_name (map fst (ents w Root))"
  have regular: "filter_m (is_regular_file Root) ?names w = (Inr (filter (single_file w Root) ?names), w)"
    by (intro run_filter_m run_is_regular_file ok)
  have keyed: "map_m (\<lambda>n. bnd (record_time n) (\<lambda>t. ret (t, n))) (filter (single_file w Root) ?names) w =
      (Inr (map (\<lambda>n. (time_of w n, n)) (filter (single_file w Root) ?names)), w)"
    by (rule run_map_m) (simp add: bnd_run run_record_time ok)
  show ?thesis
    by (simp del: filter_filter add: pending_paths_def bnd_run run_glob ok regular keyed records_def)
qed


section \<open>Removing records\<close>

definition remove_record :: "string \<Rightarrow> world \<Rightarrow> world" where
  "remove_record n w = unlink_ent Root n (the (lookup Root n w)) w"

definition remove_records :: "string list \<Rightarrow> world \<Rightarrow> world" where
  "remove_records ns w = fold remove_record ns w"

lemma remove_records_simps [simp]:
  "remove_records [] w = w" "remove_records (n # ns) w = remove_records ns (remove_record n w)"
  by (simp_all add: remove_records_def)

text \<open>Names that are records of their own: one link each, no inode shared.\<close>

definition own_files :: "world \<Rightarrow> string list \<Rightarrow> bool" where
  "own_files w ns \<longleftrightarrow>
     distinct ns \<and> list_all (single_file w Root) ns \<and> inj_on (\<lambda>n. lookup Root n w) (set ns)"

lemma faults_remove [simp]: "faults (remove_record n w) = faults w"
  by (simp add: remove_record_def unlink_ent_def del_ent_def drop_link_def set_inode_def)

lemma platform_remove [simp]: "platform (remove_record n w) = platform w"
  by (simp add: remove_record_def unlink_ent_def del_ent_def drop_link_def set_inode_def)

lemma lookup_remove: "lookup d m (remove_record n w) = (if d = Root \<and> m = n then None else lookup d m w)"
  by (auto simp: remove_record_def lookup_unlink_ent)

lemma file_remove:
  assumes "own_files w (n # ns)" and "m \<in> set ns"
  shows "file_of (remove_record n w) m = file_of w m" and "lookup Root m (remove_record n w) = lookup Root m w"
proof -
  from assms obtain i j where i: "lookup Root n w = Some i" and j: "lookup Root m w = Some j" and "m \<noteq> n"
    by (fastforce simp: own_files_def single_file_def list_all_iff split: option.splits)
  moreover from this assms have "i \<noteq> j"
    by (auto simp: own_files_def inj_on_def)
  ultimately show "lookup Root m (remove_record n w) = lookup Root m w"
    and "file_of (remove_record n w) m = file_of w m"
    by (auto simp: lookup_remove file_of_def)
      (simp add: remove_record_def unlink_ent_def drop_link_def)
qed

lemma single_remove:
  assumes "own_files w (n # ns)" and "m \<in> set ns"
  shows "single_file (remove_record n w) Root m = single_file w Root m"
    and "time_of (remove_record n w) m = time_of w m"
    and "size_of_record (remove_record n w) m = size_of_record w m"
  using file_remove [OF assms]
  by (auto simp: single_file_def file_of_def time_of_def size_of_record_def split: option.splits)

lemma own_files_remove: "own_files w (n # ns) \<Longrightarrow> own_files (remove_record n w) ns"
  using single_remove(1) [of w n ns] file_remove(2) [of w n ns]
  by (auto simp: own_files_def list_all_iff inj_on_def)

lemma own_files_head:
  assumes "own_files w (n # ns)"
  obtains i where "lookup Root n w = Some i" "single_file w Root n" "i_kind (inodes w i) = Regular"
    "file_of w n = inodes w i"
  using assms by (auto simp: own_files_def single_file_def file_of_def split: option.splits)

lemma own_files_tail: "own_files w (n # ns) \<Longrightarrow> own_files w ns"
  by (auto simp: own_files_def inj_on_def)

lemma run_unlink:
  assumes "faults w = []" and "lookup Root n w = Some i" and "i_kind (inodes w i) = Regular"
  shows "unlink_name Root n w = (Inr (), remove_record n w)"
proof -
  have "os_unlink Root n w = (Inr (), remove_record n w)"
    using assms by (simp add: os_unlink_def run_syscall remove_record_def)
  moreover have "os_open_dir Root w = (Inr (), w)" "os_close_dir Root (remove_record n w) = (Inr (), remove_record n w)"
    using assms(1) by (simp_all add: os_open_dir_def os_close_dir_def run_syscall)
  ultimately show ?thesis
    by (simp add: unlink_name_def is_posix_def bnd_def with_dir_def andthen_def suppress_def try_except_def
        try_else_def try_finally_def)
qed

lemma run_validated_own:
  assumes "faults w = []" and "own_files w (n # ns)"
  shows "\<exists>st. validated_record_stat n w = (Inr st, w) \<and> st_size st = size_of_record w n"
  using own_files_head [OF assms(2)] run_validated [OF assms(1)]
  by (metis size_of_record_def stat_of_simps(4))

lemma run_evict_expired:
  assumes "faults w = []" and "own_files w ns"
  shows "for_acc ns (c, b) (\<lambda>record (count, bytes).
       bnd (record_time record) (\<lambda>t.
       if t < cutoff then
         bnd (validated_record_stat record) (\<lambda>st.
         andthen (unlink_name Root record) (ret (count + 1, bytes + st_size st)))
       else ret (count, bytes))) w =
     (let gone = filter (\<lambda>n. time_of w n < cutoff) ns
      in (Inr (c + length gone, b + sum_list (map (size_of_record w) gone)), remove_records gone w))"
  using assms
proof (induction ns arbitrary: c b w)
  case (Cons n ns)
  from Cons.prems(2) obtain i where n: "lookup Root n w = Some i" "single_file w Root n" "i_kind (inodes w i) = Regular"
    by (rule own_files_head)
  obtain st where st: "validated_record_stat n w = (Inr st, w)" "st_size st = size_of_record w n"
    using run_validated_own [OF Cons.prems] by blast
  note unlink = run_unlink [OF Cons.prems(1) n(1,3)]
  have same: "filter (\<lambda>m. time_of (remove_record n w) m < cutoff) ns = filter (\<lambda>m. time_of w m < cutoff) ns"
    "map (size_of_record (remove_record n w)) (filter P ns) = map (size_of_record w) (filter P ns)" for P
    using single_remove [OF Cons.prems(2)] by (auto intro: filter_cong)
  have IH: "own_files w ns" "own_files (remove_record n w) ns"
    using Cons.prems(2) own_files_tail own_files_remove by blast+
  show ?case
    using Cons.IH [OF _ IH(1)] Cons.IH [OF _ IH(2)] Cons.prems(1)
    by (simp add: bnd_run run_record_time n(2) st unlink andthen_run Let_def same)
qed simp


lemma names_remove: "map fst (ents (remove_record n w) Root) = filter (\<lambda>m. m \<noteq> n) (map fst (ents w Root))"
  by (simp add: remove_record_def unlink_ent_def del_ent_def AList.delete_eq filter_map o_def)
    (auto intro!: arg_cong [where f = "map fst"] filter_cong)

lemma set_records:
  "m \<in> set (records w) \<longleftrightarrow> m \<in> fst ` set (ents w Root) \<and> is_json_name m \<and> single_file w Root m"
  by (auto simp: records_def sort_records_def image_iff)

lemma single_remove_other:
  assumes "own_files w (records w)" and n: "n \<in> set (records w)" and "m \<noteq> n" and m: "is_json_name m"
  shows "single_file (remove_record n w) Root m = single_file w Root m"
    and "single_file w Root m \<Longrightarrow> time_of (remove_record n w) m = time_of w m"
proof -
  from n obtain i where i: "lookup Root n w = Some i" "i_kind (inodes w i) = Regular" "i_nlink (inodes w i) = 1"
    by (auto simp: set_records single_file_def split: option.splits)
  have "lookup Root m w \<noteq> Some i"
  proof
    assume eq: "lookup Root m w = Some i"
    then have "m \<in> fst ` set (ents w Root)" by (auto simp: lookup_def dest!: map_of_SomeD intro: rev_image_eqI)
    with eq i m have "m \<in> set (records w)" by (auto simp: set_records single_file_def)
    with assms(1,3) n eq i show False by (auto simp: own_files_def inj_on_def)
  qed
  with assms(3) i(1) have "lookup Root m (remove_record n w) = lookup Root m w"
    "\<And>j. lookup Root m w = Some j \<Longrightarrow> inodes (remove_record n w) j = inodes w j"
    by (auto simp: lookup_remove) (auto simp: remove_record_def unlink_ent_def drop_link_def)
  then show "single_file (remove_record n w) Root m = single_file w Root m"
    and "single_file w Root m \<Longrightarrow> time_of (remove_record n w) m = time_of w m"
    by (auto simp: single_file_def time_of_def file_of_def split: option.splits)
qed

lemma records_remove:
  assumes "own_files w (records w)" and "n \<in> set (records w)"
  shows "records (remove_record n w) = filter (\<lambda>m. m \<noteq> n) (records w)"
proof -
  let ?L = "\<lambda>w. filter (single_file w Root) (filter is_json_name (map fst (ents w Root)))"
  have names: "?L (remove_record n w) = filter (\<lambda>m. m \<noteq> n) (?L w)"
    unfolding names_remove filter_filter
    by (rule filter_cong) (auto simp: single_remove_other [OF assms])
  define X where "X = map (\<lambda>m. (time_of w m, m)) (?L w)"
  have keyed: "map (\<lambda>m. (time_of (remove_record n w) m, m)) (filter (\<lambda>m. m \<noteq> n) (?L w)) =
      filter (\<lambda>k. snd k \<noteq> n) X"
    by (auto simp: X_def filter_map o_def single_remove_other [OF assms] intro!: map_cong simp del: filter_filter)
  have "map snd (sort_key id (filter (\<lambda>k. snd k \<noteq> n) X)) = filter (\<lambda>m. m \<noteq> n) (map snd (sort_key id X))"
    by (simp only: filter_sort [symmetric] filter_map o_def)
  then show ?thesis
    unfolding records_def sort_records_def names keyed X_def [symmetric] .
qed

lemma own_files_filter: "own_files w ns \<Longrightarrow> own_files w (filter P ns)"
  by (auto simp: own_files_def list_all_iff inj_on_def)

lemma own_records_remove:
  assumes "own_files w (records w)" and "n \<in> set (records w)"
  shows "own_files (remove_record n w) (records (remove_record n w))"
proof -
  from assms have "own_files w (n # filter (\<lambda>m. m \<noteq> n) (records w))"
    by (auto simp: own_files_def list_all_iff inj_on_def simp flip: set_records)
  then show ?thesis using own_files_remove records_remove [OF assms] by simp
qed

lemma records_remove_all:
  assumes "own_files w (records w)" and "set ns \<subseteq> set (records w)" and "distinct ns"
  shows "records (remove_records ns w) = filter (\<lambda>m. m \<notin> set ns) (records w) \<and>
    own_files (remove_records ns w) (records (remove_records ns w))"
  using assms
proof (induction ns arbitrary: w)
  case (Cons n ns)
  then have n: "n \<in> set (records w)" by simp
  note step = records_remove [OF Cons.prems(1) n] own_records_remove [OF Cons.prems(1) n]
  have sub: "set ns \<subseteq> set (records (remove_record n w))" using Cons.prems step(1) by auto
  show ?case
    using Cons.IH [OF step(2) sub] Cons.prems(3) step(1) by (auto simp: conj_commute)
qed simp

lemma run_total_size:
  assumes "faults w = []" and "own_files w ns"
  shows "total_size ns w = (Inr (sum_list (map (size_of_record w) ns)), w)"
proof -
  have "for_acc ns k (\<lambda>record tot. bnd (validated_record_stat record) (\<lambda>st. ret (tot + st_size st))) w =
      (Inr (k + sum_list (map (size_of_record w) ns)), w)" for k
    using assms(2)
  proof (induction ns arbitrary: k)
    case (Cons n ns)
    obtain st where "validated_record_stat n w = (Inr st, w)" "st_size st = size_of_record w n"
      using run_validated_own [OF assms(1) Cons.prems] by blast
    with Cons.IH [OF own_files_tail [OF Cons.prems]] show ?case by (simp add: bnd_run)
  qed simp
  then show ?thesis by (simp add: total_size_def)
qed

text \<open>The reference for the second pass: from the oldest on, until the rest fits.\<close>

fun evicted :: "int \<Rightarrow> ('r \<Rightarrow> nat) \<Rightarrow> nat \<Rightarrow> 'r list \<Rightarrow> 'r list" where
  "evicted most s tot [] = []"
| "evicted most s tot (x # xs) = (if int tot \<le> most then [] else x # evicted most s (tot - s x) xs)"

lemma evicted_fits: "int tot \<le> most \<Longrightarrow> evicted most s tot xs = []"
  by (cases xs) auto

lemma evicted_cong: "(\<And>x. x \<in> set xs \<Longrightarrow> s x = s' x) \<Longrightarrow> evicted most s tot xs = evicted most s' tot xs"
  by (induction xs arbitrary: tot) auto

lemma evicted_prefix: "\<exists>rest. xs = evicted most s tot xs @ rest"
  by (induction xs arbitrary: tot) auto

lemma run_evict_oldest:
  assumes "faults w = []" and "own_files w ns"
  shows "evict_oldest sp ns (tot, c, b) w =
     (let gone = evicted (max_bytes sp) (size_of_record w) tot ns
      in (Inr (tot - sum_list (map (size_of_record w) gone), c + length gone,
               b + sum_list (map (size_of_record w) gone)), remove_records gone w))"
  unfolding evict_oldest_def
  using assms
proof (induction ns arbitrary: tot c b w)
  case (Cons n ns)
  from Cons.prems(2) obtain i where n: "lookup Root n w = Some i" "single_file w Root n" "i_kind (inodes w i) = Regular"
    by (rule own_files_head)
  obtain st where st: "validated_record_stat n w = (Inr st, w)" "st_size st = size_of_record w n"
    using run_validated_own [OF Cons.prems] by blast
  note unlink = run_unlink [OF Cons.prems(1) n(1,3)]
  let ?v = "remove_record n w"
  have size: "size_of_record ?v m = size_of_record w m" if "m \<in> set ns" for m
    using single_remove(3) [OF Cons.prems(2) that] .
  have gone: "evicted (max_bytes sp) (size_of_record ?v) k ns = evicted (max_bytes sp) (size_of_record w) k ns" for k
    by (rule evicted_cong) (rule size)
  have sub: "set (evicted (max_bytes sp) (size_of_record w) k ns) \<subseteq> set ns" for k
    using evicted_prefix [of ns "max_bytes sp" "size_of_record w" k] by (metis Un_iff set_append subsetI)
  have sizes: "map (size_of_record ?v) (evicted (max_bytes sp) (size_of_record w) k ns) =
      map (size_of_record w) (evicted (max_bytes sp) (size_of_record w) k ns)" for k
    using sub size by auto
  have IH: "own_files w ns" "own_files ?v ns"
    using Cons.prems(2) own_files_tail own_files_remove by blast+
  show ?case
    using Cons.IH [OF _ IH(1)] Cons.IH [OF _ IH(2)] Cons.prems(1)
    by (simp add: bnd_run st unlink andthen_run Let_def gone sizes evicted_fits)
qed simp


section \<open>Retention\<close>

text \<open>The reference: what is too old, then the oldest of the rest until it fits.\<close>

definition too_old :: "world \<Rightarrow> int \<Rightarrow> string list" where
  "too_old w cutoff = filter (\<lambda>n. time_of w n < cutoff) (records w)"

definition young_enough :: "world \<Rightarrow> int \<Rightarrow> string list" where
  "young_enough w cutoff = filter (\<lambda>n. \<not> time_of w n < cutoff) (records w)"

definition over_quota :: "spool \<Rightarrow> world \<Rightarrow> int \<Rightarrow> string list" where
  "over_quota sp w cutoff =
     evicted (max_bytes sp) (size_of_record w)
       (sum_list (map (size_of_record w) (young_enough w cutoff))) (young_enough w cutoff)"

definition doomed :: "spool \<Rightarrow> world \<Rightarrow> int \<Rightarrow> string list" where
  "doomed sp w cutoff = too_old w cutoff @ over_quota sp w cutoff"

lemma evicted_rest:
  assumes "xs = evicted most s (sum_list (map s xs)) xs @ rest" and "0 \<le> most"
  shows "int (sum_list (map s rest)) \<le> most"
proof -
  have "int (sum_list (map s (drop (length (evicted most s k ys)) ys))) \<le> most" if "k = sum_list (map s ys)" for k ys
    using that
  proof (induction ys arbitrary: k)
    case (Cons y ys)
    then show ?case using assms(2) by simp
  qed (use assms(2) in simp)
  from this [of "sum_list (map s xs)" xs] assms(1) show ?thesis by (metis append_eq_conv_conj)
qed

text \<open>No record is evicted in the second pass that the quota had room for.\<close>

lemma evicted_needed:
  assumes "xs = us @ x # rest" and "length us < length (evicted most s (sum_list (map s xs)) xs)"
  shows "most < int (sum_list (map s (x # rest)))"
proof -
  have "most < int (sum_list (map s (drop j ys)))" if "k = sum_list (map s ys)" "j < length (evicted most s k ys)" for j k ys
    using that
  proof (induction ys arbitrary: j k)
    case (Cons y ys)
    then show ?case by (cases j) (auto split: if_splits)
  qed simp
  from this [OF refl assms(2)] assms(1) show ?thesis by simp
qed

lemma doomed_parts:
  "records w = xs \<Longrightarrow> set (doomed sp w cutoff) \<subseteq> set xs"
  "distinct (records w) \<Longrightarrow> distinct (doomed sp w cutoff)"
proof -
  obtain rest where rest: "young_enough w cutoff = over_quota sp w cutoff @ rest"
    using evicted_prefix unfolding over_quota_def by blast
  then have sub: "set (over_quota sp w cutoff) \<subseteq> set (young_enough w cutoff)"
    by (metis Un_upper1 set_append)
  then show "records w = xs \<Longrightarrow> set (doomed sp w cutoff) \<subseteq> set xs"
    by (auto simp: doomed_def too_old_def young_enough_def)
  assume "distinct (records w)"
  then have "distinct (over_quota sp w cutoff @ rest)" "distinct (too_old w cutoff)"
    unfolding rest [symmetric] by (simp_all add: young_enough_def too_old_def)
  with sub show "distinct (doomed sp w cutoff)"
    by (auto simp: doomed_def too_old_def young_enough_def)
qed

lemma remove_records_append: "remove_records (ns @ ms) w = remove_records ms (remove_records ns w)"
  by (simp add: remove_records_def)

lemma faults_removes [simp]: "faults (remove_records ns w) = faults w"
  by (induction ns arbitrary: w) simp_all

lemma run_fsync_directory:
  "faults w = [] \<Longrightarrow>
   fsync_directory d w = (Inr (), if platform w = Posix then w\<lparr>dsynced := (dsynced w)(d := True)\<rparr> else w)"
  by (auto simp: fsync_directory_def is_posix_def bnd_def try_else_def try_finally_def try_except_def
      os_open_dir_def os_fsync_dir_def os_close_dir_def run_syscall modify_def)

lemma size_remove_records:
  assumes "own_files w (ns @ ms)" and "m \<in> set ms"
  shows "size_of_record (remove_records ns w) m = size_of_record w m \<and>
    time_of (remove_records ns w) m = time_of w m"
  using assms
proof (induction ns arbitrary: w)
  case (Cons n ns)
  then have "own_files w (n # (ns @ ms))" by simp
  from own_files_remove [OF this] single_remove(2,3) [OF this, of m] Cons.prems(2) Cons.IH
  show ?case by simp
qed simp


lemma young_enough_records:
  assumes "own_files w (records w)"
  shows "records (remove_records (too_old w cutoff) w) = young_enough w cutoff"
    and "own_files (remove_records (too_old w cutoff) w) (young_enough w cutoff)"
    and "own_files w (too_old w cutoff @ young_enough w cutoff)"
proof -
  have d: "distinct (records w)" using assms by (simp add: own_files_def)
  have sub: "set (too_old w cutoff) \<subseteq> set (records w)" "distinct (too_old w cutoff)"
    using d by (auto simp: too_old_def)
  have "filter (\<lambda>m. m \<notin> set (too_old w cutoff)) (records w) = young_enough w cutoff"
    unfolding young_enough_def too_old_def by (rule filter_cong) auto
  with records_remove_all [OF assms sub]
  show left: "records (remove_records (too_old w cutoff) w) = young_enough w cutoff" by simp
  from records_remove_all [OF assms sub] left
  show "own_files (remove_records (too_old w cutoff) w) (young_enough w cutoff)" by metis
  show "own_files w (too_old w cutoff @ young_enough w cutoff)"
    using assms by (auto simp: own_files_def too_old_def young_enough_def list_all_iff inj_on_def)
qed

lemma run_evict_records:
  assumes ok: "faults w = []" and own: "own_files w (records w)"
  shows "\<exists>v. evict_records sp cutoff w =
      (Inr (length (doomed sp w cutoff), sum_list (map (size_of_record w) (doomed sp w cutoff))), v) \<and>
    same_files (remove_records (doomed sp w cutoff) w) v \<and>
    (\<forall>i. i_nlink (inodes v i) = i_nlink (inodes (remove_records (doomed sp w cutoff) w) i) \<and>
         i_mtime (inodes v i) = i_mtime (inodes (remove_records (doomed sp w cutoff) w) i))"
proof -
  let ?w1 = "remove_records (too_old w cutoff) w" and ?young = "young_enough w cutoff"
  note parts = young_enough_records [OF own, of cutoff]
  have ok1: "faults ?w1 = []" using ok by simp
  have sizes: "size_of_record ?w1 m = size_of_record w m" if "m \<in> set ?young" for m
    using size_remove_records [OF parts(3) that] by simp
  then have total: "map (size_of_record ?w1) ?young = map (size_of_record w) ?young" by simp
  have quota: "evicted (max_bytes sp) (size_of_record ?w1) (sum_list (map (size_of_record w) ?young)) ?young =
      over_quota sp w cutoff"
    unfolding over_quota_def by (rule evicted_cong) (rule sizes)
  obtain rest where rest: "?young = over_quota sp w cutoff @ rest"
    using evicted_prefix unfolding over_quota_def by blast
  then have quota_sizes: "map (size_of_record ?w1) (over_quota sp w cutoff) = map (size_of_record w) (over_quota sp w cutoff)"
    using sizes by (metis (no_types, lifting) map_eq_conv Un_iff set_append)
  have expire: "evict_expired cutoff (records w) w =
      (Inr (length (too_old w cutoff), sum_list (map (size_of_record w) (too_old w cutoff))), ?w1)"
    unfolding evict_expired_def using run_evict_expired [OF ok own, of 0 0 cutoff]
    by (simp add: too_old_def Let_def)
  have oldest: "evict_oldest sp ?young (sum_list (map (size_of_record w) ?young), c, b) ?w1 =
      (Inr (sum_list (map (size_of_record w) ?young) - sum_list (map (size_of_record w) (over_quota sp w cutoff)),
            c + length (over_quota sp w cutoff), b + sum_list (map (size_of_record w) (over_quota sp w cutoff))),
       remove_records (doomed sp w cutoff) w)" for c b
    unfolding run_evict_oldest [OF ok1 parts(2)] quota Let_def quota_sizes doomed_def remove_records_append ..
  let ?v = "if 0 < length (doomed sp w cutoff) \<and> platform (remove_records (doomed sp w cutoff) w) = Posix
    then (remove_records (doomed sp w cutoff) w)\<lparr>dsynced := (dsynced (remove_records (doomed sp w cutoff) w))(Root := True)\<rparr>
    else remove_records (doomed sp w cutoff) w"
  have "evict_records sp cutoff w =
      (Inr (length (doomed sp w cutoff), sum_list (map (size_of_record w) (doomed sp w cutoff))), ?v)"
    using ok
    by (simp add: evict_records_def bnd_run run_pending_paths ok1 expire parts(1) run_total_size parts(2) total
        oldest when_m_def andthen_run run_fsync_directory doomed_def)
  then show ?thesis by (intro exI [of _ ?v]) auto
qed

lemma evict_records_exact:
  assumes "faults w = []" and "own_files w (records w)"
  shows "\<exists>v. evict_records sp cutoff w =
      (Inr (length (doomed sp w cutoff), sum_list (map (size_of_record w) (doomed sp w cutoff))), v) \<and>
    records v = filter (\<lambda>n. n \<notin> set (doomed sp w cutoff)) (records w) \<and>
    map (size_of_record v) (records v) = map (size_of_record w) (records v) \<and>
    map (time_of v) (records v) = map (time_of w) (records v) \<and>
    (\<forall>d n. d = Dead \<or> n \<notin> set (doomed sp w cutoff) \<longrightarrow> lookup d n v = lookup d n w)"
proof -
  obtain v where v: "evict_records sp cutoff w =
      (Inr (length (doomed sp w cutoff), sum_list (map (size_of_record w) (doomed sp w cutoff))), v)"
    and same: "same_files (remove_records (doomed sp w cutoff) w) v"
    and meta: "\<forall>i. i_nlink (inodes v i) = i_nlink (inodes (remove_records (doomed sp w cutoff) w) i) \<and>
         i_mtime (inodes v i) = i_mtime (inodes (remove_records (doomed sp w cutoff) w) i)"
    using run_evict_records [OF assms] by blast
  have "records v = records (remove_records (doomed sp w cutoff) w)"
  proof -
    have "single_file v Root = single_file (remove_records (doomed sp w cutoff) w) Root"
      using same meta by (auto simp: fun_eq_iff single_file_def same_files_inodes split: option.split)
    moreover have "time_of v n = time_of (remove_records (doomed sp w cutoff) w) n"
      if "single_file v Root n" for n
      using same meta that
      by (auto simp: time_of_def file_of_def single_file_def same_files_inodes split: option.splits)
    ultimately show ?thesis
      using same by (auto simp: records_def same_files_def intro!: arg_cong [where f = sort_records])
  qed
  moreover have "lookup d n (remove_records ns u) = lookup d n u" if "d = Dead \<or> n \<notin> set ns" for d n ns u
    using that by (induction ns arbitrary: u) (auto simp: lookup_remove)
  moreover have "size_of_record v n = size_of_record w n \<and> time_of v n = time_of w n"
    if "n \<in> set (records w)" "n \<notin> set (doomed sp w cutoff)" for n
  proof -
    have "own_files w (doomed sp w cutoff @ [n])"
      using assms(2) that doomed_parts(1) [OF refl, of sp w cutoff] doomed_parts(2) [of w sp cutoff]
      by (auto simp: own_files_def list_all_iff inj_on_def)
    from size_remove_records [OF this, of n] same meta show ?thesis
      by (auto simp: size_of_record_def time_of_def file_of_def same_files_inodes split: option.split)
  qed
  ultimately show ?thesis
    using v same_files_inodes(5) [OF same] doomed_parts(1) [OF refl, of sp w cutoff]
      doomed_parts(2) [of w sp cutoff] assms(2) records_remove_all [OF assms(2), of "doomed sp w cutoff"]
    by (auto simp: own_files_def)
qed

section \<open>Properties\<close>

lemma sample_world_facts:
  "lookup Root sample_name sample_world = Some 1" "map fst (ents sample_world Root) = [sample_name]"
  "faults sample_world = []"
  by (simp_all add: sample_world_def lookup_put_ent) (simp_all add: put_ent_def empty_world_def)

lemma sample_single: "single_file sample_world Root sample_name"
  by (simp add: single_file_def sample_world_facts) (simp add: sample_world_def)

lemma sample_records: "records sample_world = [sample_name]"
proof -
  have "is_json_name sample_name" by (simp add: is_json_name_def ends_with_def sample_name_def)
  then show ?thesis
    using sample_single by (simp add: records_def sort_records_def sample_world_facts)
qed

lemma sample_date:
  "to_date 63900000000000000 =
     \<lparr>d_year = 2025, d_month = 11, d_day = 29, d_hour = 8, d_minute = 0, d_second = 0, d_micro = 0\<rparr>"
proof -
  have "year_day 739583 = (2025, 332)" by (simp add: year_day_def Let_def)
  moreover have "month_day (month_lengths False) 1 332 = (11, 29)" by (simp add: month_lengths_def)
  ultimately show ?thesis unfolding to_date_def Let_def by (simp add: leap_def)
qed

lemma sample_stamp: "record_stamp 63900000000000000 = ''20251129T080000000000Z''"
  by (simp add: record_stamp_def sample_date strftime_def fixed_dec_numeral digit_chars)

lemma sample_time: "name_time sample_name = Some 63900000000000000"
  using name_time_stamp [of 63900000000000000 "''12345678-1234-4678-9234-567812345678.json''"]
  by (simp add: sample_stamp sample_name_def valid_instant_def)

lemma sample_own: "own_files sample_world (records sample_world)"
  by (simp add: sample_records own_files_def sample_single)

text \<open>C19: Without failing system calls, a retention pass evicts exactly the records older than the
  cutoff and then, from the oldest on, those the quota has no room for; it returns their number
  and their bytes, and every other entry of either directory stays as it was.\<close>

theorem retention_evicts_exactly:
  assumes "faults w = []" and "own_files w (records w)"
  shows "\<exists>v. evict_records sp cutoff w =
      (Inr (length (doomed sp w cutoff), sum_list (map (size_of_record w) (doomed sp w cutoff))), v) \<and>
    records v = filter (\<lambda>n. n \<notin> set (doomed sp w cutoff)) (records w) \<and>
    (\<forall>d n. d = Dead \<or> n \<notin> set (doomed sp w cutoff) \<longrightarrow> lookup d n v = lookup d n w)"
  using evict_records_exact [OF assms, of sp cutoff] by blast

theorem retention_evicts_exactly_witness:
  "\<exists>v. evict_records sample_spool 63900000000000001 sample_world = (Inr (1, 2), v)"
proof -
  have "doomed sample_spool sample_world 63900000000000001 = [sample_name]"
    by (simp add: doomed_def too_old_def over_quota_def young_enough_def sample_records time_of_def sample_time)
  moreover have "size_of_record sample_world sample_name = 2"
    by (simp add: size_of_record_def file_of_def sample_world_facts) (simp add: sample_world_def)
  ultimately show ?thesis
    using retention_evicts_exactly [OF sample_world_facts(3) sample_own, of sample_spool 63900000000000001] by auto
qed

text \<open>After such a pass the pending records fit in \<open>max_bytes\<close> and none is older than the cutoff.\<close>

theorem retention_bound:
  assumes "faults w = []" and "own_files w (records w)" and "0 < max_bytes sp"
    and "evict_records sp cutoff w = (r, v)"
  shows "int (sum_list (map (size_of_record v) (records v))) \<le> max_bytes sp \<and>
    (\<forall>n \<in> set (records v). cutoff \<le> time_of v n)"
proof -
  from evict_records_exact [OF assms(1,2), of sp cutoff] assms(4)
  have v: "records v = filter (\<lambda>n. n \<notin> set (doomed sp w cutoff)) (records w)"
    "map (size_of_record v) (records v) = map (size_of_record w) (records v)"
    "map (time_of v) (records v) = map (time_of w) (records v)" by auto
  obtain rest where rest: "young_enough w cutoff = over_quota sp w cutoff @ rest"
    using evicted_prefix unfolding over_quota_def by blast
  have "distinct (over_quota sp w cutoff @ rest)"
    using assms(2) unfolding rest [symmetric] by (simp add: young_enough_def own_files_def)
  then have "filter (\<lambda>n. n \<notin> set (over_quota sp w cutoff)) (young_enough w cutoff) = rest"
    unfolding rest by (auto simp: filter_empty_conv filter_id_conv)
  moreover have "filter (\<lambda>n. n \<notin> set (doomed sp w cutoff)) (records w) =
      filter (\<lambda>n. n \<notin> set (over_quota sp w cutoff)) (young_enough w cutoff)"
    unfolding young_enough_def filter_filter by (rule filter_cong) (auto simp: doomed_def too_old_def)
  ultimately have kept: "records v = rest" using v(1) by simp
  moreover have "int (sum_list (map (size_of_record v) (records v))) \<le> max_bytes sp"
  proof -
    have "sum_list (map (size_of_record v) (records v)) = sum_list (map (size_of_record w) rest)"
      using v(2) kept by metis
    then show ?thesis
      using evicted_rest [OF rest [unfolded over_quota_def]] assms(3) by simp
  qed
  moreover have "set rest \<subseteq> set (young_enough w cutoff)" unfolding rest by auto
  ultimately show ?thesis
    using v(3) by (auto simp: young_enough_def)
qed

theorem retention_bound_witness:
  "\<exists>r v. evict_records sample_spool 0 sample_world = (r, v) \<and>
    int (sum_list (map (size_of_record v) (records v))) \<le> 1000 \<and> (\<forall>n \<in> set (records v). 0 \<le> time_of v n)"
proof -
  obtain r v where run: "evict_records sample_spool 0 sample_world = (r, v)"
    using prod.exhaust by blast
  with retention_bound [OF sample_world_facts(3) sample_own _ run] show ?thesis
    by (auto simp: sample_spool_def)
qed

end
