(* ===== verification/Spool_Operations.thy ===== *)
theory Spool_Operations
  imports Retention
begin

text \<open>
  The public operations on a spool at rest: directories in place, no artifacts of an interrupted
  operation, no failing system calls. Each operation is then computed in full, so that a theorem
  says what it returns and what it leaves, and not only what holds if it returns.
\<close>

section \<open>A spool at rest\<close>

definition at_rest :: "world \<Rightarrow> bool" where
  "at_rest w \<longleftrightarrow>
     faults w = [] \<and>
     (\<forall>d \<in> {Root, Dead}.
        (case dnodes w d of RealDir _ \<Rightarrow> True | _ \<Rightarrow> False) \<and>
        list_all (\<lambda>n. \<not> list_ex (starts_with n) (artifact_prefixes d)) (map fst (ents w d)))"

definition prepared :: "world \<Rightarrow> world" where
  "prepared w = w\<lparr>dnodes := (dnodes w)(Root := RealDir mode_700, Dead := RealDir mode_700)\<rparr>"

lemma prepared_fields [simp]:
  "faults (prepared w) = faults w" "ents (prepared w) = ents w" "inodes (prepared w) = inodes w"
  "lookup d n (prepared w) = lookup d n w" "platform (prepared w) = platform w"
  "fds (prepared w) = fds w" "next_fd (prepared w) = next_fd w" "flocks (prepared w) = flocks w"
  "next_ino (prepared w) = next_ino w"
  by (simp_all add: prepared_def lookup_def)

lemma records_prepared [simp]:
  "single_file (prepared w) = single_file w" "time_of (prepared w) = time_of w"
  "size_of_record (prepared w) = size_of_record w" "records (prepared w) = records w"
  by (simp_all add: fun_eq_iff single_file_def time_of_def file_of_def size_of_record_def records_def
      cong: option.case_cong)

lemma run_ensure_directories:
  assumes "at_rest w"
  shows "ensure_directories w = (Inr (), prepared w)"
proof -
  from assms obtain a b where "dnodes w Root = RealDir a" "dnodes w Dead = RealDir b" "faults w = []"
    by (auto simp: at_rest_def split: dnode.splits)
  then show ?thesis
    by (simp add: ensure_directories_def andthen_def bnd_def os_mkdir_def os_lstat_dir_def os_chmod_dir_def
        run_syscall prepared_def)
qed

lemma run_no_artifacts: "(\<And>x. x \<in> set xs \<Longrightarrow> \<not> P x) \<Longrightarrow> for_each xs (\<lambda>x. when_m (P x) (m x)) w = (Inr (), w)"
  by (induction xs) (auto simp: andthen_run when_m_def)

lemma run_prepare:
  assumes "at_rest w"
  shows "prepare sp w = (Inr (), prepared w)"
proof -
  let ?v = "prepared w"
  have ok: "faults ?v = []" using assms by (simp add: at_rest_def)
  have no: "\<not> list_ex (starts_with n) (artifact_prefixes d)" if "n \<in> fst ` set (ents ?v d)" for n d
    using assms that by (cases d) (auto simp: at_rest_def list_all_iff)
  have none: "path_glob d P ?v = (Inr [], ?v)" if "\<And>n. P n \<Longrightarrow> list_ex (starts_with n) (artifact_prefixes d)" for d P
    unfolding run_glob [OF ok] using no that by (auto simp: filter_empty_conv)
  have markers: "recover_dead_letter_links sp ?v = (Inr (), ?v)"
    using none [of is_marker_name Dead]
    by (simp add: recover_dead_letter_links_def bnd_run is_marker_name_def artifact_prefixes_def)
  have links: "recover_pending_links sp ?v = (Inr (), ?v)"
    using none [of "\<lambda>n. starts_with n ''.spool-''" Root]
    by (simp add: recover_pending_links_def bnd_run artifact_prefixes_def)
  have "os_listdir d ?v = (Inr (map fst (ents ?v d)), ?v)" for d
    using ok by (simp add: os_listdir_def run_syscall)
  moreover have "for_each (map fst (ents ?v d))
      (\<lambda>n. when_m (is_stale_candidate d n) (andthen (cleanup_stale_hidden_file sp d n) (ret ()))) ?v =
      (Inr (), ?v)" for d
    by (rule run_no_artifacts) (use no [of _ d] in \<open>auto simp: is_stale_candidate_def\<close>)
  ultimately have "cleanup_hidden_artifacts sp ?v = (Inr (), ?v)"
    by (simp add: cleanup_hidden_artifacts_def andthen_run bnd_run del: prepared_fields)
  with markers links run_ensure_directories [OF assms] show ?thesis
    by (simp add: prepare_def andthen_run)
qed

lemma at_rest_ok: "at_rest w \<Longrightarrow> faults w = []"
  by (simp add: at_rest_def)

section \<open>Reading\<close>

lemma run_pending: "at_rest w \<Longrightarrow> pending sp w = (Inr (records w), prepared w)"
  using run_pending_paths [of "prepared w"] at_rest_ok [of w]
  by (simp add: pending_def andthen_run run_prepare)

lemma sorted_records: "sorted (map (\<lambda>n. (time_of w n, n)) (records w))"
proof -
  let ?K = "map (\<lambda>n. (time_of w n, n)) (filter (single_file w Root) (filter is_json_name (map fst (ents w Root))))"
  have "map ((\<lambda>n. (time_of w n, n)) \<circ> snd) (sort ?K) = map id (sort ?K)"
    by (rule map_cong) auto
  then show ?thesis
    unfolding records_def sort_records_def map_map
    using sorted_sort [of ?K] by (simp add: id_def)
qed

lemma distinct_records: "distinct (map fst (ents w Root)) \<Longrightarrow> distinct (records w)"
proof -
  assume d: "distinct (map fst (ents w Root))"
  let ?L = "filter (single_file w Root) (filter is_json_name (map fst (ents w Root)))"
  have "inj_on snd ((\<lambda>n. (time_of w n, n)) ` set ?L)" by (auto simp: inj_on_def)
  moreover have "distinct (map (\<lambda>n. (time_of w n, n)) ?L)"
    using d by (auto simp: distinct_map inj_on_def intro: distinct_filter)
  ultimately show ?thesis
    unfolding records_def sort_records_def by (simp add: distinct_map)
qed

text \<open>The order in which the directory is scanned makes no difference.\<close>

lemma records_scan_order:
  assumes "set (ents w Root) = set (ents v Root)" and "inodes w = inodes v"
    and "distinct (map fst (ents w Root))" and "distinct (map fst (ents v Root))"
  shows "records w = records v"
proof -
  have map: "map_of (ents w Root) = map_of (ents v Root)"
    using assms by (metis map_of_inject_set)
  then have same: "single_file w Root = single_file v Root" "time_of w = time_of v"
    using assms(2) by (simp_all add: fun_eq_iff single_file_def time_of_def file_of_def lookup_def cong: option.case_cong)
  have "set (records w) = set (records v)"
    using assms(1) by (auto simp: set_records same)
  moreover have "sorted (map (\<lambda>n. (time_of v n, n)) (records w))"
    using sorted_records [of w] by (simp add: same)
  ultimately have "map (\<lambda>n. (time_of v n, n)) (records w) = map (\<lambda>n. (time_of v n, n)) (records v)"
    using sorted_records [of v] distinct_records [OF assms(3)] distinct_records [OF assms(4)]
    by (intro sorted_distinct_set_unique) (auto simp: distinct_map inj_on_def)
  then have "map snd (map (\<lambda>n. (time_of v n, n)) (records w)) = map snd (map (\<lambda>n. (time_of v n, n)) (records v))"
    by (rule arg_cong)
  then show ?thesis by (simp add: o_def)
qed

lemma run_path_exists:
  "faults w = [] \<Longrightarrow> path_exists d n w =
     (Inr (case lookup d n w of
             None \<Rightarrow> False
           | Some i \<Rightarrow> (case i_kind (inodes w i) of Symlink live \<Rightarrow> live | _ \<Rightarrow> True)), w)"
  by (simp add: path_exists_def try_except_def try_else_def run_syscall)

lemma run_pending_path:
  assumes "faults w = []" and "path_suffix n = ''.json''" and "lookup Root n w = None \<or> single_file w Root n"
  shows "pending_path (At Root n) w = (Inr n, w)"
proof (cases "lookup Root n w")
  case None
  with assms show ?thesis
    by (simp add: pending_path_def bnd_def andthen_def when_m_def run_path_exists)
next
  case (Some i)
  with assms(3) have "single_file w Root n" "i_kind (inodes w i) = Regular" by (simp_all add: single_file_def)
  with Some assms show ?thesis
    by (simp add: pending_path_def bnd_def andthen_def when_m_def run_path_exists run_validated)
qed

lemma run_open_name:
  assumes "faults w = []" and "lookup d n w = Some i" and "i_kind (inodes w i) = Regular"
  shows "open_name d n False False False w = (Inr (next_fd w), add_fd i False w)"
proof -
  have "os_open d n False False False mode_600 w = (Inr (next_fd w), add_fd i False w)"
    using assms by (simp add: os_open_def run_syscall)
  moreover have "os_open_dir d w = (Inr (), w)" "os_close_dir d (add_fd i False w) = (Inr (), add_fd i False w)"
    using assms(1) by (simp_all add: os_open_dir_def os_close_dir_def run_syscall add_fd_def)
  ultimately show ?thesis
    by (simp add: open_name_def is_posix_def bnd_run with_dir_def andthen_run try_finally_def)
qed

lemma run_read_record:
  assumes ok: "faults w = []" and n: "lookup Root n w = Some i" "single_file w Root n"
  shows "\<exists>v. read_record sp n w = (json_load_bytes (depth_limit sp) (i_data (inodes w i)), v) \<and> same_files w v"
proof -
  let ?u = "add_fd i False w"
  have kind: "i_kind (inodes w i) = Regular" "i_nlink (inodes w i) = 1"
    using n by (simp_all add: single_file_def)
  have u: "faults ?u = []" "fds ?u (next_fd w) = Some \<lparr>of_ino = i, of_desc = next_fd w, of_write = False\<rparr>"
    "inodes ?u = inodes w" "same_files w ?u"
    using ok by (simp_all add: add_fd_def same_files_def)
  have opened: "open_record Root n w = (Inr (next_fd w), ?u)"
    by (simp add: open_record_def bnd_run run_open_name [OF ok n(1) kind(1)] on_error_def try_except_def
        try_else_def os_fstat_def run_syscall u with_fd_def kind)
  have read: "bnd (os_read_all (next_fd w)) (\<lambda>bytes. lift_result (json_load_bytes (depth_limit sp) bytes)) ?u =
      (json_load_bytes (depth_limit sp) (i_data (inodes w i)), ?u)"
    by (simp add: os_read_all_def bnd_def run_syscall u with_fd_def lift_result_def)
  obtain v where v: "os_close (next_fd w) ?u = (Inr (), v)"
    by (simp add: os_close_def run_syscall u with_fd_def)
  have "same_files ?u v"
    using quiet_os(11) [of "next_fd w"] v unfolding quiet_def by (metis same_files_refl snd_conv)
  then show ?thesis
    using same_files_trans [OF u(4)] u(4)
    by (cases "json_load_bytes (depth_limit sp) (i_data (inodes w i))")
      (auto simp: read_record_def bnd_run opened with_handle_def try_finally_def read v)
qed

lemma run_load:
  assumes rest: "at_rest w" and n: "path_suffix n = ''.json''" "single_file w Root n" "lookup Root n w = Some i"
    and r: "\<And>e. json_load_bytes (depth_limit sp) (i_data (inodes w i)) = Inl e \<Longrightarrow>
      e \<noteq> JSONDecodeError \<and> e \<noteq> UnicodeDecodeError \<and> \<not> is_OSError e"
    and valid: "\<And>j. json_load_bytes (depth_limit sp) (i_data (inodes w i)) = Inr j \<Longrightarrow> valid_payload j"
  shows "\<exists>v. load sp (At Root n) w =
      (map_sum id Some (json_load_bytes (depth_limit sp) (i_data (inodes w i))), v) \<and> same_files w v"
proof -
  let ?p = "prepared w" and ?r = "json_load_bytes (depth_limit sp) (i_data (inodes w i))"
  have ok: "faults ?p = []" and single: "single_file ?p Root n" and i: "lookup Root n ?p = Some i"
    "i_kind (inodes ?p i) = Regular"
    using rest n by (auto simp: at_rest_def single_file_def)
  have path: "pending_path (At Root n) ?p = (Inr n, ?p)"
    by (rule run_pending_path [OF ok n(1)]) (use single in simp)
  have ex: "path_exists Root n ?p = (Inr True, ?p)"
    unfolding run_path_exists [OF ok] by (simp only: i option.case fkind.case)
  obtain v where v: "read_record sp n ?p = (?r, v)" "same_files ?p v"
    using run_read_record [OF ok i(1) single, of sp] by auto
  have "load sp (At Root n) w = (map_sum id Some ?r, v)"
    using r valid
    by (cases ?r) (auto simp: load_def andthen_def bnd_def run_prepare [OF rest] path ex try_else_def v(1))
  moreover have "same_files w ?p" by (simp add: same_files_def)
  ultimately show ?thesis using same_files_trans v(2) by blast
qed

section \<open>Acknowledging and storing\<close>

lemma at_rest_prepared: "at_rest w \<Longrightarrow> at_rest (prepared w)"
  by (auto simp: at_rest_def prepared_def)

lemma same_files_at_rest: "at_rest w \<Longrightarrow> same_files w v \<Longrightarrow> dnodes v = dnodes w \<Longrightarrow> at_rest v"
  by (auto simp: at_rest_def same_files_def)

lemma at_rest_remove: "at_rest w \<Longrightarrow> at_rest (remove_record n w)"
  by (auto simp: at_rest_def list_all_iff remove_record_def unlink_ent_def del_ent_def drop_link_def
      set_inode_def delete_conv' AList.delete_eq)

lemma run_ack:
  assumes rest: "at_rest w" and n: "path_suffix n = ''.json''" "single_file w Root n"
  shows "\<exists>v. ack sp (At Root n) w = (Inr (), v) \<and> same_files (remove_record n (prepared w)) v \<and>
    at_rest v \<and> prepared v = v"
proof -
  let ?p = "prepared w"
  let ?r = "remove_record n ?p"
  let ?v = "if platform ?r = Posix then ?r\<lparr>dsynced := (dsynced ?r)(Root := True)\<rparr> else ?r"
  have ok: "faults ?p = []" "faults ?r = []" using rest by (simp_all add: at_rest_def)
  obtain i where i: "lookup Root n ?p = Some i" "i_kind (inodes ?p i) = Regular" and single: "single_file ?p Root n"
    using n(2) by (auto simp: single_file_def split: option.splits)
  have path: "pending_path (At Root n) ?p = (Inr n, ?p)"
    by (rule run_pending_path [OF ok(1) n(1)]) (use single in simp)
  have ex: "path_exists Root n ?p = (Inr True, ?p)"
    unfolding run_path_exists [OF ok(1)] by (simp only: i option.case fkind.case)
  have "ack sp (At Root n) w = (Inr (), ?v)"
    by (simp add: ack_def andthen_run bnd_run run_prepare [OF rest] path ex when_m_def
        run_validated [OF ok(1) single i(1)] run_unlink [OF ok(1) i] run_fsync_directory [OF ok(2)])
  moreover have "same_files ?r ?v" by simp
  moreover have "at_rest ?v" "prepared ?v = ?v"
    using at_rest_remove [OF at_rest_prepared [OF rest], of n]
    by (simp_all add: at_rest_def) (simp_all add: prepared_def remove_record_def unlink_ent_def del_ent_def
        drop_link_def set_inode_def fun_upd_idem_iff)
  ultimately show ?thesis by blast
qed

lemma run_ack_missing:
  assumes rest: "at_rest w" and n: "path_suffix n = ''.json''" "lookup Root n w = None"
  shows "ack sp (At Root n) w = (Inr (), prepared w)"
proof -
  have ok: "faults (prepared w) = []" and none: "lookup Root n (prepared w) = None"
    using rest n(2) by (simp_all add: at_rest_def)
  have "pending_path (At Root n) (prepared w) = (Inr n, prepared w)"
    by (rule run_pending_path [OF ok n(1)]) (use none in simp)
  moreover have "path_exists Root n (prepared w) = (Inr False, prepared w)"
    unfolding run_path_exists [OF ok] none by simp
  ultimately show ?thesis
    by (simp add: ack_def andthen_run run_prepare [OF rest] bnd_def when_m_def)
qed

text \<open>What \<open>enqueue\<close> leaves at the name it returns: nothing, if its own retention pass had to evict the
  record at once, or the flushed file with the serialized bytes.\<close>

definition stored :: "string \<Rightarrow> string \<Rightarrow> world \<Rightarrow> bool" where
  "stored d c w \<longleftrightarrow> lookup Root d w = None \<or> staged d c w"

lemma stored_invariant:
  assumes long: "2 \<le> length c" and d: "\<not> hidden d"
  shows "record_invariant (stored d c) (\<lambda>_ n. hidden n) (\<lambda>_. True)"
proof unfold_locales
  show "stored d c w'" if "stored d c w" "same_files w w'" for w w'
    using that(1) same_files_inodes [OF that(2)] by (auto simp: stored_def staged_def split: option.splits)
  show "stored d c (write_bytes i bs w)" if "stored d c w" "length (i_data (inodes w i)) \<le> 1" for w i bs
    using that long by (auto simp: stored_def staged_def write_bytes_def split: option.splits)
qed (use d in \<open>auto simp: stored_def staged_def lookup_put_ent lookup_del_ent lookup_create_ent lookup_unlink_ent
  create_ent_inodes guard_hidden split: option.splits if_splits\<close>)

lemma rsplit_dot_join: "rsplit_dot s = Some (stem, extension) \<Longrightarrow> s = stem @ ''.'' @ extension"
proof -
  assume split: "rsplit_dot s = Some (stem, extension)"
  obtain u where u: "takeWhile (\<lambda>c. c \<noteq> CHR ''.'') (rev s) = u" by blast
  from split have "CHR ''.'' \<in> set (rev s)" by (auto simp: rsplit_dot_def split: if_splits)
  then have "dropWhile (\<lambda>c. c \<noteq> CHR ''.'') (rev s) \<noteq> []" by (auto simp: dropWhile_eq_Nil_conv)
  then obtain r where "dropWhile (\<lambda>c. c \<noteq> CHR ''.'') (rev s) = CHR ''.'' # r"
    using hd_dropWhile [of "\<lambda>c. c \<noteq> CHR ''.''" "rev s"] by (cases "dropWhile (\<lambda>c. c \<noteq> CHR ''.'') (rev s)") simp_all
  with u have "rev s = u @ CHR ''.'' # r" using takeWhile_dropWhile_id [of "\<lambda>c. c \<noteq> CHR ''.''" "rev s"] by simp
  then have s: "s = rev r @ CHR ''.'' # rev u" by (simp add: rev_swap)
  then have "length s - length u - 1 = length r" by simp
  with split s u show ?thesis by (auto simp: rsplit_dot_def Let_def split: if_splits)
qed

lemma record_name_visible:
  assumes "record_name payload us = Inr name" and "numbered_name name k = Inr d"
  shows "\<not> hidden d"
proof -
  from assms(1) obtain x where name: "name = record_stamp us @ ''_'' @ x"
    by (cases payload) (auto split: option.splits if_splits)
  obtain a r where stamp: "record_stamp us = a # r" "is_digit a"
    using fixed_dec_digits [of 4 "d_year (to_date us)"]
    by (cases "fixed_dec 4 (d_year (to_date us))") (auto simp: record_stamp_def strftime_def fixed_dec_numeral)
  then have a: "a \<noteq> CHR ''.''" using plain_digit by blast
  show ?thesis
  proof (cases "k = 0")
    case False
    with assms(2) obtain stem extension where "rsplit_dot name = Some (stem, extension)"
      and d: "d = stem @ ''.'' @ dec k @ ''.'' @ extension"
      by (auto simp: numbered_name_def split: option.splits)
    from rsplit_dot_join [OF this(1)] name stamp(1) a show ?thesis
      unfolding d by (cases stem) (auto simp: starts_with_def)
  qed (use assms(2) name stamp(1) a in \<open>auto simp: numbered_name_def starts_with_def\<close>)
qed

lemma wp_enqueue:
  "wp (enqueue sp payload n)
     (\<lambda>d v. \<exists>us name c k. timestamp n w = (Inr us, w) \<and> record_name payload us = Inr name \<and>
        serialize (depth_limit sp) payload = Inr c \<and> numbered_name name k = Inr d \<and> stored d c v)
     (\<lambda>_ _. True) w"
proof -
  have time: "wp (timestamp n) (\<lambda>us v. v = w \<and> timestamp n w = (Inr us, w)) (\<lambda>_ _. True) w"
    by (cases n) (simp_all add: timestamp_def wp_def throw_def)
  show ?thesis
    unfolding enqueue_def wp_bnd
  proof (rule wp_mono [OF time])
    fix us v
    assume us: "v = w \<and> timestamp n w = (Inr us, w)"
    show "wp (lift_result (record_name payload us)) (\<lambda>name. wp (lift_result (serialize (depth_limit sp) payload))
        (\<lambda>c. wp (andthen (prepare sp) (bnd (write_staged sp c) (\<lambda>(t, fd). bnd (publish_record sp name t fd)
          (\<lambda>d. andthen (enforce_retention sp (Aware us)) (ret d)))))
        (\<lambda>d v. \<exists>us name c k. timestamp n w = (Inr us, w) \<and> record_name payload us = Inr name \<and>
          serialize (depth_limit sp) payload = Inr c \<and> numbered_name name k = Inr d \<and> stored d c v)
        (\<lambda>_ _. True)) (\<lambda>_ _. True)) (\<lambda>_ _. True) v"
    proof (cases "record_name payload us"; cases "serialize (depth_limit sp) payload")
      fix name c
      assume name: "record_name payload us = Inr name" and c: "serialize (depth_limit sp) payload = Inr c"
      have long: "2 \<le> length c" using record_name_dict [OF name] serialize_long c by blast
      note visible = record_name_visible [OF name]
      have retain: "wp (andthen (enforce_retention sp (Aware us)) (ret d)) (\<lambda>r u. r = d \<and> stored d c u)
          (\<lambda>_ _. True) u" if "staged d c u" "\<not> hidden d" for d u
      proof -
        have "keeps (stored d c) (enforce_retention sp (Aware us))"
          by (rule record_invariant.keeps_retention [OF stored_invariant [OF long that(2)]]) simp
        from keeps_wp [OF this, of u] that(1) have "wp (enforce_retention sp (Aware us)) (\<lambda>_. stored d c) (\<lambda>_. stored d c) u"
          by (simp add: stored_def)
        then show ?thesis by (auto simp: wp_andthen wp_ends intro: wp_mono)
      qed
      have publish: "wp (bnd (publish_record sp name t fd) (\<lambda>d. andthen (enforce_retention sp (Aware us)) (ret d)))
          (\<lambda>d v. (\<exists>k. numbered_name name k = Inr d) \<and> stored d c v) (\<lambda>_ _. True) u"
        if "temp_name t" "staged t c u" for t fd u
        unfolding wp_bnd
        by (rule wp_mono [OF wp_publish_record_done [OF long that visible]])
          (use visible in \<open>auto intro!: wp_mono [OF retain]\<close>)
      have staging: "wp (write_staged sp c) (\<lambda>(t, fd) v. staged t c v \<and> temp_name t) (\<lambda>_ _. True) u" for u
        by (rule wp_mono [OF anything.wp_write_staged [OF TrueI long]]) auto
      have "wp (andthen (prepare sp) (bnd (write_staged sp c) (\<lambda>(t, fd). bnd (publish_record sp name t fd)
          (\<lambda>d. andthen (enforce_retention sp (Aware us)) (ret d)))))
          (\<lambda>d v. (\<exists>k. numbered_name name k = Inr d) \<and> stored d c v) (\<lambda>_ _. True) v"
        unfolding wp_andthen
      proof (rule wp_mono [OF wp_true])
        show "wp (bnd (write_staged sp c) (\<lambda>(t, fd). bnd (publish_record sp name t fd)
            (\<lambda>d. andthen (enforce_retention sp (Aware us)) (ret d))))
            (\<lambda>d v. (\<exists>k. numbered_name name k = Inr d) \<and> stored d c v) (\<lambda>_ _. True) u" for u
          unfolding wp_bnd [of "write_staged sp c"]
          by (rule wp_mono [OF staging]) (auto intro: publish)
      qed simp
      then show ?thesis
        using us name c by (auto simp: wp_lift_result intro: wp_mono)
    qed (auto simp: wp_lift_result)
  qed simp
qed

section \<open>Properties\<close>

definition sample_ready :: world where
  "sample_ready = prepared sample_world"

lemma sample_split: "sample_name = ''20251129T080000000000Z_12345678-1234-4678-9234-567812345678'' @ ''.json''"
  by (simp add: sample_name_def)

lemma sample_suffix: "path_suffix sample_name = ''.json''"
  unfolding sample_split by (rule path_suffix_json) simp_all

lemma sample_json_name: "is_json_name sample_name"
  unfolding sample_split is_json_name_def by (rule ends_with_append)

lemma sample_ready_facts:
  "lookup Root sample_name sample_ready = Some 1" "ents sample_ready Root = [(sample_name, 1)]"
  "ents sample_ready Dead = []" "single_file sample_ready Root sample_name"
  "path_suffix sample_name = ''.json''" "is_json_name sample_name"
  unfolding sample_ready_def prepared_fields records_prepared
  by (rule sample_world_facts(1), simp add: sample_world_def put_ent_def empty_world_def,
    simp add: sample_world_def put_ent_def empty_world_def,
    rule sample_single, rule sample_suffix, rule sample_json_name)

lemma sample_at_rest: "at_rest sample_ready"
proof -
  have "faults sample_ready = []" by (simp add: sample_ready_def sample_world_facts)
  moreover have "dnodes sample_ready d = RealDir mode_700" for d by (cases d) (simp_all add: sample_ready_def prepared_def)
  moreover have "\<not> list_ex (starts_with sample_name) (artifact_prefixes Root)"
    by (simp add: sample_name_def starts_with_def artifact_prefixes_def)
  ultimately show ?thesis by (simp add: at_rest_def sample_ready_facts)
qed

text \<open>A spool at rest with one record of given name and bytes.\<close>

definition one_record :: "string \<Rightarrow> string \<Rightarrow> world" where
  "one_record n c =
     prepared (put_ent Root n 1 (set_inode 1 \<lparr>i_kind = Regular, i_data = c, i_nlink = 1, i_mode = mode_600,
       i_mtime = 0, i_synced = True\<rparr> (empty_world\<lparr>next_ino := 2\<rparr>)))"

lemma one_record_facts:
  "lookup Root n (one_record n c) = Some 1" "single_file (one_record n c) Root n"
  "i_data (inodes (one_record n c) 1) = c" "n \<in> fst ` set (ents (one_record n c) Root)"
  unfolding one_record_def prepared_fields records_prepared
  by (simp_all add: lookup_put_ent single_file_def, simp add: put_ent_def set_inode_def empty_world_def)

lemma one_record_at_rest:
  assumes "\<not> starts_with n ''.spool-''" and "\<not> starts_with n ''.publish-''"
  shows "at_rest (one_record n c)"
proof -
  have "dnodes (one_record n c) d = RealDir mode_700" for d by (cases d) (simp_all add: one_record_def prepared_def)
  moreover have "ents (one_record n c) Root = [(n, 1)]" "ents (one_record n c) Dead = []" "faults (one_record n c) = []"
    by (simp_all add: one_record_def put_ent_def set_inode_def empty_world_def)
  ultimately show ?thesis using assms by (simp add: at_rest_def artifact_prefixes_def)
qed

lemma sample_one_record: "at_rest (one_record sample_name c)"
  by (rule one_record_at_rest) (simp_all add: sample_name_def starts_with_def)

text \<open>C37: On a spool at rest \<open>pending\<close> always returns, and what it returns is every regular
  \<open>.json\<close> file of the directory exactly once, ordered by time and then by name.\<close>

theorem pending_in_order:
  assumes "at_rest w" and "distinct (map fst (ents w Root))"
  shows "\<exists>xs. pending sp w = (Inr xs, prepared w) \<and> distinct xs \<and>
    sorted (map (\<lambda>n. (time_of w n, n)) xs) \<and>
    set xs = {n \<in> fst ` set (ents w Root). is_json_name n \<and> single_file w Root n}"
proof (intro exI conjI)
  show "pending sp w = (Inr (records w), prepared w)" by (rule run_pending [OF assms(1)])
  show "distinct (records w)" by (rule distinct_records [OF assms(2)])
  show "sorted (map (\<lambda>n. (time_of w n, n)) (records w))" by (rule sorted_records)
  show "set (records w) = {n \<in> fst ` set (ents w Root). is_json_name n \<and> single_file w Root n}"
    using set_records by blast
qed

theorem pending_in_order_witness: "\<exists>xs. fst (pending sample_spool sample_ready) = Inr xs \<and> set xs = {sample_name}"
proof -
  have "distinct (map fst (ents sample_ready Root))" by (simp add: sample_ready_facts)
  from pending_in_order [OF sample_at_rest this, of sample_spool]
  obtain xs where "pending sample_spool sample_ready = (Inr xs, prepared sample_ready)"
    "set xs = {n \<in> fst ` set (ents sample_ready Root). is_json_name n \<and> single_file sample_ready Root n}" by blast
  moreover have "{n \<in> fst ` set (ents sample_ready Root). is_json_name n \<and> single_file sample_ready Root n} = {sample_name}"
    using sample_ready_facts(4,6) unfolding sample_ready_facts(2) by force
  ultimately show ?thesis by (metis fst_conv)
qed

text \<open>The order in which the operating system lists the directory makes no difference to
  \<open>pending\<close>: two worlds with the same entries and files give the same list.\<close>

theorem pending_scan_order:
  assumes "at_rest w" and "at_rest v" and "set (ents w Root) = set (ents v Root)" and "inodes w = inodes v"
    and "distinct (map fst (ents w Root))" and "distinct (map fst (ents v Root))"
  shows "fst (pending sp w) = fst (pending sp v)"
  using records_scan_order [OF assms(3-6)] by (simp add: run_pending assms(1,2))

theorem pending_scan_order_witness:
  "fst (pending sample_spool sample_ready) = fst (pending sample_spool sample_ready)"
  by (rule pending_scan_order [OF sample_at_rest sample_at_rest]) (simp_all add: sample_ready_facts)

text \<open>C38: \<open>ack\<close> removes the record it is given and nothing else, and acknowledging it again
  returns at once with nothing changed.\<close>

theorem ack_removes_once:
  assumes "at_rest w" and "path_suffix n = ''.json''" and "single_file w Root n"
  shows "\<exists>v. ack sp (At Root n) w = (Inr (), v) \<and> ack sp (At Root n) v = (Inr (), v) \<and>
    lookup Root n v = None \<and> (\<forall>d m. (d, m) \<noteq> (Root, n) \<longrightarrow> lookup d m v = lookup d m w) \<and>
    (\<forall>i. i_data (inodes v i) = i_data (inodes w i))"
proof -
  obtain v where v: "ack sp (At Root n) w = (Inr (), v)" "same_files (remove_record n (prepared w)) v"
    "at_rest v" "prepared v = v"
    using run_ack [OF assms] by blast
  note same = same_files_inodes [OF v(2)]
  have gone: "lookup Root n v = None" by (simp add: same(5) lookup_remove)
  moreover have "lookup d m v = lookup d m w" if "(d, m) \<noteq> (Root, n)" for d m
    using that by (auto simp: same(5) lookup_remove)
  moreover have "i_data (inodes v i) = i_data (inodes w i)" for i
    by (simp add: same(2) remove_record_def)
  ultimately show ?thesis
    using v run_ack_missing [OF v(3) assms(2) gone, of sp] by (intro exI [of _ v]) simp
qed

theorem ack_removes_once_witness:
  "\<exists>v. ack sample_spool (At Root sample_name) sample_ready = (Inr (), v) \<and> lookup Root sample_name v = None"
  using ack_removes_once [OF sample_at_rest sample_ready_facts(5,4), of sample_spool] by blast


text \<open>A payload without a UUID as event id, or one that cannot be serialized, makes \<open>enqueue\<close>
  raise before it makes a single system call.\<close>

theorem enqueue_refuses:
  assumes "timestamp t w = (Inr us, w)"
    and "\<not> valid_payload payload \<or> (\<exists>e. serialize (depth_limit sp) payload = Inl e)"
  shows "\<exists>e. enqueue sp payload t w = (Inl e, w)"
proof -
  have "\<exists>e. record_name payload us = Inl e" if "\<not> valid_payload payload"
    using that by (cases payload) (auto simp: valid_event_id_def split: option.splits)
  then show ?thesis
    using assms by (cases "record_name payload us") (auto simp: enqueue_def bnd_def lift_result_def)
qed

theorem enqueue_refuses_witness:
  "\<exists>e. enqueue sample_spool (JObj []) (Aware 5) sample_ready = (Inl e, sample_ready)"
  by (rule enqueue_refuses [where us = 5]) (simp_all add: timestamp_def valid_event_id_def dict_get_def)

text \<open>C40: The time of a record can be read back from its name: for every payload and instant, also
  after a collision number was put into the name, \<open>_record_time\<close> gives the instant the
  record was enqueued at, to the microsecond.\<close>

theorem record_name_time:
  assumes "valid_instant us" and "record_name payload us = Inr name" and "numbered_name name k = Inr d"
  shows "name_time d = Some us"
proof -
  from assms(2) obtain x where name: "name = record_stamp us @ ''_'' @ x @ ''.json''"
    by (cases payload) (auto split: option.splits if_splits)
  show ?thesis
  proof (cases "k = 0")
    case False
    with assms(3) obtain stem extension where "rsplit_dot name = Some (stem, extension)"
      and d: "d = stem @ ''.'' @ dec k @ ''.'' @ extension"
      by (auto simp: numbered_name_def split: option.splits)
    moreover have "rsplit_dot name = Some (record_stamp us @ ''_'' @ x, ''json'')"
      by (simp add: name rsplit_dot_def Let_def)
    ultimately have "d = record_stamp us @ ''_'' @ (x @ ''.'' @ dec k @ ''.json'')" by simp
    with name_time_stamp [OF assms(1)] show ?thesis by metis
  next
    case True
    with assms(3) have "d = record_stamp us @ ''_'' @ (x @ ''.json'')" by (simp add: name numbered_name_def)
    with name_time_stamp [OF assms(1)] show ?thesis by metis
  qed
qed

lemma sample_record_name: "record_name sample_payload 63900000000000000 = Inr sample_name"
proof -
  have "json_str (dict_get [(''event_id'', JStr ''12345678-1234-4678-9234-567812345678'')] ''event_id'') =
      Some ''12345678-1234-4678-9234-567812345678''" by code_simp
  moreover have "uuid_ok ''12345678-1234-4678-9234-567812345678''" by code_simp
  ultimately show ?thesis
    unfolding sample_payload_def by (simp add: sample_stamp sample_name_def)
qed

theorem record_name_time_witness:
  "\<exists>d. numbered_name sample_name 1 = Inr d \<and> name_time d = Some 63900000000000000"
proof -
  have "numbered_name sample_name 1 = Inr ''20251129T080000000000Z_12345678-1234-4678-9234-567812345678.1.json''"
    unfolding sample_name_def by code_simp
  with record_name_time [OF _ sample_record_name this] show ?thesis by (simp add: valid_instant_def)
qed

text \<open>A regular file named \<open>.json\<close> is listed by \<open>pending\<close> but \<open>load\<close> refuses the
  very name it was given.\<close>

theorem dot_json_listed_not_loaded:
  assumes "at_rest w" and "single_file w Root ''.json''" and "''.json'' \<in> fst ` set (ents w Root)"
  shows "\<exists>xs. pending sp w = (Inr xs, prepared w) \<and> ''.json'' \<in> set xs \<and>
    load sp (At Root ''.json'') w = (Inl (ValueError ''not a pending spool record''), prepared w)"
proof -
  have suffix: "path_suffix ''.json'' \<noteq> ''.json''" by (simp add: path_suffix_def last_dot_def Let_def)
  have "is_json_name ''.json''" by (simp add: is_json_name_def ends_with_def)
  with assms(2,3) have "''.json'' \<in> set (records w)" by (simp add: set_records)
  moreover have "load sp (At Root ''.json'') w = (Inl (ValueError ''not a pending spool record''), prepared w)"
    using suffix by (simp add: load_def andthen_def bnd_def run_prepare [OF assms(1)] pending_path_def)
  ultimately show ?thesis using run_pending [OF assms(1), of sp] by blast
qed

theorem dot_json_listed_not_loaded_witness:
  "\<exists>e v. load sample_spool (At Root ''.json'') (one_record ''.json'' ''{}'') = (Inl e, v)"
proof -
  have "at_rest (one_record ''.json'' ''{}'')" by (rule one_record_at_rest) (simp_all add: starts_with_def)
  from dot_json_listed_not_loaded [OF this one_record_facts(2,4), of sample_spool] show ?thesis by blast
qed

text \<open>C39: What \<open>load\<close> returns for a record is exactly the payload its bytes decode to.\<close>

theorem load_decodes:
  assumes "at_rest w" and "path_suffix n = ''.json''" and "single_file w Root n" and "lookup Root n w = Some i"
    and "json_load_bytes (depth_limit sp) (i_data (inodes w i)) = Inr payload" and "valid_payload payload"
  shows "\<exists>v. load sp (At Root n) w = (Inr (Some payload), v) \<and> same_files w v"
  using run_load [OF assms(1-4), of sp] assms(5,6) by auto

lemma depth_limit_set: "depth_limit (sp\<lparr>depth_limit := k\<rparr>) = k"
  by simp

definition sample_bytes :: string where
  \<open>sample_bytes = ''{"event_id":"12345678123446789234567812345678"}''\<close>

definition sample_decoded :: json where
  "sample_decoded = JObj [(''event_id'', JStr ''12345678123446789234567812345678'')]"

lemma sample_decodes: "json_load_bytes 9 sample_bytes = Inr sample_decoded" "valid_payload sample_decoded"
  by code_simp+

theorem load_decodes_witness:
  "\<exists>v. load (sample_spool\<lparr>depth_limit := 9\<rparr>) (At Root sample_name) (one_record sample_name sample_bytes) =
     (Inr (Some sample_decoded), v) \<and> same_files (one_record sample_name sample_bytes) v"
  by (rule load_decodes [OF sample_one_record sample_suffix one_record_facts(2,1)])
    (simp_all only: one_record_facts sample_decodes depth_limit_set)

text \<open>A record whose bytes make the decoder fail with anything but a decoding error (an integer
  of more than 4300 digits, too deep a nesting) is not moved to the dead letters: \<open>load\<close> raises
  and leaves it where it is.\<close>

theorem load_leaves_undecodable:
  assumes "at_rest w" and "path_suffix n = ''.json''" and "single_file w Root n" and "lookup Root n w = Some i"
    and "json_load_bytes (depth_limit sp) (i_data (inodes w i)) = Inl e"
    and "e \<noteq> JSONDecodeError" and "e \<noteq> UnicodeDecodeError" and "\<not> is_OSError e"
  shows "\<exists>v. load sp (At Root n) w = (Inl e, v) \<and> lookup Root n v = Some i"
proof -
  obtain v where "load sp (At Root n) w = (Inl e, v)" "same_files w v"
    using run_load [OF assms(1-4), of sp] assms(5-8) by auto
  then show ?thesis using assms(4) by (auto simp: same_files_inodes(5))
qed

lemma sample_too_deep: "json_load_bytes 0 ''{}'' = Inl RecursionError"
  by code_simp

theorem load_leaves_undecodable_witness:
  "\<exists>v. load (sample_spool\<lparr>depth_limit := 0\<rparr>) (At Root sample_name) (one_record sample_name ''{}'') =
     (Inl RecursionError, v) \<and> lookup Root sample_name v = Some 1"
  by (rule load_leaves_undecodable [OF sample_one_record sample_suffix one_record_facts(2,1)])
    (simp_all only: one_record_facts sample_too_deep depth_limit_set exn.distinct is_OSError.simps simp_thms)

end
