(* ===== verification/Numbers.thy ===== *)
theory Numbers
  imports Prelude
begin

text \<open>
  Python's numbers where the program computes with them: a \<open>float\<close> as an IEEE binary64 value
  (finite values as the rational they denote, the sign of zero apart), its rounding to nearest
  with ties to even, and the texts that \<open>int\<close> and \<open>float\<close> read.
\<close>

section \<open>Floats\<close>

datatype pyfloat = Fin rat | PInf | NInf | NaN

definition isfinite :: "pyfloat \<Rightarrow> bool" where
  "isfinite x \<longleftrightarrow> (case x of Fin _ \<Rightarrow> True | _ \<Rightarrow> False)"

text \<open>Comparisons: false whenever a NaN takes part.\<close>

fun fle :: "pyfloat \<Rightarrow> pyfloat \<Rightarrow> bool" where
  "fle (Fin a) (Fin b) \<longleftrightarrow> a \<le> b"
| "fle NaN _ \<longleftrightarrow> False"
| "fle _ NaN \<longleftrightarrow> False"
| "fle NInf _ \<longleftrightarrow> True"
| "fle _ PInf \<longleftrightarrow> True"
| "fle _ _ \<longleftrightarrow> False"

definition flt :: "pyfloat \<Rightarrow> pyfloat \<Rightarrow> bool" where
  "flt a b \<longleftrightarrow> fle a b \<and> a \<noteq> b"

text \<open>\<open>max(a, b)\<close> and \<open>min(a, b)\<close>: the second only if it is strictly beyond the first.\<close>

definition fmax :: "pyfloat \<Rightarrow> pyfloat \<Rightarrow> pyfloat" where
  "fmax a b = (if flt a b then b else a)"

definition fmin :: "pyfloat \<Rightarrow> pyfloat \<Rightarrow> pyfloat" where
  "fmin a b = (if flt b a then b else a)"

text \<open>
  Rounding a rational: \<open>2 powi log2_floor x\<close> is the largest power of two below \<open>\<bar>x\<bar>\<close>, and the
  spacing of binary64 values there is \<open>2\<^sup>-\<^sup>5\<^sup>2\<close> of it, at least \<open>2\<^sup>-\<^sup>1\<^sup>0\<^sup>7\<^sup>4\<close>.
\<close>

function bit_length :: "int \<Rightarrow> nat" where
  "bit_length n = (if n \<le> 0 then 0 else Suc (bit_length (n div 2)))"
  by auto
termination by (relation "measure nat") auto

declare bit_length.simps [simp del]

definition log2_floor :: "rat \<Rightarrow> int" where
  "log2_floor x =
     (let (p, q) = quotient_of \<bar>x\<bar>; e = int (bit_length p) - int (bit_length q)
      in if 2 powi e \<le> \<bar>x\<bar> then e else e - 1)"

definition spacing :: "rat \<Rightarrow> rat" where
  "spacing x = 2 powi (max (log2_floor x - 52) (- 1074))"

definition half_even :: "rat \<Rightarrow> int" where
  "half_even y =
     (let f = \<lfloor>y\<rfloor>; d = y - of_int f
      in if d < 1 / 2 then f else if 1 / 2 < d then f + 1 else if even f then f else f + 1)"

definition nearest :: "rat \<Rightarrow> rat" where
  "nearest x = (if x = 0 then 0 else spacing x * of_int (half_even (x / spacing x)))"

definition round64 :: "rat \<Rightarrow> pyfloat" where
  "round64 x =
     (let r = nearest x in if \<bar>r\<bar> < 2 ^ 1024 then Fin r else if 0 < x then PInf else NInf)"

text \<open>Products and sums; the infinite cases the program can reach.\<close>

definition fmul :: "rat \<Rightarrow> rat \<Rightarrow> pyfloat" where
  "fmul a b = round64 (a * b)"

definition fadd :: "rat \<Rightarrow> rat \<Rightarrow> pyfloat" where
  "fadd a b = round64 (a + b)"

subsection \<open>Facts about rounding\<close>

lemma bit_length_bounds: "0 < n \<Longrightarrow> 2 ^ (bit_length n - 1) \<le> n \<and> n < 2 ^ bit_length n"
proof (induction n rule: bit_length.induct)
  case (1 n)
  show ?case
  proof (cases "n = 1")
    case True
    then show ?thesis by (simp add: bit_length.simps)
  next
    case False
    with 1 have half: "2 ^ (bit_length (n div 2) - 1) \<le> n div 2" "n div 2 < 2 ^ bit_length (n div 2)" by auto
    have pos: "bit_length (n div 2) \<noteq> 0"
      using half(2) False 1(2) by (cases "bit_length (n div 2)") auto
    have n: "bit_length n = Suc (bit_length (n div 2))" using 1(2) by (subst bit_length.simps) simp
    have "2 ^ bit_length (n div 2) = (2 :: int) * 2 ^ (bit_length (n div 2) - 1)"
      using pos by (cases "bit_length (n div 2)") simp_all
    also have "\<dots> \<le> 2 * (n div 2)" using half(1) by simp
    also have "\<dots> \<le> n" by simp
    finally have "2 ^ bit_length (n div 2) \<le> n" .
    moreover have "n < 2 * 2 ^ bit_length (n div 2)" using half(2) by linarith
    ultimately show ?thesis by (simp add: n)
  qed
qed

lemma log2_floor_le:
  assumes "x \<noteq> 0"
  shows "2 powi log2_floor x \<le> \<bar>x\<bar>"
proof -
  obtain p q where pq: "quotient_of \<bar>x\<bar> = (p, q)" by (cases "quotient_of \<bar>x\<bar>")
  then have x: "\<bar>x\<bar> = of_int p / of_int q" and q: "0 < q"
    by (simp_all add: quotient_of_div quotient_of_denom_pos)
  have "0 < \<bar>x\<bar>" using assms by simp
  then have p: "0 < p" unfolding x using q by (simp add: zero_less_divide_iff)
  let ?a = "bit_length p" and ?b = "bit_length q"
  have a: "2 ^ (?a - 1) \<le> p" "?a \<noteq> 0" and b: "q \<le> 2 ^ ?b"
    using bit_length_bounds [OF p] bit_length_bounds [OF q] p by (auto simp: bit_length.simps)
  have "(2::rat) ^ (?a - 1) \<le> of_int p"
    using a(1) by (metis of_int_le_iff of_int_numeral of_int_power)
  moreover have "(of_int q :: rat) \<le> 2 ^ ?b"
    using b by (metis of_int_le_iff of_int_numeral of_int_power)
  ultimately have "(2::rat) ^ (?a - 1) / 2 ^ ?b \<le> of_int p / of_int q"
    using q p by (intro frac_le) simp_all
  moreover have "(2::rat) powi (int ?a - int ?b - 1) = 2 ^ (?a - 1) / 2 ^ ?b"
  proof -
    have e: "int ?a - int ?b - 1 = int (?a - 1) - int ?b" using a(2) by linarith
    show ?thesis unfolding e by (simp add: power_int_diff)
  qed
  ultimately show ?thesis
    using x pq by (simp add: log2_floor_def Let_def)
qed

lemma spacing_pos: "0 < spacing x"
  by (simp add: spacing_def)

lemma spacing_le:
  assumes "x \<noteq> 0" and "\<bar>x\<bar> \<le> 2 ^ k"
  shows "spacing x \<le> 2 powi (max (int k - 52) (- 1074))"
proof -
  have "(2::rat) powi log2_floor x \<le> 2 powi int k"
    using log2_floor_le [OF assms(1)] assms(2) by (simp add: power_int_of_nat)
  then have "log2_floor x \<le> int k"
    by (metis one_less_numeral_iff power_int_strict_increasing linorder_not_le semiring_norm(76))
  then show ?thesis
    unfolding spacing_def by (intro power_int_increasing) auto
qed

lemma half_even_bounds: "half_even y \<le> \<lceil>y\<rceil>" "\<lfloor>y\<rfloor> \<le> half_even y" "\<bar>of_int (half_even y) - y\<bar> \<le> 1 / 2"
proof -
  have "\<lfloor>y\<rfloor> + 1 \<le> \<lceil>y\<rceil>" if "y - of_int \<lfloor>y\<rfloor> \<noteq> 0"
    using that by (simp add: ceiling_altdef frac_def [symmetric]) (metis Ints_of_int frac_eq_0_iff frac_def)
  then show "half_even y \<le> \<lceil>y\<rceil>"
    unfolding half_even_def Let_def by (auto simp: floor_le_ceiling) 
  show "\<lfloor>y\<rfloor> \<le> half_even y" by (simp add: half_even_def Let_def)
  show "\<bar>of_int (half_even y) - y\<bar> \<le> 1 / 2"
    using floor_correct [of y] unfolding half_even_def Let_def by (auto simp: abs_le_iff)
qed

text \<open>Rounding moves a number by at most one half when it is small enough, and does not carry it over a
  multiple of one half.\<close>

lemma nearest_error:
  assumes "\<bar>x\<bar> \<le> 2 ^ 52"
  shows "\<bar>nearest x - x\<bar> \<le> 1 / 2"
proof (cases "x = 0")
  case False
  let ?u = "spacing x"
  have u: "0 < ?u" "?u \<le> 1" using spacing_pos spacing_le [OF False assms] by simp_all
  have "nearest x - x = ?u * (of_int (half_even (x / ?u)) - x / ?u)"
    using False u by (simp add: nearest_def right_diff_distrib)
  then have "\<bar>nearest x - x\<bar> = ?u * \<bar>of_int (half_even (x / ?u)) - x / ?u\<bar>"
    using u by (simp add: abs_mult)
  also have "\<dots> \<le> 1 * (1 / 2)"
    using half_even_bounds(3) u by (intro mult_mono) auto
  finally show ?thesis by simp
qed (simp add: nearest_def)

lemma nearest_nonneg: "0 \<le> x \<Longrightarrow> 0 \<le> nearest x"
proof -
  assume "0 \<le> x"
  then have "0 \<le> \<lfloor>x / spacing x\<rfloor>" using spacing_pos [of x] by (simp add: order_less_imp_le)
  then have "0 \<le> half_even (x / spacing x)" using half_even_bounds(2) order_trans by blast
  then show ?thesis using spacing_pos [of x] by (simp add: nearest_def order_less_imp_le)
qed

lemma nearest_le_halves:
  assumes "0 \<le> x" and "x \<le> of_int c / 2" and "x \<le> 2 ^ 50"
  shows "nearest x \<le> of_int c / 2"
proof (cases "x = 0")
  case False
  let ?e = "max (log2_floor x - 52) (- 1074)" and ?u = "spacing x"
  have u: "0 < ?u" by (rule spacing_pos)
  have "?u \<le> 2 powi (- 1)"
    using spacing_le [OF False, of 50] assms(1,3) by simp
  also have "\<dots> = 1 / 2" by (simp add: power_int_def)
  finally have half: "?u \<le> 1 / 2" .
  have "?e \<le> - 1"
  proof (rule ccontr)
    assume "\<not> ?e \<le> - 1"
    then have "(2::rat) powi 0 \<le> 2 powi ?e" by (intro power_int_increasing) simp_all
    with half show False by (simp add: spacing_def)
  qed
  then have "1 / 2 / ?u = 2 powi (- 1 - ?e)" "0 \<le> - 1 - ?e"
    by (simp_all add: spacing_def power_int_diff power_int_minus)
  then obtain m :: int where m: "1 / 2 / ?u = of_int m"
    by (metis of_int_numeral of_int_power power_int_nonneg_exp)
  have "x / ?u \<le> of_int c / 2 / ?u" using assms(2) u by (intro divide_right_mono) simp_all
  also have "\<dots> = of_int (c * m)" using m by (simp add: divide_simps mult.commute)
  finally have "half_even (x / ?u) \<le> c * m"
    using half_even_bounds(1) [of "x / ?u"] by (meson ceiling_le order_trans)
  then have "?u * of_int (half_even (x / ?u)) \<le> ?u * of_int (c * m)"
    using u by (simp only: mult_le_cancel_left_pos of_int_le_iff)
  also have "\<dots> = of_int c / 2"
  proof -
    have "?u * of_int m = 1 / 2" using m [symmetric] u by simp
    moreover have "?u * of_int (c * m) = of_int c * (?u * of_int m)" by (simp add: mult.left_commute)
    ultimately show ?thesis by simp
  qed
  finally show ?thesis using False by (simp add: nearest_def)
qed (use assms in \<open>simp add: nearest_def\<close>)


text \<open>Integers below \<open>2\<^sup>5\<^sup>3\<close> are floats.\<close>

lemma half_even_int: "half_even (of_int i) = i"
  by (simp add: half_even_def)

lemma nearest_int:
  assumes "\<bar>i\<bar> < 2 ^ 52"
  shows "nearest (of_int i) = of_int i"
proof (cases "i = 0")
  case False
  let ?x = "of_int i :: rat" and ?e = "max (log2_floor (of_int i) - 52) (- 1074)"
  have x: "?x \<noteq> 0" using False by simp
  have "\<bar>?x\<bar> \<le> 2 ^ 52"
    using assms by (metis of_int_abs of_int_le_iff of_int_numeral of_int_power order_less_imp_le)
  then have "(2::rat) powi log2_floor ?x \<le> 2 powi 52"
    using log2_floor_le [OF x] by (simp add: power_int_def)
  then have "log2_floor ?x \<le> 52"
    by (metis one_less_numeral_iff power_int_strict_increasing linorder_not_le semiring_norm(76))
  then have e: "0 \<le> - ?e" by simp
  have "1 / spacing ?x = 2 powi (- ?e)" by (simp add: spacing_def power_int_minus inverse_eq_divide)
  also have "\<dots> = of_int (2 ^ nat (- ?e))" using e by (simp add: power_int_nonneg_exp)
  finally have u: "1 / spacing ?x = of_int (2 ^ nat (- ?e))" .
  have "?x / spacing ?x = ?x * (1 / spacing ?x)" by simp
  then have whole: "?x / spacing ?x = of_int (i * 2 ^ nat (- ?e))" unfolding u by simp
  then have "half_even (?x / spacing ?x) = i * 2 ^ nat (- ?e)" by (simp only: half_even_int)
  then have "nearest ?x = spacing ?x * (?x / spacing ?x)"
    using x by (simp only: nearest_def if_False whole)
  then show ?thesis using spacing_pos [of ?x] by simp
qed (simp add: nearest_def)

lemma round64_small: "\<bar>x\<bar> \<le> 2 ^ 52 \<Longrightarrow> round64 x = Fin (nearest x)"
proof -
  assume x: "\<bar>x\<bar> \<le> 2 ^ 52"
  have "\<bar>nearest x\<bar> \<le> \<bar>x\<bar> + 1 / 2" using nearest_error [OF x] by linarith
  also have "\<dots> \<le> 2 ^ 52 + 1 / 2" using x by simp
  also have "\<dots> < 2 ^ 53" by simp
  also have "\<dots> \<le> 2 ^ 1024" by (intro power_increasing) simp_all
  finally show ?thesis by (simp add: round64_def)
qed

lemma round64_int: "\<bar>i\<bar> < 2 ^ 52 \<Longrightarrow> round64 (of_int i) = Fin (of_int i)"
proof -
  assume i: "\<bar>i\<bar> < 2 ^ 52"
  then have "\<bar>of_int i :: rat\<bar> \<le> 2 ^ 52"
    by (metis of_int_abs of_int_le_iff of_int_numeral of_int_power order_less_imp_le)
  then show ?thesis using nearest_int [OF i] round64_small by simp
qed

section \<open>Texts\<close>

text \<open>\<open>int(s)\<close>: white space around, a sign, digits with single underscores between them, no
  more than 4300 digits. \<open>None\<close> is \<open>ValueError\<close>.\<close>

fun decimal_digits :: "string \<Rightarrow> bool" where
  "decimal_digits [] = False"
| "decimal_digits [c] = is_digit c"
| "decimal_digits (c # d # s) =
     (is_digit c \<and> (if d = CHR ''_'' then decimal_digits s else decimal_digits (d # s)))"

definition signed :: "(string \<Rightarrow> 'a option) \<Rightarrow> ('a \<Rightarrow> 'a) \<Rightarrow> string \<Rightarrow> 'a option" where
  "signed read neg s =
     (case s of
        [] \<Rightarrow> read []
      | c # t \<Rightarrow> if c = CHR ''-'' then map_option neg (read t) else if c = CHR ''+'' then read t else read s)"

definition without_underscores :: "string \<Rightarrow> string" where
  "without_underscores = filter (\<lambda>c. c \<noteq> CHR ''_'')"

fun number_of :: "int \<Rightarrow> string \<Rightarrow> int" where
  "number_of a [] = a"
| "number_of a (c # cs) = number_of (10 * a + int (digit_val c)) cs"

definition read_digits :: "string \<Rightarrow> int option" where
  "read_digits s =
     (if decimal_digits s \<and> length (without_underscores s) \<le> 4300
      then Some (number_of 0 (without_underscores s)) else None)"

definition py_int :: "string \<Rightarrow> int option" where
  "py_int s = signed read_digits uminus (strip s)"

text \<open>
  \<open>float(s)\<close>: a decimal with an optional point and exponent, or \<open>inf\<close>, \<open>infinity\<close>,
  \<open>nan\<close> in any case. Underscores only between digits.
\<close>

fun underscores_ok :: "bool \<Rightarrow> string \<Rightarrow> bool" where
  "underscores_ok digit [] = True"
| "underscores_ok digit (c # s) =
     (if c = CHR ''_'' then digit \<and> (case s of [] \<Rightarrow> False | d # _ \<Rightarrow> is_digit d) \<and> underscores_ok False s
      else underscores_ok (is_digit c) s)"

definition read_exponent :: "string \<Rightarrow> int option" where
  "read_exponent s =
     (case s of
        [] \<Rightarrow> Some 0
      | c # t \<Rightarrow>
          if char_lower c = CHR ''e''
          then signed (\<lambda>u. if u \<noteq> [] \<and> list_all is_digit u then Some (number_of 0 u) else None) uminus t
          else None)"

datatype number_text = Decimal rat | Infinite | NotANumber

definition read_decimal :: "string \<Rightarrow> number_text option" where
  "read_decimal s =
     (let ip = takeWhile is_digit s; rest = dropWhile is_digit s;
          (fp, rest') = (case rest of
             c # t \<Rightarrow> if c = CHR ''.'' then (takeWhile is_digit t, dropWhile is_digit t) else ([], rest)
           | [] \<Rightarrow> ([], []))
      in if ip = [] \<and> fp = [] then None
         else map_option
                (\<lambda>e. Decimal (of_int (number_of 0 (ip @ fp)) * 10 powi (e - int (length fp))))
                (read_exponent rest'))"

definition read_number :: "string \<Rightarrow> number_text option" where
  "read_number s =
     (if casefold s \<in> {''inf'', ''infinity''} then Some Infinite
      else if casefold s = ''nan'' then Some NotANumber
      else read_decimal s)"

text \<open>A text as a sign and what follows it; then the nearest float.\<close>

definition float_text :: "string \<Rightarrow> (bool \<times> number_text) option" where
  "float_text s =
     (let t = strip s
      in if underscores_ok False t
         then signed (\<lambda>u. map_option (Pair False) (read_number u)) (\<lambda>(_, x). (True, x)) (without_underscores t)
         else None)"

fun float_of :: "bool \<times> number_text \<Rightarrow> pyfloat" where
  "float_of (neg, Decimal q) = round64 (if neg then - q else q)"
| "float_of (neg, Infinite) = (if neg then NInf else PInf)"
| "float_of (neg, NotANumber) = NaN"

definition py_float :: "string \<Rightarrow> pyfloat option" where
  "py_float s = map_option float_of (float_text s)"

subsection \<open>Writing and reading back\<close>

lemma decimal_digits_all: "s \<noteq> [] \<Longrightarrow> list_all is_digit s \<Longrightarrow> decimal_digits s"
proof (induction s rule: decimal_digits.induct)
  case (3 c d s)
  then have "d \<noteq> CHR ''_''" by (auto simp: is_digit_def)
  with 3 show ?case by simp
qed simp_all

lemma is_digit_not: "is_digit c \<Longrightarrow> c \<noteq> CHR ''_'' \<and> c \<noteq> CHR ''-'' \<and> c \<noteq> CHR ''+'' \<and> \<not> is_space c"
  by (auto simp: is_digit_def is_space_def)

lemma strip_clean: "\<forall>c \<in> set s. \<not> is_space c \<Longrightarrow> strip s = s"
proof -
  assume clean: "\<forall>c \<in> set s. \<not> is_space c"
  have "dropWhile is_space t = t" if "\<forall>c \<in> set t. \<not> is_space c" for t
    using that by (cases t) auto
  from this [of s] this [of "rev s"] clean show ?thesis by (simp add: strip_def)
qed

lemma number_of_undec: "number_of (int a) s = int (undec a s)"
proof (induction s arbitrary: a)
  case (Cons c s)
  from Cons [of "10 * a + digit_val c"] show ?case by simp
qed simp

lemma read_digits_dec: "length (dec n) \<le> 4300 \<Longrightarrow> read_digits (dec n) = Some (int n)"
proof -
  assume len: "length (dec n) \<le> 4300"
  have "list_all is_digit (dec n)" using dec_digits by (simp add: list_all_iff)
  moreover have "without_underscores (dec n) = dec n"
    using dec_digits [of n] is_digit_not unfolding without_underscores_def by (intro filter_True) blast
  ultimately show ?thesis
    using len using number_of_undec [of 0]
    by (simp add: read_digits_def decimal_digits_all undec_dec)
qed

lemma py_int_dec: "length (dec n) \<le> 4300 \<Longrightarrow> py_int (dec n) = Some (int n)"
proof -
  assume len: "length (dec n) \<le> 4300"
  have digits: "\<forall>c \<in> set (dec n). is_digit c" by (rule dec_digits)
  then have "strip (dec n) = dec n" using is_digit_not by (intro strip_clean) blast
  moreover obtain c t where "dec n = c # t" using dec_nonempty by (metis list.exhaust)
  moreover from this digits have "c \<noteq> CHR ''-''" "c \<noteq> CHR ''+''" using is_digit_not by auto
  ultimately show ?thesis using read_digits_dec [OF len] by (simp add: py_int_def signed_def)
qed

lemma py_int_dec_neg: "length (dec n) \<le> 4300 \<Longrightarrow> py_int (CHR ''-'' # dec n) = Some (- int n)"
proof -
  assume len: "length (dec n) \<le> 4300"
  have "strip (CHR ''-'' # dec n) = CHR ''-'' # dec n"
    using dec_digits [of n] is_digit_not by (intro strip_clean) (auto simp: is_space_def)
  then show ?thesis using read_digits_dec [OF len] by (simp add: py_int_def signed_def)
qed

end
