(* ===== verification/Config.thy ===== *)
theory Config
  imports Numbers Json
begin

text \<open>
  \<open>config.py\<close>: an environment read into an \<open>AgentConfig\<close>, every setting checked. The
  environment is a map from names to texts; a \<open>Path\<close> is the text it was made from. Three
  things outside the process are arguments: which paths are regular files (\<open>is_file\<close>),
  which bracketed hosts are IPv6 addresses (\<open>ipv6\<close>, the module \<open>ipaddress\<close>) and which
  non-ASCII host parts normalize safely (\<open>nfkc\<close>, the module \<open>unicodedata\<close>).
\<close>

section \<open>URLs\<close>

text \<open>\<open>s.partition(c)\<close> and \<open>s.rpartition(c)\<close>: what is before, whether \<open>c\<close> occurs, what is after.\<close>

definition partition_at :: "char \<Rightarrow> string \<Rightarrow> string \<times> bool \<times> string" where
  "partition_at c s = (takeWhile (\<lambda>x. x \<noteq> c) s, c \<in> set s, drop 1 (dropWhile (\<lambda>x. x \<noteq> c) s))"

definition rpartition_at :: "char \<Rightarrow> string \<Rightarrow> string \<times> bool \<times> string" where
  "rpartition_at c s =
     (if c \<in> set s
      then (rev (drop 1 (dropWhile (\<lambda>x. x \<noteq> c) (rev s))), True, rev (takeWhile (\<lambda>x. x \<noteq> c) (rev s)))
      else ([], False, s))"

definition is_ascii :: "string \<Rightarrow> bool" where
  "is_ascii s \<longleftrightarrow> list_all (\<lambda>c. (of_char c :: nat) < 128) s"

definition is_alpha :: "char \<Rightarrow> bool" where
  "is_alpha c \<longleftrightarrow> (let n = of_char c :: nat in 65 \<le> n \<and> n \<le> 90 \<or> 97 \<le> n \<and> n \<le> 122)"

definition scheme_char :: "char \<Rightarrow> bool" where
  "scheme_char c \<longleftrightarrow> is_alpha c \<or> is_digit c \<or> c \<in> set ''+-.''"

record url_rules =
  ipv6 :: "string \<Rightarrow> bool"
  nfkc :: "string \<Rightarrow> bool"

text \<open>\<open>urlsplit\<close>: leading control characters and blanks, tabs and newlines are dropped first.\<close>

definition url_text :: "string \<Rightarrow> string" where
  "url_text s =
     filter (\<lambda>c. (of_char c :: nat) \<notin> {9, 10, 13}) (dropWhile (\<lambda>c. (of_char c :: nat) \<le> 32) s)"

definition url_scheme :: "string \<Rightarrow> string \<times> string" where
  "url_scheme s =
     (let (before, found, after) = partition_at CHR '':'' s
      in if found \<and> before \<noteq> [] \<and> is_alpha (hd before) \<and> list_all scheme_char before
         then (casefold before, after) else ([], s))"

definition url_netloc :: "string \<Rightarrow> string" where
  "url_netloc s =
     (if starts_with s ''//'' then takeWhile (\<lambda>c. c \<notin> set ''/?#'') (drop 2 s) else [])"

definition future_host :: "string \<Rightarrow> bool" where
  "future_host s \<longleftrightarrow>
     (let (before, found, after) = partition_at CHR ''.'' (drop 1 s)
      in before \<noteq> [] \<and> list_all (\<lambda>c. is_digit c \<or> char_lower c \<in> set ''abcdef'') before \<and> found \<and>
         after \<noteq> [] \<and> CHR 0x0A \<notin> set after)"

definition host_part :: "string \<Rightarrow> string" where
  "host_part netloc = snd (snd (rpartition_at CHR ''@'' netloc))"

definition brackets_ok :: "url_rules \<Rightarrow> string \<Rightarrow> bool" where
  "brackets_ok rules netloc \<longleftrightarrow>
     (let opened = CHR ''['' \<in> set netloc; closed = CHR '']'' \<in> set netloc in
      opened = closed \<and>
      (opened \<longrightarrow>
        (let (before, br, bracketed) = partition_at CHR ''['' (host_part netloc);
             (host, _, port) = partition_at (if br then CHR '']'' else CHR '':'')
                                 (if br then bracketed else before)
         in (br \<longrightarrow> before = [] \<and> (port = [] \<or> hd port = CHR '':'')) \<and>
            (if starts_with host ''v'' then future_host host else ipv6 rules host))))"

definition urlsplit_ok :: "url_rules \<Rightarrow> string \<Rightarrow> bool" where
  "urlsplit_ok rules netloc \<longleftrightarrow> brackets_ok rules netloc \<and> (is_ascii netloc \<or> nfkc rules netloc)"

text \<open>The properties \<open>hostname\<close>, \<open>username\<close>, \<open>password\<close> and \<open>port\<close> of the result.\<close>

definition host_and_port :: "string \<Rightarrow> string \<times> string" where
  "host_and_port netloc =
     (let (before, br, bracketed) = partition_at CHR ''['' (host_part netloc)
      in if br
         then (let (host, _, rest) = partition_at CHR '']'' bracketed
               in (host, snd (snd (partition_at CHR '':'' rest))))
         else (let (host, _, port) = partition_at CHR '':'' before in (host, port)))"

definition has_credentials :: "string \<Rightarrow> bool" where
  "has_credentials netloc \<longleftrightarrow> fst (snd (rpartition_at CHR ''@'' netloc))"

definition port_ok :: "string \<Rightarrow> bool" where
  "port_ok port \<longleftrightarrow>
     port = [] \<or> list_all is_digit port \<and> (case read_digits port of None \<Rightarrow> False | Some n \<Rightarrow> n \<le> 65535)"

definition validate_collector_uri :: "url_rules \<Rightarrow> string \<Rightarrow> exn + unit" where
  "validate_collector_uri rules uri =
     (let (scheme, rest) = url_scheme (url_text uri);
          netloc = url_netloc rest;
          (hostname, port) = host_and_port netloc
      in bind_result
           (require (urlsplit_ok rules netloc \<and> port_ok port)
              (ConfigError ''MONITOR_COLLECTOR_URI must be a valid HTTPS URI'')) (\<lambda>_.
         bind_result
           (require (casefold scheme = ''https'')
              (ConfigError ''MONITOR_COLLECTOR_URI must use HTTPS'')) (\<lambda>_.
         bind_result
           (require (hostname \<noteq> [])
              (ConfigError ''MONITOR_COLLECTOR_URI must include a hostname'')) (\<lambda>_.
         require (\<not> has_credentials netloc)
           (ConfigError ''MONITOR_COLLECTOR_URI must not include credentials'')))))"

section \<open>Settings\<close>

type_synonym env = "string \<Rightarrow> string option"

definition parse_int :: "env \<Rightarrow> string \<Rightarrow> int \<Rightarrow> int \<Rightarrow> int \<Rightarrow> exn + int" where
  "parse_int env name dflt minimum maximum =
     (case env name of
        None \<Rightarrow> Inr dflt
      | Some raw \<Rightarrow>
          (case py_int raw of
             None \<Rightarrow> Inl (ConfigError (name @ '' must be an integer''))
           | Some n \<Rightarrow>
               if minimum \<le> n \<and> n \<le> maximum then Inr n
               else Inl (ConfigError (name @ '' must be between '' @ int_str minimum @ '' and '' @ int_str maximum))))"

text \<open>The limits of a float setting are the literals of the source.\<close>

definition literal :: "string \<Rightarrow> pyfloat" where
  "literal s = (case py_float s of Some x \<Rightarrow> x | None \<Rightarrow> NaN)"

definition parse_float :: "env \<Rightarrow> string \<Rightarrow> string \<Rightarrow> string \<Rightarrow> string \<Rightarrow> exn + pyfloat" where
  "parse_float env name dflt minimum maximum =
     (case env name of
        None \<Rightarrow> Inr (literal dflt)
      | Some raw \<Rightarrow>
          (case py_float raw of
             None \<Rightarrow> Inl (ConfigError (name @ '' must be a number''))
           | Some x \<Rightarrow>
               if fle (literal minimum) x \<and> fle x (literal maximum) then Inr x
               else Inl (ConfigError (name @ '' must be between '' @ minimum @ '' and '' @ maximum))))"

definition parse_bool :: "env \<Rightarrow> string \<Rightarrow> bool \<Rightarrow> exn + bool" where
  "parse_bool env name dflt =
     (case env name of
        None \<Rightarrow> Inr dflt
      | Some raw \<Rightarrow>
          if casefold raw \<in> {''true'', ''1'', ''yes''} then Inr True
          else if casefold raw \<in> {''false'', ''0'', ''no''} then Inr False
          else Inl (ConfigError (name @ '' must be true or false (also accepted: 1/0 or yes/no)'')))"

definition parse_paths :: "env \<Rightarrow> string \<Rightarrow> string \<Rightarrow> string list" where
  "parse_paths env name platform_name =
     (let raw = (case env name of None \<Rightarrow> [] | Some s \<Rightarrow> s);
          separator = (if platform_name = ''win32'' then CHR '';'' else CHR '':'')
      in filter (\<lambda>v. v \<noteq> []) (map strip (split_char separator raw)))"

definition backslash_path :: "string list \<Rightarrow> string" where
  "backslash_path = join [CHR 0x5C]"

definition default_spool_path :: "string \<Rightarrow> string" where
  "default_spool_path platform_name =
     (if platform_name = ''win32'' then backslash_path [''C:'', ''ProgramData'', ''MonitorAgent'', ''spool'']
      else if platform_name = ''darwin'' then ''/Library/Application Support/MonitorAgent/spool''
      else ''/var/lib/monitor-agent/spool'')"

definition default_log_path :: "string \<Rightarrow> string option" where
  "default_log_path platform_name =
     (if platform_name = ''win32''
      then Some (backslash_path [''C:'', ''ProgramData'', ''MonitorAgent'', ''logs'', ''monitor-agent.log''])
      else if platform_name = ''darwin'' then Some ''/Library/Logs/MonitorAgent/monitor-agent.log''
      else None)"

section \<open>The configuration\<close>

datatype cmdline_mode = ModeNone | ModeRedacted | ModeFull

datatype log_format = Text | Json

record config =
  collector_uri :: "string option"
  api_token :: "string option"
  heartbeat_sec :: int
  startup_delay_sec :: int
  connect_timeout_sec :: pyfloat
  read_timeout_sec :: pyfloat
  collection_timeout_sec :: pyfloat
  max_collector_workers :: int
  spool_path :: string
  spool_max_bytes :: int
  spool_max_age_sec :: int
  replay_batch_size :: int
  ca_bundle :: "string option"
  process_cmdline_mode :: cmdline_mode
  include_network_connections :: bool
  include_software :: bool
  include_active_window :: bool
  audit_paths :: "string list"
  audit_max_files :: int
  audit_max_file_bytes :: int
  screenshot_enabled :: bool
  screenshot_max_bytes :: int
  employee_notice_acknowledged :: bool
  log_path :: "string option"
  log_format :: log_format
  log_level :: string

text \<open>\<open>x or None\<close> for a text.\<close>

definition nonempty :: "string option \<Rightarrow> string option" where
  "nonempty v = (case v of Some s \<Rightarrow> if s = [] then None else Some s | None \<Rightarrow> None)"

definition get_or :: "env \<Rightarrow> string \<Rightarrow> string \<Rightarrow> string" where
  "get_or env name dflt = (case env name of None \<Rightarrow> dflt | Some s \<Rightarrow> s)"

definition parse_mode :: "string \<Rightarrow> exn + cmdline_mode" where
  "parse_mode v =
     (if v = ''none'' then Inr ModeNone else if v = ''redacted'' then Inr ModeRedacted
      else if v = ''full'' then Inr ModeFull
      else Inl (ConfigError ''MONITOR_PROCESS_CMDLINE_MODE must be none, redacted, or full''))"

definition parse_log_format :: "string \<Rightarrow> exn + log_format" where
  "parse_log_format v =
     (if v = ''text'' then Inr Text else if v = ''json'' then Inr Json
      else Inl (ConfigError ''MONITOR_LOG_FORMAT must be text or json''))"

text \<open>
  \<open>load_config\<close>: first what is checked before the object is built (\<open>checked_settings\<close> gives the
  values the second part needs), then the fields in the order of the call.
\<close>

record checked =
  ck_uri :: "string option"
  ck_token :: "string option"
  ck_ca :: "string option"
  ck_mode :: cmdline_mode
  ck_format :: log_format
  ck_window :: bool
  ck_audit :: "string list"
  ck_screenshot :: bool
  ck_notice :: bool

definition checked_settings ::
  "url_rules \<Rightarrow> (string \<Rightarrow> bool) \<Rightarrow> env \<Rightarrow> bool \<Rightarrow> string \<Rightarrow> exn + checked" where
  "checked_settings rules is_file source require_transport platform =
     (let uri = nonempty (source ''MONITOR_COLLECTOR_URI'');
          token = nonempty (source ''MONITOR_API_TOKEN'');
          ca = nonempty (source ''MONITOR_CA_BUNDLE'')
      in bind_result (case uri of None \<Rightarrow> Inr () | Some u \<Rightarrow> validate_collector_uri rules u) (\<lambda>_.
         bind_result
           (require (\<not> (require_transport \<and> uri = None))
              (ConfigError ''MONITOR_COLLECTOR_URI is required for transport'')) (\<lambda>_.
         bind_result
           (require (\<not> (require_transport \<and> token = None))
              (ConfigError ''MONITOR_API_TOKEN is required for transport'')) (\<lambda>_.
         bind_result
           (require (case ca of None \<Rightarrow> True | Some p \<Rightarrow> is_file p)
              (ConfigError ''MONITOR_CA_BUNDLE must identify an existing regular file'')) (\<lambda>_.
         bind_result (parse_mode (get_or source ''MONITOR_PROCESS_CMDLINE_MODE'' ''redacted'')) (\<lambda>mode.
         bind_result (parse_log_format (get_or source ''MONITOR_LOG_FORMAT'' ''text'')) (\<lambda>fmt.
         bind_result (parse_bool source ''MONITOR_INCLUDE_ACTIVE_WINDOW'' False) (\<lambda>window.
         let audit = parse_paths source ''MONITOR_AUDIT_PATHS'' platform in
         bind_result (parse_bool source ''MONITOR_SCREENSHOT_ENABLED'' False) (\<lambda>screenshot.
         bind_result (parse_bool source ''MONITOR_EMPLOYEE_NOTICE_ACK'' False) (\<lambda>notice.
         bind_result
           (require (\<not> ((window \<or> audit \<noteq> [] \<or> screenshot) \<and> \<not> notice))
              (ConfigError ''sensitive telemetry requires MONITOR_EMPLOYEE_NOTICE_ACK=true'')) (\<lambda>_.
         Inr \<lparr>ck_uri = uri, ck_token = token, ck_ca = ca, ck_mode = mode, ck_format = fmt,
              ck_window = window, ck_audit = audit, ck_screenshot = screenshot, ck_notice = notice\<rparr>)))))))))))"

definition load_config ::
  "url_rules \<Rightarrow> (string \<Rightarrow> bool) \<Rightarrow> env \<Rightarrow> bool \<Rightarrow> string \<Rightarrow> exn + config" where
  "load_config rules is_file source require_transport platform =
     bind_result (checked_settings rules is_file source require_transport platform) (\<lambda>c.
     bind_result (parse_int source ''MONITOR_HEARTBEAT_SEC'' 300 30 86400) (\<lambda>heartbeat.
     bind_result (parse_int source ''MONITOR_STARTUP_DELAY_SEC'' 30 0 3600) (\<lambda>startup.
     bind_result (parse_float source ''MONITOR_CONNECT_TIMEOUT_SEC'' ''5.0'' ''0.1'' ''300.0'') (\<lambda>connect.
     bind_result (parse_float source ''MONITOR_READ_TIMEOUT_SEC'' ''15.0'' ''0.1'' ''300.0'') (\<lambda>read.
     bind_result (parse_float source ''MONITOR_COLLECTION_TIMEOUT_SEC'' ''30.0'' ''1.0'' ''3600.0'') (\<lambda>collection.
     bind_result (parse_int source ''MONITOR_MAX_COLLECTOR_WORKERS'' 4 1 32) (\<lambda>workers.
     bind_result (parse_int source ''MONITOR_SPOOL_MAX_BYTES'' 104857600 1048576 10737418240) (\<lambda>spool_bytes.
     bind_result (parse_int source ''MONITOR_SPOOL_MAX_AGE_SEC'' 604800 3600 31536000) (\<lambda>spool_age.
     bind_result (parse_int source ''MONITOR_REPLAY_BATCH_SIZE'' 20 1 1000) (\<lambda>batch.
     bind_result (parse_bool source ''MONITOR_INCLUDE_NETWORK_CONNECTIONS'' True) (\<lambda>network.
     bind_result (parse_bool source ''MONITOR_INCLUDE_SOFTWARE'' True) (\<lambda>software.
     bind_result (parse_int source ''MONITOR_AUDIT_MAX_FILES'' 50 1 1000) (\<lambda>files.
     bind_result (parse_int source ''MONITOR_AUDIT_MAX_FILE_BYTES'' 10485760 1024 1073741824) (\<lambda>file_bytes.
     bind_result (parse_int source ''MONITOR_SCREENSHOT_MAX_BYTES'' 5242880 1024 52428800) (\<lambda>shot_bytes.
     Inr \<lparr>collector_uri = ck_uri c, api_token = ck_token c, heartbeat_sec = heartbeat,
          startup_delay_sec = startup, connect_timeout_sec = connect, read_timeout_sec = read,
          collection_timeout_sec = collection, max_collector_workers = workers,
          spool_path = (case nonempty (source ''MONITOR_SPOOL_PATH'') of
                          Some p \<Rightarrow> p | None \<Rightarrow> default_spool_path platform),
          spool_max_bytes = spool_bytes, spool_max_age_sec = spool_age, replay_batch_size = batch,
          ca_bundle = ck_ca c, process_cmdline_mode = ck_mode c, include_network_connections = network,
          include_software = software, include_active_window = ck_window c, audit_paths = ck_audit c,
          audit_max_files = files, audit_max_file_bytes = file_bytes, screenshot_enabled = ck_screenshot c,
          screenshot_max_bytes = shot_bytes, employee_notice_acknowledged = ck_notice c,
          log_path = (case nonempty (source ''MONITOR_LOG_PATH'') of
                        Some p \<Rightarrow> Some p | None \<Rightarrow> default_log_path platform),
          log_format = ck_format c,
          log_level = upper (get_or source ''MONITOR_LOG_LEVEL'' ''INFO'')\<rparr>)))))))))))))))"

section \<open>Facts about the settings\<close>

lemma literals:
  "literal ''0.1'' = Fin (3602879701896397 / 36028797018963968)" "literal ''1.0'' = Fin 1"
  "literal ''5.0'' = Fin 5" "literal ''15.0'' = Fin 15" "literal ''30.0'' = Fin 30"
  "literal ''300.0'' = Fin 300" "literal ''3600.0'' = Fin 3600"
proof -
  have whole: "literal s = Fin (of_int i)" if "float_text s = Some (False, Decimal (of_int i))" "\<bar>i\<bar> < 2 ^ 52" for s i
    using that by (simp add: literal_def py_float_def round64_int)
  have texts: "float_text ''1.0'' = Some (False, Decimal 1)" "float_text ''5.0'' = Some (False, Decimal 5)"
    "float_text ''15.0'' = Some (False, Decimal 15)" "float_text ''30.0'' = Some (False, Decimal 30)"
    "float_text ''300.0'' = Some (False, Decimal 300)" "float_text ''3600.0'' = Some (False, Decimal 3600)"
    by code_simp+
  show "literal ''1.0'' = Fin 1" "literal ''5.0'' = Fin 5" "literal ''15.0'' = Fin 15"
    "literal ''30.0'' = Fin 30" "literal ''300.0'' = Fin 300" "literal ''3600.0'' = Fin 3600"
    using whole [of "''1.0''" 1] whole [of "''5.0''" 5] whole [of "''15.0''" 15] whole [of "''30.0''" 30]
      whole [of "''300.0''" 300] whole [of "''3600.0''" 3600] by (simp_all add: texts)
  have tenth: "float_text ''0.1'' = Some (False, Decimal (1 / 10))" "log2_floor (1 / 10) = - 4"
    "half_even (36028797018963968 / 5) = 7205759403792794"
    by code_simp+
  have gap: "spacing (1 / 10) = 1 / 72057594037927936" by (simp add: spacing_def tenth(2) power_int_minus)
  have "nearest (1 / 10) = 3602879701896397 / 36028797018963968" by (simp add: nearest_def gap tenth(3))
  then show "literal ''0.1'' = Fin (3602879701896397 / 36028797018963968)"
    by (simp add: literal_def py_float_def tenth(1) round64_small)
qed

lemma parse_int_range:
  "parse_int env name d lo hi = Inr n \<Longrightarrow> lo \<le> d \<Longrightarrow> d \<le> hi \<Longrightarrow> lo \<le> n \<and> n \<le> hi"
  by (auto simp: parse_int_def split: option.splits if_splits)

definition float_within :: "rat \<Rightarrow> rat \<Rightarrow> pyfloat \<Rightarrow> bool" where
  "float_within lo hi x \<longleftrightarrow> (case x of Fin r \<Rightarrow> lo \<le> r \<and> r \<le> hi | _ \<Rightarrow> False)"

lemma parse_float_range:
  "parse_float env name d lo hi = Inr x \<Longrightarrow> literal lo = Fin l \<Longrightarrow> literal hi = Fin h \<Longrightarrow>
   literal d = Fin m \<Longrightarrow> l \<le> m \<Longrightarrow> m \<le> h \<Longrightarrow> float_within l h x"
  by (cases x) (auto simp: parse_float_def float_within_def split: option.splits if_splits)

lemma parse_errors:
  "parse_int env name d lo hi = Inl e \<Longrightarrow> \<exists>m. e = ConfigError m"
  "parse_float env name d' lo' hi' = Inl e \<Longrightarrow> \<exists>m. e = ConfigError m"
  "parse_bool env name b = Inl e \<Longrightarrow> \<exists>m. e = ConfigError m"
  "parse_mode v = Inl e \<Longrightarrow> \<exists>m. e = ConfigError m"
  "parse_log_format v = Inl e \<Longrightarrow> \<exists>m. e = ConfigError m"
  "validate_collector_uri rules uri = Inl e \<Longrightarrow> \<exists>m. e = ConfigError m"
  by (auto simp: parse_int_def parse_float_def parse_bool_def parse_mode_def parse_log_format_def
      validate_collector_uri_def Let_def bind_result_Inl split: option.splits if_splits prod.splits)

lemma checked_errors: "checked_settings rules is_file source transport platform = Inl e \<Longrightarrow> \<exists>m. e = ConfigError m"
  by (auto simp: checked_settings_def Let_def bind_result_Inl split: option.splits
      dest: parse_errors(3-6))

lemma validated_uri:
  assumes "validate_collector_uri rules uri = Inr ()"
  obtains netloc rest where "url_scheme (url_text uri) = (''https'', rest)" and "netloc = url_netloc rest"
    and "CHR ''@'' \<notin> set netloc" and "fst (host_and_port netloc) \<noteq> []" and "port_ok (snd (host_and_port netloc))"
proof -
  obtain scheme rest where split: "url_scheme (url_text uri) = (scheme, rest)"
    by (cases "url_scheme (url_text uri)")
  have lower: "casefold (casefold t) = casefold t" for t
    by (simp add: casefold_def char_lower_def Let_def)
  have "scheme = ''https''"
    using assms split by (auto simp: validate_collector_uri_def url_scheme_def Let_def bind_result_Inr lower
        split: prod.splits if_splits) (auto simp: casefold_def)
  moreover have "CHR ''@'' \<notin> set (url_netloc rest)" "fst (host_and_port (url_netloc rest)) \<noteq> []"
    "port_ok (snd (host_and_port (url_netloc rest)))"
    using assms split
    by (auto simp: validate_collector_uri_def Let_def bind_result_Inr has_credentials_def rpartition_at_def
        split: prod.splits if_splits)
  ultimately show thesis using split that by blast
qed

lemma checked_facts:
  assumes "checked_settings rules is_file source transport platform = Inr c"
  shows "transport \<Longrightarrow> \<exists>u t. ck_uri c = Some u \<and> ck_token c = Some t \<and> u \<noteq> [] \<and> t \<noteq> []"
    and "ck_uri c = Some u \<Longrightarrow> validate_collector_uri rules u = Inr ()"
    and "ck_ca c = Some p \<Longrightarrow> is_file p"
    and "ck_window c \<or> ck_audit c \<noteq> [] \<or> ck_screenshot c \<Longrightarrow> ck_notice c"
proof -
  let ?uri = "nonempty (source ''MONITOR_COLLECTOR_URI'')" and ?token = "nonempty (source ''MONITOR_API_TOKEN'')"
  have some: "nonempty v = Some s \<Longrightarrow> s \<noteq> []" for v s by (auto simp: nonempty_def split: option.splits if_splits)
  have c: "ck_uri c = ?uri" "ck_token c = ?token" "ck_ca c = nonempty (source ''MONITOR_CA_BUNDLE'')"
    "(case ?uri of None \<Rightarrow> Inr () | Some u \<Rightarrow> validate_collector_uri rules u) = Inr ()"
    "\<not> (transport \<and> ?uri = None)" "\<not> (transport \<and> ?token = None)"
    "(case nonempty (source ''MONITOR_CA_BUNDLE'') of None \<Rightarrow> True | Some p \<Rightarrow> is_file p)"
    "\<not> ((ck_window c \<or> ck_audit c \<noteq> [] \<or> ck_screenshot c) \<and> \<not> ck_notice c)"
    using assms unfolding checked_settings_def Let_def by (clarsimp simp: bind_result_Inr)+
  show "transport \<Longrightarrow> \<exists>u t. ck_uri c = Some u \<and> ck_token c = Some t \<and> u \<noteq> [] \<and> t \<noteq> []"
    using c(1,2,5,6) some by auto
  show "ck_uri c = Some u \<Longrightarrow> validate_collector_uri rules u = Inr ()" using c(1,4) by simp
  show "ck_ca c = Some p \<Longrightarrow> is_file p" using c(3,7) by simp
  show "ck_window c \<or> ck_audit c \<noteq> [] \<or> ck_screenshot c \<Longrightarrow> ck_notice c" using c(8) by blast
qed

definition within_limits :: "config \<Rightarrow> bool" where
  "within_limits c \<longleftrightarrow>
     30 \<le> heartbeat_sec c \<and> heartbeat_sec c \<le> 86400 \<and>
     0 \<le> startup_delay_sec c \<and> startup_delay_sec c \<le> 3600 \<and>
     float_within (1 / 16) 300 (connect_timeout_sec c) \<and> float_within (1 / 16) 300 (read_timeout_sec c) \<and>
     float_within 1 3600 (collection_timeout_sec c) \<and>
     1 \<le> max_collector_workers c \<and> max_collector_workers c \<le> 32 \<and>
     1048576 \<le> spool_max_bytes c \<and> spool_max_bytes c \<le> 10737418240 \<and>
     3600 \<le> spool_max_age_sec c \<and> spool_max_age_sec c \<le> 31536000 \<and>
     1 \<le> replay_batch_size c \<and> replay_batch_size c \<le> 1000 \<and>
     1 \<le> audit_max_files c \<and> audit_max_files c \<le> 1000 \<and>
     1024 \<le> audit_max_file_bytes c \<and> audit_max_file_bytes c \<le> 1073741824 \<and>
     1024 \<le> screenshot_max_bytes c \<and> screenshot_max_bytes c \<le> 52428800"

lemma load_config_fields:
  assumes "load_config rules is_file source transport platform = Inr c"
  shows "within_limits c"
proof -
  have ints: "parse_int source ''MONITOR_HEARTBEAT_SEC'' 300 30 86400 = Inr (heartbeat_sec c)"
    "parse_int source ''MONITOR_STARTUP_DELAY_SEC'' 30 0 3600 = Inr (startup_delay_sec c)"
    "parse_int source ''MONITOR_MAX_COLLECTOR_WORKERS'' 4 1 32 = Inr (max_collector_workers c)"
    "parse_int source ''MONITOR_SPOOL_MAX_BYTES'' 104857600 1048576 10737418240 = Inr (spool_max_bytes c)"
    "parse_int source ''MONITOR_SPOOL_MAX_AGE_SEC'' 604800 3600 31536000 = Inr (spool_max_age_sec c)"
    "parse_int source ''MONITOR_REPLAY_BATCH_SIZE'' 20 1 1000 = Inr (replay_batch_size c)"
    "parse_int source ''MONITOR_AUDIT_MAX_FILES'' 50 1 1000 = Inr (audit_max_files c)"
    "parse_int source ''MONITOR_AUDIT_MAX_FILE_BYTES'' 10485760 1024 1073741824 = Inr (audit_max_file_bytes c)"
    "parse_int source ''MONITOR_SCREENSHOT_MAX_BYTES'' 5242880 1024 52428800 = Inr (screenshot_max_bytes c)"
    and floats: "parse_float source ''MONITOR_CONNECT_TIMEOUT_SEC'' ''5.0'' ''0.1'' ''300.0'' = Inr (connect_timeout_sec c)"
    "parse_float source ''MONITOR_READ_TIMEOUT_SEC'' ''15.0'' ''0.1'' ''300.0'' = Inr (read_timeout_sec c)"
    "parse_float source ''MONITOR_COLLECTION_TIMEOUT_SEC'' ''30.0'' ''1.0'' ''3600.0'' = Inr (collection_timeout_sec c)"
    using assms unfolding load_config_def by (clarsimp simp: bind_result_Inr)+
  have weaken: "float_within (3602879701896397 / 36028797018963968) 300 x \<Longrightarrow> float_within (1 / 16) 300 x" for x
    by (auto simp: float_within_def split: pyfloat.splits)
  note limits = ints [THEN parse_int_range] weaken [OF parse_float_range [OF floats(1) literals(1,6,3)]]
    weaken [OF parse_float_range [OF floats(2) literals(1,6,4)]] parse_float_range [OF floats(3) literals(2,7,5)]
  show ?thesis unfolding within_limits_def using limits by simp
qed

lemma load_config_checked:
  assumes "load_config rules is_file source transport platform = Inr c"
  obtains k where "checked_settings rules is_file source transport platform = Inr k"
    and "collector_uri c = ck_uri k" and "api_token c = ck_token k" and "ca_bundle c = ck_ca k"
    and "include_active_window c = ck_window k" and "audit_paths c = ck_audit k"
    and "screenshot_enabled c = ck_screenshot k" and "employee_notice_acknowledged c = ck_notice k"
  using assms that unfolding load_config_def by (auto simp: bind_result_Inr)

section \<open>Properties\<close>

definition sample_env :: env where
  "sample_env =
     [''MONITOR_COLLECTOR_URI'' \<mapsto> ''https://collector.example/v1'', ''MONITOR_API_TOKEN'' \<mapsto> ''secret'',
      ''MONITOR_SCREENSHOT_ENABLED'' \<mapsto> ''Yes'', ''MONITOR_EMPLOYEE_NOTICE_ACK'' \<mapsto> ''1'',
      ''MONITOR_HEARTBEAT_SEC'' \<mapsto> ''60'']"

definition sample_rules :: url_rules where
  "sample_rules = \<lparr>ipv6 = (\<lambda>_. False), nfkc = (\<lambda>_. False)\<rparr>"

lemma sample_config:
  "\<exists>c. load_config sample_rules (\<lambda>_. False) sample_env True ''linux'' = Inr c \<and> screenshot_enabled c"
proof -
  have lower: "casefold ''Yes'' = ''yes''" "casefold ''1'' = ''1''" by code_simp+
  have uri: "validate_collector_uri sample_rules ''https://collector.example/v1'' = Inr ()" by code_simp
  have "\<exists>c. checked_settings sample_rules (\<lambda>_. False) sample_env True ''linux'' = Inr c \<and> ck_screenshot c"
    by (simp add: checked_settings_def sample_env_def nonempty_def uri require_def get_or_def parse_mode_def
        parse_log_format_def parse_bool_def lower parse_paths_def strip_def)
  then obtain c where c: "checked_settings sample_rules (\<lambda>_. False) sample_env True ''linux'' = Inr c" "ck_screenshot c"
    by blast
  have "py_int ''60'' = Some 60" by code_simp
  then show ?thesis
    by (simp add: load_config_def c, simp add: parse_int_def parse_float_def parse_bool_def sample_env_def c)
qed



text \<open>C28: Sensitive telemetry (active window, audited files, screenshots) is never configured without
  the employee notice acknowledged.\<close>

theorem sensitive_needs_notice:
  assumes "load_config rules is_file source transport platform = Inr c"
    and "include_active_window c \<or> audit_paths c \<noteq> [] \<or> screenshot_enabled c"
  shows "employee_notice_acknowledged c"
proof -
  obtain k where "checked_settings rules is_file source transport platform = Inr k"
    "include_active_window c = ck_window k" "audit_paths c = ck_audit k"
    "screenshot_enabled c = ck_screenshot k" "employee_notice_acknowledged c = ck_notice k"
    by (rule load_config_checked [OF assms(1)])
  with checked_facts(4) assms(2) show ?thesis by metis
qed

theorem sensitive_needs_notice_witness:
  "\<exists>c. load_config sample_rules (\<lambda>_. False) sample_env True ''linux'' = Inr c \<and> employee_notice_acknowledged c"
  using sample_config sensitive_needs_notice by blast

text \<open>C29: A configuration that may transmit has a token and a collector URI that is HTTPS, names a
  host, and carries no user information: there is no \<open>@\<close> in its network location.\<close>

theorem transport_needs_safe_uri:
  assumes "load_config rules is_file source True platform = Inr c"
  shows "\<exists>u t rest. collector_uri c = Some u \<and> api_token c = Some t \<and> t \<noteq> [] \<and>
    url_scheme (url_text u) = (''https'', rest) \<and> CHR ''@'' \<notin> set (url_netloc rest) \<and>
    fst (host_and_port (url_netloc rest)) \<noteq> []"
proof -
  obtain k where k: "checked_settings rules is_file source True platform = Inr k"
    and c: "collector_uri c = ck_uri k" "api_token c = ck_token k"
    by (rule load_config_checked [OF assms])
  obtain u t where ut: "ck_uri k = Some u" "ck_token k = Some t" "t \<noteq> []" using checked_facts(1) [OF k] by blast
  then show ?thesis
    using validated_uri [OF checked_facts(2) [OF k ut(1)]] c by (metis (no_types))
qed

theorem transport_needs_safe_uri_witness:
  "\<exists>c u. load_config sample_rules (\<lambda>_. False) sample_env True ''linux'' = Inr c \<and> collector_uri c = Some u"
  using sample_config transport_needs_safe_uri by blast

text \<open>The only exception \<open>load_config\<close> raises is \<open>ConfigError\<close>, the one the command line turns
  into exit code 2.\<close>

theorem load_config_raises_config_error:
  "case load_config rules is_file source transport platform of
     Inl e \<Rightarrow> \<exists>m. e = ConfigError m | Inr c \<Rightarrow> within_limits c"
proof (cases "load_config rules is_file source transport platform")
  case (Inl e)
  then have "\<exists>m. e = ConfigError m"
    unfolding load_config_def bind_result_Inl by (auto dest: parse_errors checked_errors)
  with Inl show ?thesis by simp
qed (simp add: load_config_fields)

text \<open>An integer setting written in decimal is read back as it was written when it is within the
  limits, and refused when it is not.\<close>

theorem setting_round_trip:
  assumes "length (dec (nat \<bar>i\<bar>)) \<le> 4300"
  shows "parse_int (env(name \<mapsto> int_str i)) name dflt lo hi =
     (if lo \<le> i \<and> i \<le> hi then Inr i
      else Inl (ConfigError (name @ '' must be between '' @ int_str lo @ '' and '' @ int_str hi)))"
proof -
  have "py_int (int_str i) = Some i"
    using assms py_int_dec [of "nat i"] py_int_dec_neg [of "nat (- i)"] by (auto simp: int_str_def)
  then show ?thesis by (simp add: parse_int_def)
qed

theorem setting_round_trip_witness:
  "parse_int ((\<lambda>_. None)(''MONITOR_HEARTBEAT_SEC'' \<mapsto> int_str 60)) ''MONITOR_HEARTBEAT_SEC'' 300 30 86400 = Inr 60"
proof -
  have "length (dec (nat \<bar>60\<bar>)) \<le> 4300" by (simp add: dec.simps)
  from setting_round_trip [OF this] show ?thesis by simp
qed

end
