(* ===== verification/Payload.thy ===== *)
theory Payload
  imports Models Config
begin

text \<open>
  \<open>payload.py\<close>: the JSON document of one event. The versions of the package, of Python and of
  the platform are in \<open>host\<close>; \<open>fresh\<close> is what \<open>uuid4()\<close> gives, \<open>clock\<close> what the clock shows.
\<close>

section \<open>The document\<close>

record host =
  host_version :: string
  host_python :: string
  host_platform :: string

definition section_names :: "string list" where
  "section_names =
     [''system'', ''users'', ''cpu'', ''memory'', ''disks'', ''network'', ''processes'', ''software'',
      ''active_window'', ''file_audit'', ''screenshot'']"

definition default_sections :: dict where
  "default_sections =
     [(''system'', JObj []), (''users'', JList []), (''cpu'', JObj []), (''memory'', JObj []),
      (''disks'', JList []),
      (''network'', JObj [(''adapters'', JList []), (''connections'', JList []), (''io'', JObj [])]),
      (''processes'', JList []), (''software'', JList []),
      (''active_window'', JObj [(''title'', JNull), (''app'', JNull), (''pid'', JNull)]),
      (''file_audit'', JList []), (''screenshot'', JNull)]"

text \<open>The event pattern: a lower-case letter, then at most 63 letters, digits, underscores, hyphens.\<close>

definition is_lower :: "char \<Rightarrow> bool" where
  "is_lower c \<longleftrightarrow> (let n = of_char c :: nat in 97 \<le> n \<and> n \<le> 122)"

definition event_ok :: "string \<Rightarrow> bool" where
  "event_ok s \<longleftrightarrow>
     (case s of
        [] \<Rightarrow> False
      | c # t \<Rightarrow> is_lower c \<and> length t \<le> 63 \<and>
                 list_all (\<lambda>x. is_lower x \<or> is_digit x \<or> x = CHR ''_'' \<or> x = CHR ''-'') t)"

definition payload_timestamp :: "int \<Rightarrow> now \<Rightarrow> exn + string" where
  "payload_timestamp clock n =
     (case n of
        NowNone \<Rightarrow> Inr (iso_utc clock)
      | Naive \<Rightarrow> Inl (ValueError ''now must be timezone-aware'')
      | Aware us \<Rightarrow> Inr (iso_utc us))"

text \<open>One turn of the loop over the results: the collector's entry, then the sections it may fill.\<close>

definition collector_entry :: "collector_result \<Rightarrow> json" where
  "collector_entry r =
     JObj [(''status'', JStr (status_value (res_status r))), (''duration_ms'', JInt (res_duration_ms r)),
           (''error_code'', opt_str (res_error_code r)), (''error_message'', opt_str (res_error_message r))]"

definition fill_section :: "dict \<Rightarrow> string \<Rightarrow> dict \<Rightarrow> dict" where
  "fill_section data name sections =
     (case dict_get data name of None \<Rightarrow> sections | Some v \<Rightarrow> dict_set name v sections)"

definition add_result :: "collector_result \<Rightarrow> dict \<times> dict \<Rightarrow> dict \<times> dict" where
  "add_result r acc =
     (case acc of (sections, collectors) \<Rightarrow>
        let collectors = dict_set (res_name r) (collector_entry r) collectors in
        if res_status r \<notin> {CSuccess, CPartial} then (sections, collectors)
        else (case res_data r of
                JObj data \<Rightarrow> (fold (fill_section data) section_names sections, collectors)
              | _ \<Rightarrow> (sections, collectors)))"

definition document ::
  "host \<Rightarrow> identity \<Rightarrow> batch \<Rightarrow> string \<Rightarrow> string \<Rightarrow> string \<Rightarrow> dict \<times> dict \<Rightarrow> dict" where
  "document h ident b event timestamp event_id acc =
     [(''schema_version'', JStr ''1.1''), (''event'', JStr event),
      (''timestamp'', JStr timestamp), (''machine_id'', JStr (id_value ident))] @
     fst acc @
     [(''event_id'', JStr event_id),
      (''agent'', JObj
         [(''version'', JStr (host_version h)), (''python'', JStr (host_python h)),
          (''platform'', JStr (host_platform h)),
          (''collection_duration_ms'', JInt (batch_duration_ms b)),
          (''identity_source'', JStr (id_source ident)),
          (''collectors'', JObj (snd acc))])]"

definition build_payload ::
  "host \<Rightarrow> int \<Rightarrow> string \<Rightarrow> string \<Rightarrow> identity \<Rightarrow> batch \<Rightarrow> now \<Rightarrow> string option \<Rightarrow> exn + dict" where
  "build_payload h clock fresh event ident b n event_id =
     (if \<not> event_ok event then Inl (ValueError ''invalid event name'')
      else
        (let acc = fold add_result (batch_results b) (default_sections, [])
         in bind_result (payload_timestamp clock n) (\<lambda>timestamp.
            Inr (document h ident b event timestamp
                   (case event_id of None \<Rightarrow> fresh | Some u \<Rightarrow> u) acc))))"

section \<open>Its sections\<close>

text \<open>What a result has to say about a section: only if it succeeded, at least in part.\<close>

definition contribution :: "string \<Rightarrow> collector_result \<Rightarrow> json option" where
  "contribution name r =
     (if res_status r \<in> {CSuccess, CPartial}
      then (case res_data r of JObj data \<Rightarrow> dict_get data name | _ \<Rightarrow> None) else None)"

text \<open>The reference: the last contribution of the batch, else the default.\<close>

definition section_value :: "string \<Rightarrow> collector_result list \<Rightarrow> json option" where
  "section_value name rs =
     (case List.find (\<lambda>r. contribution name r \<noteq> None) (rev rs) of
        None \<Rightarrow> dict_get default_sections name
      | Some r \<Rightarrow> contribution name r)"

lemma dict_set_keys: "k \<in> set (map fst d) \<Longrightarrow> map fst (dict_set k v d) = map fst d"
  by (simp add: dict_set_def update_keys)

lemma default_keys: "map fst default_sections = section_names"
  by (simp add: default_sections_def section_names_def)

lemma fill_sections_keys:
  "set names \<subseteq> set (map fst s) \<Longrightarrow> map fst (fold (fill_section data) names s) = map fst s"
proof (induction names arbitrary: s)
  case (Cons n names)
  have keys: "map fst (fill_section data n s) = map fst s"
    using Cons.prems by (simp add: fill_section_def dict_set_keys split: option.split)
  have "set names \<subseteq> set (map fst (fill_section data n s))" unfolding keys using Cons.prems by simp
  from Cons.IH [OF this] keys show ?case by simp
qed simp

lemma add_result_keys:
  "map fst s = section_names \<Longrightarrow> map fst (fst (add_result r (s, c))) = section_names"
  by (auto simp: add_result_def Let_def fill_sections_keys split: json.split)

lemma add_results_keys:
  "map fst s = section_names \<Longrightarrow> map fst (fst (fold add_result rs (s, c))) = section_names"
proof (induction rs arbitrary: s c)
  case (Cons r rs)
  obtain s' c' where "add_result r (s, c) = (s', c')" by fastforce
  with Cons add_result_keys [OF Cons.prems, of r c] show ?case by simp
qed simp

lemma fill_sections_get:
  "distinct names \<Longrightarrow> dict_get (fold (fill_section data) names s) name =
     (if name \<in> set names \<and> dict_get data name \<noteq> None then dict_get data name else dict_get s name)"
  by (induction names arbitrary: s) (auto simp: fill_section_def split: option.split)

lemma distinct_sections: "distinct section_names"
  by (simp add: section_names_def)

lemma add_result_get:
  "name \<in> set section_names \<Longrightarrow> dict_get (fst (add_result r (s, c))) name =
     (case contribution name r of None \<Rightarrow> dict_get s name | Some v \<Rightarrow> Some v)"
  by (cases "res_data r")
    (auto simp: add_result_def Let_def contribution_def fill_sections_get [OF distinct_sections] split: option.split)

lemma add_results_get:
  "name \<in> set section_names \<Longrightarrow> dict_get (fst (fold add_result rs (s, c))) name =
     (case List.find (\<lambda>r. contribution name r \<noteq> None) (rev rs) of
        None \<Rightarrow> dict_get s name | Some r \<Rightarrow> contribution name r)"
proof (induction rs arbitrary: s c)
  case (Cons r rs)
  obtain s' c' where step: "add_result r (s, c) = (s', c')" by fastforce
  have find: "List.find P (xs @ ys) = (case List.find P xs of None \<Rightarrow> List.find P ys | Some x \<Rightarrow> Some x)" for P :: "'z \<Rightarrow> bool" and xs ys
    by (induction xs) auto
  show ?case
    using Cons.IH [OF Cons.prems, of s' c'] add_result_get [OF Cons.prems, of r s c] step
    by (auto simp: find split: option.split)
qed simp

text \<open>The entries of the collectors: the last result of each name.\<close>

lemma add_result_collectors: "snd (add_result r (s, c)) = dict_set (res_name r) (collector_entry r) c"
  by (auto simp: add_result_def Let_def split: json.split)

lemma add_results_collectors:
  "snd (fold add_result rs (s, c)) = fold (\<lambda>r. dict_set (res_name r) (collector_entry r)) rs c"
proof (induction rs arbitrary: s c)
  case (Cons r rs)
  obtain s' c' where "add_result r (s, c) = (s', c')" by fastforce
  with Cons add_result_collectors [of r s c] show ?case by simp
qed simp

lemma built:
  assumes "build_payload h clock fresh event ident b n event_id = Inr p"
  obtains timestamp where "event_ok event" and "payload_timestamp clock n = Inr timestamp"
    and "p = document h ident b event timestamp (case event_id of None \<Rightarrow> fresh | Some u \<Rightarrow> u)
               (fold add_result (batch_results b) (default_sections, []))"
  using assms unfolding build_payload_def Let_def by (simp add: bind_result_Inr split: if_splits) blast

definition schema_keys :: "string list" where
  "schema_keys =
     [''schema_version'', ''event'', ''timestamp'', ''machine_id''] @ section_names @ [''event_id'', ''agent'']"

lemma distinct_schema: "distinct schema_keys"
  by (simp add: schema_keys_def section_names_def)

lemma sections_keys: "map fst (fst (fold add_result rs (default_sections, []))) = section_names"
  by (rule add_results_keys [OF default_keys])

lemma document_keys: "map fst (fst acc) = section_names \<Longrightarrow> map fst (document h ident b event t u acc) = schema_keys"
  by (simp add: document_def schema_keys_def)

lemma document_section:
  assumes "map fst (fst acc) = section_names" and "name \<in> set section_names"
  shows "dict_get (document h ident b event t u acc) name = dict_get (fst acc) name"
proof -
  have "name \<notin> {''schema_version'', ''event'', ''timestamp'', ''machine_id''}"
    using assms(2) by (auto simp: section_names_def)
  moreover have "dict_get (fst acc) name \<noteq> None"
    using assms unfolding dict_get_def by (metis map_of_eq_None_iff image_set)
  ultimately show ?thesis by (auto simp: document_def dict_get_def)
qed

lemma document_header:
  "map fst (fst acc) = section_names \<Longrightarrow> dict_get (document h ident b event t u acc) ''event_id'' = Some (JStr u)"
  "dict_get (document h ident b event t u acc) ''event'' = Some (JStr event)"
  "dict_get (document h ident b event t u acc) ''machine_id'' = Some (JStr (id_value ident))"
  "dict_get (document h ident b event t u acc) ''schema_version'' = Some (JStr ''1.1'')"
proof -
  assume keys: "map fst (fst acc) = section_names"
  have "''event_id'' \<notin> set (map fst (fst acc))" unfolding keys by (simp add: section_names_def)
  then have "map_of (fst acc) ''event_id'' = None" by (simp add: map_of_eq_None_iff)
  then show "dict_get (document h ident b event t u acc) ''event_id'' = Some (JStr u)"
    by (simp add: document_def dict_get_def map_add_def)
qed (simp_all add: document_def dict_get_def)

section \<open>Properties\<close>

definition sample_batch :: batch where
  "sample_batch =
     \<lparr>batch_results =
        [\<lparr>res_name = ''users'', res_status = CPartial, res_duration_ms = 3,
          res_data = JObj [(''users'', JList [JStr ''a'']), (''rogue'', JNull)],
          res_error_code = None, res_error_message = None\<rparr>,
         \<lparr>res_name = ''software'', res_status = CDisabled, res_duration_ms = 1,
          res_data = JObj [(''software'', JList [JStr ''x''])], res_error_code = None, res_error_message = None\<rparr>],
      batch_duration_ms = 4\<rparr>"

definition sample_host :: host where
  "sample_host = \<lparr>host_version = ''2.0.0'', host_python = ''3.14.0'', host_platform = ''linux''\<rparr>"

definition sample_identity :: identity where
  "sample_identity = \<lparr>id_value = ''m'', id_source = ''persisted-random''\<rparr>"

lemma sample_built: "\<exists>p. build_payload sample_host clock fresh ''startup'' sample_identity sample_batch NowNone None = Inr p"
proof -
  have "event_ok ''startup''" by code_simp
  then show ?thesis by (simp add: build_payload_def payload_timestamp_def)
qed

text \<open>Every payload has the same keys in the same order, each once, whatever the collectors
  returned: a collector can neither add nor remove nor repeat a top-level field.\<close>

theorem payload_schema:
  assumes "build_payload h clock fresh event ident b n event_id = Inr p"
  shows "map fst p = schema_keys \<and> distinct (map fst p)"
proof -
  obtain t where "p = document h ident b event t (case event_id of None \<Rightarrow> fresh | Some u \<Rightarrow> u)
               (fold add_result (batch_results b) (default_sections, []))"
    by (rule built [OF assms])
  then show ?thesis using document_keys [OF sections_keys] distinct_schema by simp
qed

theorem payload_schema_witness:
  "\<exists>p. build_payload sample_host 0 ''u'' ''startup'' sample_identity sample_batch NowNone None = Inr p \<and>
     map fst p = schema_keys"
  using sample_built [of 0 "''u''"] payload_schema by blast

text \<open>C22: Each section is what the reference says: the value given by the last collector that
  succeeded (at least in part) and has the section, and its default if there is none. Data of
  disabled, failed or timed-out collectors never reaches a payload.\<close>

theorem payload_sections:
  assumes "build_payload h clock fresh event ident b n event_id = Inr p" and "name \<in> set section_names"
  shows "dict_get p name = section_value name (batch_results b)"
proof -
  obtain t where p: "p = document h ident b event t (case event_id of None \<Rightarrow> fresh | Some u \<Rightarrow> u)
               (fold add_result (batch_results b) (default_sections, []))"
    by (rule built [OF assms(1)])
  show ?thesis
    unfolding p document_section [OF sections_keys assms(2)] section_value_def
    by (rule add_results_get [OF assms(2)])
qed

theorem payload_sections_witness:
  "\<exists>p. build_payload sample_host 0 ''u'' ''startup'' sample_identity sample_batch NowNone None = Inr p \<and>
     dict_get p ''software'' = Some (JList []) \<and> dict_get p ''users'' = Some (JList [JStr ''a''])"
proof -
  obtain p where p: "build_payload sample_host 0 ''u'' ''startup'' sample_identity sample_batch NowNone None = Inr p"
    using sample_built by blast
  have names: "''software'' \<in> set section_names" "''users'' \<in> set section_names"
    by (simp_all add: section_names_def)
  have "section_value ''software'' (batch_results sample_batch) = Some (JList [])"
    "section_value ''users'' (batch_results sample_batch) = Some (JList [JStr ''a''])"
    by code_simp+
  then show ?thesis
    using p payload_sections [OF p names(1)] payload_sections [OF p names(2)] by auto
qed

text \<open>\<open>build_payload\<close> raises for an invalid event name and for a time without zone, and for
  nothing else.\<close>

theorem build_payload_errors:
  "(\<exists>e. build_payload h clock fresh event ident b n event_id = Inl e) = (if event_ok event then n = Naive else True)"
  by (cases n) (auto simp: build_payload_def payload_timestamp_def Let_def)

end
