(* ===== verification/Orchestrator.thy ===== *)
theory Orchestrator
  imports Models Numbers
begin

text \<open>
  \<open>orchestrator.py\<close>: all collectors run on a thread pool, and at the deadline what has finished
  is reported and the rest is reported as timed out. The pool is outside the model: what a
  collector does when it runs, and when, is its \<open>run\<close>; the readings of the monotonic clock are
  \<open>ticks\<close>. All times are nanoseconds.
\<close>

section \<open>One collector\<close>

datatype raised = PermissionRaised | TimeoutRaised | OSRaised | OtherRaised | NotAnException

datatype outcome = Returned collector_payload | Raised raised

record run =
  run_outcome :: outcome
  run_started :: int
  run_finished :: "int option"

definition duration_ms :: "int \<Rightarrow> int \<Rightarrow> int" where
  "duration_ms started_ns finished_ns = max 0 ((finished_ns - started_ns) div 1000000)"

fun exception_metadata :: "raised \<Rightarrow> string \<times> string" where
  "exception_metadata PermissionRaised = (''permission_error'', ''collector access denied'')"
| "exception_metadata TimeoutRaised = (''timeout'', ''collector timed out'')"
| "exception_metadata OSRaised = (''os_error'', ''collector operating system error'')"
| "exception_metadata _ = (''collector_error'', ''collector failed'')"

definition collect_one :: "string \<Rightarrow> outcome \<Rightarrow> int \<Rightarrow> int \<Rightarrow> exn + collector_result" where
  "collect_one name out started_ns finished_ns =
     (case out of
        Raised NotAnException \<Rightarrow> Inl SystemExit
      | Raised r \<Rightarrow>
          (let (code, message) = exception_metadata r
           in Inr \<lparr>res_name = name, res_status = CFailed, res_duration_ms = duration_ms started_ns finished_ns,
                   res_data = JObj [], res_error_code = Some code, res_error_message = Some message\<rparr>)
      | Returned p \<Rightarrow>
          Inr \<lparr>res_name = name, res_status = cp_status p, res_duration_ms = duration_ms started_ns finished_ns,
               res_data = cp_data p, res_error_code = cp_error_code p, res_error_message = cp_error_message p\<rparr>)"

definition deadline_result :: "string \<Rightarrow> int \<Rightarrow> collector_result" where
  "deadline_result name ms =
     \<lparr>res_name = name, res_status = CTimedOut, res_duration_ms = ms, res_data = JObj [],
      res_error_code = Some ''deadline_exceeded'', res_error_message = Some ''collector deadline exceeded''\<rparr>"

section \<open>All of them\<close>

definition validate_limits :: "int \<Rightarrow> pyfloat \<Rightarrow> exn + unit" where
  "validate_limits workers timeout =
     bind_result (require (1 \<le> workers) (ValueError ''max_workers must be at least 1'')) (\<lambda>_.
     require (case timeout of Fin r \<Rightarrow> 0 < r | _ \<Rightarrow> False)
       (ValueError ''timeout_sec must be finite and greater than 0''))"

text \<open>The readings of the clock: at the start, when the futures are classified, at the end.\<close>

record ticks =
  tick_start :: int
  tick_check :: int
  tick_end :: int

text \<open>\<open>cycle_started_ns + int(timeout_sec * 1000000000)\<close>.\<close>

definition deadline_ns :: "int \<Rightarrow> pyfloat \<Rightarrow> int" where
  "deadline_ns started timeout =
     (case timeout of
        Fin r \<Rightarrow> (case fmul r 1000000000 of Fin n \<Rightarrow> started + \<lfloor>n\<rfloor> | _ \<Rightarrow> started)
      | _ \<Rightarrow> started)"

definition finished_by :: "int \<Rightarrow> run \<Rightarrow> bool" where
  "finished_by t r \<longleftrightarrow> (case run_finished r of None \<Rightarrow> False | Some f \<Rightarrow> f \<le> t)"

text \<open>What \<open>future.result()\<close> gives, or the deadline's verdict.\<close>

definition report :: "ticks \<Rightarrow> string \<times> run \<Rightarrow> exn + collector_result" where
  "report t entry =
     (case entry of (name, r) \<Rightarrow>
        case run_finished r of
          Some f \<Rightarrow>
            if f \<le> tick_check t then collect_one name (run_outcome r) (run_started r) f
            else Inr (deadline_result name (duration_ms (tick_start t) (tick_check t)))
        | None \<Rightarrow> Inr (deadline_result name (duration_ms (tick_start t) (tick_check t))))"

definition collect_all :: "(string \<times> run) list \<Rightarrow> int \<Rightarrow> pyfloat \<Rightarrow> ticks \<Rightarrow> exn + batch" where
  "collect_all registry workers timeout t =
     bind_result (validate_limits workers timeout) (\<lambda>_.
     bind_result (if registry = [] then Inr [] else sequence (map (report t) registry)) (\<lambda>results.
     Inr \<lparr>batch_results = results, batch_duration_ms = duration_ms (tick_start t) (tick_end t)\<rparr>))"

text \<open>
  What the documentation of \<open>concurrent.futures.wait\<close> promises: it returns when every future is
  done or the timeout has passed.
\<close>

definition wait_contract :: "(string \<times> run) list \<Rightarrow> pyfloat \<Rightarrow> ticks \<Rightarrow> bool" where
  "wait_contract registry timeout t \<longleftrightarrow>
     deadline_ns (tick_start t) timeout \<le> tick_check t \<or>
     list_all (\<lambda>(_, r). finished_by (tick_check t) r) registry"

section \<open>Facts\<close>

lemma sequence_Inr: "sequence rs = Inr xs \<longleftrightarrow> rs = map Inr xs"
proof
  show "sequence rs = Inr xs \<Longrightarrow> rs = map Inr xs"
    by (induction rs arbitrary: xs) (auto split: sum.splits)
  have "sequence (map Inr ys) = Inr ys" for ys :: "'a list"
    by (induction ys) auto
  then show "rs = map Inr xs \<Longrightarrow> sequence rs = Inr xs" by simp
qed

lemma report_name: "report t entry = Inr r \<Longrightarrow> res_name r = fst entry"
  by (auto simp: report_def collect_one_def deadline_result_def Let_def
      split: prod.splits option.splits if_splits outcome.splits raised.splits)

lemma report_done:
  "finished_by (tick_check t) r \<Longrightarrow>
   report t (name, r) = collect_one name (run_outcome r) (run_started r) (the (run_finished r))"
  by (auto simp: report_def finished_by_def split: option.splits)

lemma report_late:
  "\<not> finished_by (tick_check t) r \<Longrightarrow>
   report t (name, r) = Inr (deadline_result name (duration_ms (tick_start t) (tick_check t)))"
  by (auto simp: report_def finished_by_def split: option.splits)

lemma collect_one_total: "out \<noteq> Raised NotAnException \<Longrightarrow> \<exists>r. collect_one name out s f = Inr r"
  by (cases out) (auto simp: collect_one_def Let_def split: raised.splits prod.splits)

lemma report_total: "run_outcome (snd entry) \<noteq> Raised NotAnException \<Longrightarrow> \<exists>r. report t entry = Inr r"
  by (cases "finished_by (tick_check t) (snd entry)"; cases entry)
    (auto simp: report_done report_late collect_one_total)

lemma collect_all_Inr:
  "collect_all registry workers timeout t = Inr b \<longleftrightarrow>
     validate_limits workers timeout = Inr () \<and>
     map (report t) registry = map Inr (batch_results b) \<and>
     b = \<lparr>batch_results = batch_results b, batch_duration_ms = duration_ms (tick_start t) (tick_end t)\<rparr>"
  by (cases b) (auto simp: collect_all_def bind_result_Inr sequence_Inr)

lemma collect_all_nth:
  assumes "collect_all registry workers timeout t = Inr b" and "i < length registry"
  shows "length (batch_results b) = length registry" and "report t (registry ! i) = Inr (batch_results b ! i)"
proof -
  have eq: "map (report t) registry = map Inr (batch_results b)" using assms(1) by (simp add: collect_all_Inr)
  then show "length (batch_results b) = length registry" by (metis length_map)
  with eq assms(2) show "report t (registry ! i) = Inr (batch_results b ! i)" by (metis nth_map)
qed

lemma collect_all_total:
  assumes "validate_limits workers timeout = Inr ()"
    and "list_all (\<lambda>(_, r). run_outcome r \<noteq> Raised NotAnException) registry"
  shows "\<exists>b. collect_all registry workers timeout t = Inr b \<and> map res_name (batch_results b) = map fst registry"
proof -
  have "\<forall>e \<in> set registry. \<exists>r. report t e = Inr r"
    using assms(2) report_total by (fastforce simp: list_all_iff)
  then obtain f where f: "\<forall>e \<in> set registry. report t e = Inr (f e)" by metis
  let ?b = "\<lparr>batch_results = map f registry, batch_duration_ms = duration_ms (tick_start t) (tick_end t)\<rparr>"
  have "collect_all registry workers timeout t = Inr ?b" using f assms(1) by (simp add: collect_all_Inr)
  moreover have "map res_name (batch_results ?b) = map fst registry" using f report_name by fastforce
  ultimately show ?thesis by blast
qed

lemma duration_nonneg: "0 \<le> duration_ms s f"
  by (simp add: duration_ms_def)

section \<open>Properties\<close>

definition sample_run :: "int \<Rightarrow> run" where
  "sample_run f = \<lparr>run_outcome = Raised OSRaised, run_started = 0, run_finished = Some f\<rparr>"

definition sample_ticks :: ticks where
  "sample_ticks = \<lparr>tick_start = 0, tick_check = 1000000000, tick_end = 1000000500\<rparr>"

lemma sample_limits: "validate_limits 2 (Fin 1) = Inr ()"
  by (simp add: validate_limits_def require_def)

lemma one_second: "deadline_ns 0 (Fin 1) = 1000000000"
  using round64_int [of 1000000000] by (simp add: deadline_ns_def fmul_def)

text \<open>C26: Whatever the collectors do (return, raise, or never finish), \<open>collect_all\<close> returns one result
  per collector, in the order of the registry and under its name; the exceptions are a limit that
  is out of range and an exception no \<open>Exception\<close> class covers.\<close>

theorem collect_all_complete:
  assumes "validate_limits workers timeout = Inr ()"
    and "list_all (\<lambda>(_, r). run_outcome r \<noteq> Raised NotAnException) registry"
  shows "\<exists>b. collect_all registry workers timeout t = Inr b \<and> map res_name (batch_results b) = map fst registry"
  by (rule collect_all_total [OF assms])

theorem collect_all_complete_witness:
  "\<exists>b. collect_all [(''cpu'', sample_run 5), (''users'', sample_run 2000000000)] 2 (Fin 1) sample_ticks = Inr b \<and>
     map res_name (batch_results b) = [''cpu'', ''users'']"
  using collect_all_complete [OF sample_limits, of "[(''cpu'', sample_run 5), (''users'', sample_run 2000000000)]" sample_ticks]
  by (simp add: sample_run_def)

text \<open>Collectors are isolated: replacing what one of them does changes no result but its own.\<close>

theorem collectors_isolated:
  assumes "collect_all registry workers timeout t = Inr b" and "i < length registry"
    and "collect_all (registry[i := (name, r)]) workers timeout t = Inr b'"
  shows "length (batch_results b') = length (batch_results b) \<and>
    (\<forall>j < length registry. j \<noteq> i \<longrightarrow> batch_results b' ! j = batch_results b ! j)"
proof (intro conjI allI impI)
  show "length (batch_results b') = length (batch_results b)"
    using collect_all_nth(1) [OF assms(1,2)] collect_all_nth(1) [OF assms(3), of i] assms(2) by simp
  fix j
  assume j: "j < length registry" "j \<noteq> i"
  have "Inr (batch_results b' ! j) = report t (registry[i := (name, r)] ! j)"
    using collect_all_nth(2) [OF assms(3), of j] j by simp
  also have "\<dots> = Inr (batch_results b ! j)" using collect_all_nth(2) [OF assms(1) j(1)] j by simp
  finally show "batch_results b' ! j = batch_results b ! j" by simp
qed

theorem collectors_isolated_witness:
  "\<exists>b b'. collect_all [(''a'', sample_run 5), (''b'', sample_run 6)] 2 (Fin 1) sample_ticks = Inr b \<and>
     collect_all [(''a'', sample_run 2000000000), (''b'', sample_run 6)] 2 (Fin 1) sample_ticks = Inr b' \<and>
     batch_results b' ! 1 = batch_results b ! 1"
proof -
  have run: "\<exists>b. collect_all [(''a'', sample_run k), (''b'', sample_run 6)] 2 (Fin 1) sample_ticks = Inr b" for k
    using collect_all_total [OF sample_limits, of "[(''a'', sample_run k), (''b'', sample_run 6)]" sample_ticks]
    by (auto simp: sample_run_def)
  obtain b b' where b: "collect_all [(''a'', sample_run 5), (''b'', sample_run 6)] 2 (Fin 1) sample_ticks = Inr b"
    and b': "collect_all [(''a'', sample_run 2000000000), (''b'', sample_run 6)] 2 (Fin 1) sample_ticks = Inr b'"
    using run by blast
  from collectors_isolated [OF b, of 0 "''a''" "sample_run 2000000000"] b b' show ?thesis by auto
qed

text \<open>A collector that finishes by the deadline is always reported with what it returned or raised,
  never as timed out: at the pool's contract, its result is \<open>_collect_one\<close>'s.\<close>

theorem in_time_is_reported:
  assumes "collect_all registry workers timeout t = Inr b" and "wait_contract registry timeout t"
    and "i < length registry" and "registry ! i = (name, r)" and "finished_by (deadline_ns (tick_start t) timeout) r"
  shows "collect_one name (run_outcome r) (run_started r) (the (run_finished r)) = Inr (batch_results b ! i)"
proof -
  have "finished_by (tick_check t) r"
    using assms(2-5) by (auto simp: wait_contract_def finished_by_def list_all_length split: option.splits)
  then show ?thesis using collect_all_nth(2) [OF assms(1,3)] assms(4) report_done by simp
qed

theorem in_time_is_reported_witness:
  "\<exists>b. collect_all [(''a'', sample_run 1000000000)] 2 (Fin 1) sample_ticks = Inr b \<and>
     res_status (batch_results b ! 0) = CFailed"
proof -
  obtain b where b: "collect_all [(''a'', sample_run 1000000000)] 2 (Fin 1) sample_ticks = Inr b"
    using collect_all_total [OF sample_limits, of "[(''a'', sample_run 1000000000)]" sample_ticks]
    by (auto simp: sample_run_def)
  moreover have "wait_contract [(''a'', sample_run 1000000000)] (Fin 1) sample_ticks"
    by (simp add: wait_contract_def sample_ticks_def one_second)
  ultimately have "collect_one ''a'' (run_outcome (sample_run 1000000000)) (run_started (sample_run 1000000000))
      (the (run_finished (sample_run 1000000000))) = Inr (batch_results b ! 0)"
    by (rule in_time_is_reported) (simp_all add: sample_ticks_def one_second finished_by_def sample_run_def)
  then have "Inr (batch_results b ! 0) = collect_one ''a'' (Raised OSRaised) 0 1000000000"
    by (simp add: sample_run_def)
  then have "res_status (batch_results b ! 0) = CFailed" by (simp add: collect_one_def)
  with b show ?thesis by blast
qed

end
