(* ===== verification/Transport.thy ===== *)
theory Transport
  imports Models Config
begin

text \<open>
  \<open>transport.py\<close>: one delivery as at most \<open>max_attempts\<close> HTTP requests with pauses in between.
  The \<open>requests\<close> library is outside the model: \<open>answer k\<close> is what the \<open>k\<close>-th call of
  \<open>session.post\<close> does. The world of a transport records the requests and the pauses, so that
  theorems can speak about them.
\<close>

section \<open>The network\<close>

text \<open>An attribute of a response object, as far as the code looks at it.\<close>

datatype attr = NoAttr | IntAttr int | BoolAttr bool | StrAttr string | OtherAttr

text \<open>
  \<open>Response status headers\<close>: \<open>headers\<close> is \<open>None\<close> if it is no mapping. \<open>Fault e\<close> is an
  exception of no class of \<open>requests\<close>.
\<close>

datatype reply =
    TimeoutReply
  | ConnectionReply
  | RequestReply
  | Fault exn
  | Response attr "(string \<Rightarrow> attr) option"

record post =
  post_uri :: string
  post_headers :: "(string \<times> string) list"
  post_body :: dict
  post_timeout :: "pyfloat \<times> pyfloat"
  post_ca :: "string option"

text \<open>
  \<open>draw k\<close> is the \<open>k\<close>-th random value, \<open>None\<close> if it is not convertible to a float;
  \<open>mail_date s\<close> is \<open>parsedate_to_datetime s\<close>: the date's fields as an instant and its offset
  from UTC in microseconds, if it has one; \<open>wall\<close> is the time of day.
\<close>

record net =
  answer :: "nat \<Rightarrow> reply"
  draw :: "nat \<Rightarrow> pyfloat option"
  mail_date :: "string \<Rightarrow> (int \<times> int option) option"
  wall :: int
  posts :: "post list"
  draws :: nat
  pauses :: "pyfloat list"
  closed :: nat

section \<open>The object\<close>

record transport =
  tr_config :: config
  tr_uri :: string
  tr_token :: string
  tr_attempts :: nat

definition new_transport :: "config \<Rightarrow> int \<Rightarrow> exn + transport" where
  "new_transport c max_attempts =
     (case (nonempty (collector_uri c), nonempty (api_token c)) of
        (Some uri, Some token) \<Rightarrow>
          bind_result (require (0 < max_attempts) (ValueError ''max_attempts must be positive'')) (\<lambda>_.
          Inr \<lparr>tr_config = c, tr_uri = uri, tr_token = token, tr_attempts = nat max_attempts\<rparr>)
      | _ \<Rightarrow> Inl (ValueError ''transport configuration is incomplete''))"

definition close_transport :: "(net, unit) prog" where
  "close_transport = modify (\<lambda>w. w\<lparr>closed := Suc (closed w)\<rparr>)"

section \<open>Results\<close>

definition required_header_fields :: "string list" where
  "required_header_fields = [''event_id'', ''event'', ''machine_id'', ''schema_version'']"

definition field_text :: "dict \<Rightarrow> string \<Rightarrow> string" where
  "field_text payload k = (case json_str (dict_get payload k) of None \<Rightarrow> [] | Some s \<Rightarrow> s)"

definition validate_payload :: "dict \<Rightarrow> exn + unit" where
  "validate_payload payload =
     require (list_all (\<lambda>k. field_text payload k \<noteq> []) required_header_fields)
       (ValueError ''payload is missing required delivery fields'')"

definition headers_of :: "transport \<Rightarrow> dict \<Rightarrow> (string \<times> string) list" where
  "headers_of tr payload =
     [(''Accept'', ''application/json''), (''Authorization'', ''Bearer '' @ tr_token tr),
      (''Content-Type'', ''application/json''), (''Idempotency-Key'', field_text payload ''event_id''),
      (''User-Agent'', ''monitor-agent/2.0.0''), (''X-Event-Type'', field_text payload ''event''),
      (''X-Machine-ID'', field_text payload ''machine_id''),
      (''X-Schema-Ver'', field_text payload ''schema_version'')]"

fun status_code :: "attr \<Rightarrow> int option" where
  "status_code (IntAttr n) = Some n"
| "status_code _ = None"

definition classify_status :: "int option \<Rightarrow> delivery_kind" where
  "classify_status code =
     (case code of
        None \<Rightarrow> Permanent
      | Some n \<Rightarrow>
          if 200 \<le> n \<and> n \<le> 299 then Success
          else if n \<in> {401, 403} then Authentication
          else if n \<in> {408, 425, 429} \<or> 500 \<le> n \<and> n \<le> 599 then Retriable
          else Permanent)"

fun message_for :: "delivery_kind \<Rightarrow> string" where
  "message_for Success = ''delivered''"
| "message_for Authentication = ''authentication failed''"
| "message_for Permanent = ''delivery rejected''"
| "message_for Retriable = ''delivery failed''"

section \<open>Pauses\<close>

definition clamp60 :: "pyfloat \<Rightarrow> pyfloat" where
  "clamp60 x = fmin (Fin 60) (fmax (Fin 0) x)"

text \<open>
  \<open>_parse_retry_after\<close>: a number of seconds, or a date. A date without zone is in UTC; one whose
  UTC time is not in the years 1 to 9999 makes \<open>astimezone\<close> raise.
\<close>

definition parse_retry_after :: "string \<Rightarrow> (net, pyfloat option) prog" where
  "parse_retry_after value =
     (case py_float value of
        Some x \<Rightarrow> ret (if isfinite x then Some (clamp60 x) else None)
      | None \<Rightarrow>
          bnd (gets (\<lambda>w. mail_date w value)) (\<lambda>d.
          case d of
            None \<Rightarrow> ret None
          | Some (stamp, offset) \<Rightarrow>
              (let utc = stamp - (case offset of None \<Rightarrow> 0 | Some us \<Rightarrow> us)
               in if \<not> valid_instant utc then throw OverflowError
                  else bnd (gets wall) (\<lambda>now. ret (Some (clamp60 (round64 (of_int (utc - now) / 1000000))))))))"

definition retry_after :: "(string \<Rightarrow> attr) option \<Rightarrow> (net, pyfloat option) prog" where
  "retry_after headers =
     (case headers of
        None \<Rightarrow> ret None
      | Some h \<Rightarrow> (case h ''Retry-After'' of StrAttr s \<Rightarrow> parse_retry_after s | _ \<Rightarrow> ret None))"

definition safe_random_value :: "(net, pyfloat) prog" where
  "safe_random_value =
     bnd (gets (\<lambda>w. draw w (draws w))) (\<lambda>x.
     andthen (modify (\<lambda>w. w\<lparr>draws := Suc (draws w)\<rparr>))
       (ret (case x of
               None \<Rightarrow> Fin 0
             | Some v \<Rightarrow> if isfinite v then fmin (Fin 1) (fmax (Fin 0) v) else Fin 0)))"

text \<open>\<open>min(30.0, 0.5 * float(2 ** (n - 1)))\<close>: the power overflows a float from \<open>2\<^sup>1\<^sup>0\<^sup>2\<^sup>4\<close> on.\<close>

definition backoff_limit :: "nat \<Rightarrow> exn + rat" where
  "backoff_limit n = (if 1024 \<le> n - 1 then Inl OverflowError else Inr (min 30 (2 ^ (n - 1) / 2)))"

definition retry_delay :: "nat \<Rightarrow> pyfloat option \<Rightarrow> (net, pyfloat) prog" where
  "retry_delay n after =
     bnd (lift_result (backoff_limit n)) (\<lambda>maximum.
     bnd safe_random_value (\<lambda>v.
     let jittered = (case v of Fin r \<Rightarrow> fmul maximum r | _ \<Rightarrow> NaN)
     in ret (case after of None \<Rightarrow> jittered | Some a \<Rightarrow> fmax a jittered)))"

section \<open>Sending\<close>

definition http_post :: "transport \<Rightarrow> dict \<Rightarrow> (net, reply) prog" where
  "http_post tr payload =
     bnd (gets (\<lambda>w. answer w (length (posts w)))) (\<lambda>r.
     andthen
       (modify (\<lambda>w. w\<lparr>posts := posts w @
          [\<lparr>post_uri = tr_uri tr, post_headers = headers_of tr payload, post_body = payload,
            post_timeout = (connect_timeout_sec (tr_config tr), read_timeout_sec (tr_config tr)),
            post_ca = ca_bundle (tr_config tr)\<rparr>]\<rparr>))
       (ret r))"

text \<open>The result of one attempt, and the pause the server asks for.\<close>

definition attempt_result :: "nat \<Rightarrow> reply \<Rightarrow> (net, delivery_result \<times> pyfloat option) prog" where
  "attempt_result attempt r =
     (let failed = (\<lambda>m. ret (\<lparr>dr_kind = Retriable, dr_status = None, dr_attempts = attempt, dr_message = m\<rparr>, None))
      in case r of
           TimeoutReply \<Rightarrow> failed ''request timed out''
         | ConnectionReply \<Rightarrow> failed ''connection failed''
         | RequestReply \<Rightarrow> failed ''request failed''
         | Fault e \<Rightarrow> throw e
         | Response status headers \<Rightarrow>
             (let code = status_code status; kind = classify_status code
              in bnd (if kind = Retriable then retry_after headers else ret None) (\<lambda>after.
                 ret (\<lparr>dr_kind = kind, dr_status = code, dr_attempts = attempt, dr_message = message_for kind\<rparr>,
                      after))))"

definition pause :: "pyfloat \<Rightarrow> (net, unit) prog" where
  "pause x = modify (\<lambda>w. w\<lparr>pauses := pauses w @ [x]\<rparr>)"

primrec send_loop :: "transport \<Rightarrow> dict \<Rightarrow> nat \<Rightarrow> nat \<Rightarrow> (net, delivery_result) prog" where
  "send_loop tr payload 0 attempt = throw AssertionError"
| "send_loop tr payload (Suc k) attempt =
     bnd (http_post tr payload) (\<lambda>r.
     bnd (attempt_result attempt r) (\<lambda>(result, after).
     if dr_kind result \<noteq> Retriable \<or> attempt = tr_attempts tr then ret result
     else
       bnd (retry_delay attempt after) (\<lambda>delay.
       andthen (pause delay) (send_loop tr payload k (Suc attempt)))))"

definition send :: "transport \<Rightarrow> dict \<Rightarrow> (net, delivery_result) prog" where
  "send tr payload =
     andthen (lift_result (validate_payload payload)) (send_loop tr payload (tr_attempts tr) 1)"

section \<open>Facts\<close>

text \<open>A pause of zero to sixty seconds.\<close>

definition bounded_pause :: "pyfloat \<Rightarrow> bool" where
  "bounded_pause x \<longleftrightarrow> (case x of Fin r \<Rightarrow> 0 \<le> r \<and> r \<le> 60 | _ \<Rightarrow> False)"

lemma clamp60_bounded: "x \<noteq> NaN \<Longrightarrow> bounded_pause (clamp60 x)"
  by (cases x) (auto simp: clamp60_def fmin_def fmax_def flt_def bounded_pause_def)

lemma round64_not_nan: "round64 x \<noteq> NaN"
  by (simp add: round64_def Let_def)

lemma jitter_bounded:
  assumes "backoff_limit n = Inr m" and "0 \<le> r" and "r \<le> 1"
  shows "\<exists>x. fmul m r = Fin x \<and> 0 \<le> x \<and> x \<le> m"
proof -
  from assms(1) have m: "m = min 30 (2 ^ (n - 1) / 2)" by (simp add: backoff_limit_def split: if_splits)
  have pos: "0 \<le> m" "m \<le> 30" by (simp_all add: m)
  have halves: "\<exists>c. m = of_int c / 2"
  proof (cases "(30 :: rat) \<le> 2 ^ (n - 1) / 2")
    case True
    then have "m = of_int 60 / 2" by (simp add: m)
    then show ?thesis by blast
  next
    case False
    then have "m = of_int (2 ^ (n - 1)) / 2" by (simp add: m)
    then show ?thesis by blast
  qed
  then obtain c where c: "m = of_int c / 2" by blast
  have prod: "0 \<le> m * r" "m * r \<le> m"
    using pos assms(2,3) by (simp_all add: mult_left_le)
  have "nearest (m * r) \<le> of_int c / 2"
    by (rule nearest_le_halves) (use prod pos in \<open>simp_all flip: c\<close>)
  then have "nearest (m * r) \<le> m" unfolding c .
  moreover have "round64 (m * r) = Fin (nearest (m * r))"
    using prod pos by (intro round64_small) simp
  ultimately show ?thesis using nearest_nonneg [OF prod(1)] by (simp add: fmul_def)
qed

lemma wp_safe_random:
  "wp safe_random_value
     (\<lambda>x v. (\<exists>r. x = Fin r \<and> 0 \<le> r \<and> r \<le> 1) \<and> v = w\<lparr>draws := Suc (draws w)\<rparr>) E w"
  by (auto simp: safe_random_value_def wp_simps fmin_def fmax_def flt_def isfinite_def
      split: option.split pyfloat.split)

lemma wp_retry_delay:
  assumes "n \<le> 1024" and "\<And>a. after = Some a \<Longrightarrow> bounded_pause a"
  shows "wp (retry_delay n after) (\<lambda>x v. bounded_pause x \<and> v = w\<lparr>draws := Suc (draws w)\<rparr>) E w"
proof -
  let ?m = "min 30 (2 ^ (n - 1) / 2) :: rat"
  have m: "backoff_limit n = Inr ?m" and limit: "?m \<le> 30"
    using assms(1) by (simp_all add: backoff_limit_def)
  show ?thesis
    unfolding retry_delay_def wp_bnd wp_lift_result m sum.case
  proof (rule wp_mono [OF wp_safe_random])
    fix x v
    assume x: "(\<exists>r. x = Fin r \<and> 0 \<le> r \<and> r \<le> 1) \<and> v = w\<lparr>draws := Suc (draws w)\<rparr>"
    then obtain r where r: "x = Fin r" "0 \<le> r" "r \<le> 1" by blast
    obtain y where y: "fmul ?m r = Fin y" "0 \<le> y" "y \<le> ?m" using jitter_bounded [OF m r(2,3)] by blast
    have jit: "bounded_pause (Fin y)" using y limit by (simp add: bounded_pause_def)
    have "bounded_pause (case after of None \<Rightarrow> Fin y | Some a \<Rightarrow> fmax a (Fin y))"
      using jit assms(2) by (cases after) (auto simp: fmax_def)
    then show "wp (let jittered = case x of Fin r \<Rightarrow> fmul ?m r | _ \<Rightarrow> NaN
        in ret (case after of None \<Rightarrow> jittered | Some a \<Rightarrow> fmax a jittered))
        (\<lambda>x v. bounded_pause x \<and> v = w\<lparr>draws := Suc (draws w)\<rparr>) E v"
      unfolding r(1) pyfloat.case y(1) Let_def wp_ret using x by simp
  qed simp
qed


text \<open>What an attempt does: it fails only as \<open>post\<close> does, or on the date of a \<open>Retry-After\<close>.\<close>

definition bad_date :: "net \<Rightarrow> string \<Rightarrow> bool" where
  "bad_date w s \<longleftrightarrow>
     (case mail_date w s of
        None \<Rightarrow> False
      | Some (stamp, offset) \<Rightarrow> \<not> valid_instant (stamp - (case offset of None \<Rightarrow> 0 | Some us \<Rightarrow> us)))"

lemma wp_parse_retry_after:
  "wp (parse_retry_after s) (\<lambda>x v. v = w \<and> (\<forall>a. x = Some a \<longrightarrow> bounded_pause a))
     (\<lambda>e v. e = OverflowError \<and> (\<exists>s. bad_date w s) \<and> v = w) w"
proof -
  have float: "isfinite x \<Longrightarrow> bounded_pause (clamp60 x)" for x
    by (rule clamp60_bounded) (auto simp: isfinite_def)
  have date: "bounded_pause (clamp60 (round64 x))" for x by (rule clamp60_bounded [OF round64_not_nan])
  show ?thesis
    by (auto simp: parse_retry_after_def wp_simps Let_def float date bad_date_def split: option.split
        intro!: exI [of _ s])
qed

lemma wp_retry_after:
  "wp (retry_after h) (\<lambda>x v. v = w \<and> (\<forall>a. x = Some a \<longrightarrow> bounded_pause a))
     (\<lambda>e v. e = OverflowError \<and> (\<exists>s. bad_date w s) \<and> v = w) w"
  by (auto simp: retry_after_def wp_ret split: option.split attr.split intro: wp_parse_retry_after)

definition fault_of :: "reply \<Rightarrow> exn option" where
  "fault_of r = (case r of Fault e \<Rightarrow> Some e | _ \<Rightarrow> None)"

lemma wp_attempt_result:
  "wp (attempt_result n r)
     (\<lambda>(res, after) v. v = w \<and> dr_attempts res = n \<and> (\<forall>a. after = Some a \<longrightarrow> bounded_pause a) \<and>
        (dr_kind res = Success \<longrightarrow> (\<exists>code h. r = Response (IntAttr code) h \<and> 200 \<le> code \<and> code \<le> 299)))
     (\<lambda>e v. v = w \<and> (e = OverflowError \<and> (\<exists>s. bad_date w s) \<or> fault_of r = Some e)) w"
proof (cases r)
  case (Response status h)
  have success: "\<exists>code. status = IntAttr code \<and> 200 \<le> code \<and> code \<le> 299" if "classify_status (status_code status) = Success"
    using that by (cases status) (auto simp: classify_status_def split: if_splits)
  show ?thesis
    unfolding Response attempt_result_def Let_def reply.case wp_bnd
    by (rule wp_mono [where Q = "\<lambda>x v. v = w \<and> (\<forall>a. x = Some a \<longrightarrow> bounded_pause a)"
          and E = "\<lambda>e v. e = OverflowError \<and> (\<exists>s. bad_date w s) \<and> v = w"])
      (auto simp: wp_ret wp_if dest: success intro: wp_retry_after)
qed (simp_all add: attempt_result_def wp_simps fault_of_def)

lemma wp_http_post:
  "wp (http_post tr payload)
     (\<lambda>r v. r = answer w (length (posts w)) \<and> answer v = answer w \<and> mail_date v = mail_date w \<and> pauses v = pauses w \<and>
        (\<exists>p. posts v = posts w @ [p] \<and> post_uri p = tr_uri tr \<and> post_headers p = headers_of tr payload \<and>
             post_body p = payload)) E w"
  by (simp add: http_post_def wp_simps)

text \<open>One delivery: the requests and pauses that were added.\<close>

definition request_of :: "transport \<Rightarrow> dict \<Rightarrow> post \<Rightarrow> bool" where
  "request_of tr payload p \<longleftrightarrow>
     post_uri p = tr_uri tr \<and> post_headers p = headers_of tr payload \<and> post_body p = payload"

definition delivered_by :: "transport \<Rightarrow> dict \<Rightarrow> net \<Rightarrow> net \<Rightarrow> nat \<Rightarrow> bool" where
  "delivered_by tr payload w v n \<longleftrightarrow>
     answer v = answer w \<and>
     (\<exists>ps ds. posts v = posts w @ ps \<and> pauses v = pauses w @ ds \<and> length ps = n \<and> n = Suc (length ds) \<and>
        list_all (request_of tr payload) ps \<and> list_all bounded_pause ds)"

lemma delivered_by_more:
  assumes "answer u = answer w" and "posts u = posts w @ [p]" and "request_of tr payload p"
    and "pauses u = pauses w @ [d]" and "bounded_pause d" and "delivered_by tr payload u v n"
  shows "delivered_by tr payload w v (Suc n)"
proof -
  from assms(6) obtain ps ds where "answer v = answer u" "posts v = posts u @ ps" "pauses v = pauses u @ ds"
    "length ps = n" "n = Suc (length ds)" "list_all (request_of tr payload) ps" "list_all bounded_pause ds"
    by (auto simp: delivered_by_def)
  with assms(1-5) show ?thesis
    unfolding delivered_by_def by (intro conjI exI [of _ "p # ps"] exI [of _ "d # ds"]) simp_all
qed

text \<open>An answer that raises: a fault of \<open>post\<close>, or a date no UTC time corresponds to.\<close>

definition failing :: "net \<Rightarrow> exn \<Rightarrow> bool" where
  "failing w e \<longleftrightarrow> e = OverflowError \<and> (\<exists>s. bad_date w s) \<or> (\<exists>k. fault_of (answer w k) = Some e)"

lemma failing_cong: "answer v = answer w \<Longrightarrow> mail_date v = mail_date w \<Longrightarrow> failing v e = failing w e"
  by (simp add: failing_def bad_date_def)

text \<open>The result of a delivery with \<open>k\<close> attempts left.\<close>

definition accepted_answer :: "reply \<Rightarrow> bool" where
  "accepted_answer r \<longleftrightarrow> (\<exists>code h. r = Response (IntAttr code) h \<and> 200 \<le> code \<and> code \<le> 299)"

definition sent :: "transport \<Rightarrow> dict \<Rightarrow> net \<Rightarrow> nat \<Rightarrow> nat \<Rightarrow> delivery_result \<Rightarrow> net \<Rightarrow> bool" where
  "sent tr payload w k attempt res v \<longleftrightarrow>
     (\<exists>n. delivered_by tr payload w v n \<and> n \<le> k \<and> Suc (dr_attempts res) = attempt + n \<and>
        (dr_kind res = Retriable \<longrightarrow> n = k) \<and>
        (dr_kind res = Success \<longrightarrow> accepted_answer (answer w (length (posts v) - 1))))"

lemma sent_once:
  assumes "delivered_by tr payload w v 1" and "dr_attempts res = attempt" and "dr_kind res = Retriable \<Longrightarrow> k = 0"
    and "dr_kind res = Success \<Longrightarrow> accepted_answer (answer w (length (posts v) - 1))"
  shows "sent tr payload w (Suc k) attempt res v"
  unfolding sent_def using assms by (intro exI [of _ 1]) auto

lemma sent_again:
  assumes "answer u = answer w" and "posts u = posts w @ [p]" and "request_of tr payload p"
    and "pauses u = pauses w @ [d]" and "bounded_pause d" and "sent tr payload u k (Suc attempt) res v"
  shows "sent tr payload w (Suc k) attempt res v"
proof -
  from assms(6) obtain n where n: "delivered_by tr payload u v n" "n \<le> k" "Suc (dr_attempts res) = Suc attempt + n"
    "dr_kind res = Retriable \<longrightarrow> n = k"
    "dr_kind res = Success \<longrightarrow> accepted_answer (answer u (length (posts v) - 1))"
    by (auto simp: sent_def)
  have "delivered_by tr payload w v (Suc n)" by (rule delivered_by_more [OF assms(1-5) n(1)])
  with n assms(1) show ?thesis
    unfolding sent_def by (intro exI [of _ "Suc n"]) simp
qed

lemma wp_pause_and_retry:
  assumes "n \<le> 1024" and "\<And>a. after = Some a \<Longrightarrow> bounded_pause a"
    and next_try: "\<And>d v. bounded_pause d \<Longrightarrow> answer v = answer u \<Longrightarrow> mail_date v = mail_date u \<Longrightarrow>
      posts v = posts u \<Longrightarrow> pauses v = pauses u @ [d] \<Longrightarrow> wp m Q E v"
  shows "wp (bnd (retry_delay n after) (\<lambda>delay. andthen (pause delay) m)) Q E u"
  unfolding wp_bnd
proof (rule wp_mono [OF wp_retry_delay [OF assms(1,2)]])
  fix x v
  assume "bounded_pause x \<and> v = u\<lparr>draws := Suc (draws u)\<rparr>"
  then show "wp (andthen (pause x) m) Q E v"
    using next_try [of x "v\<lparr>pauses := pauses v @ [x]\<rparr>"] by (simp add: pause_def wp_simps)
qed

lemma wp_send_loop:
  assumes "tr_attempts tr \<le> 1024" and "attempt + k = Suc (tr_attempts tr)" and "0 < attempt" and "0 < k"
  shows "wp (send_loop tr payload k attempt) (sent tr payload w k attempt) (\<lambda>e v. failing w e) w"
  using assms(2-4)
proof (induction k arbitrary: attempt w)
  case (Suc k)
  show ?case
    unfolding send_loop.simps wp_bnd [of "http_post tr payload"]
  proof (rule wp_mono [OF wp_http_post])
    fix r and u :: net
    assume u: "r = answer w (length (posts w)) \<and> answer u = answer w \<and> mail_date u = mail_date w \<and> pauses u = pauses w \<and>
        (\<exists>p. posts u = posts w @ [p] \<and> post_uri p = tr_uri tr \<and> post_headers p = headers_of tr payload \<and>
             post_body p = payload)"
    then obtain p where p: "posts u = posts w @ [p]" "request_of tr payload p" by (auto simp: request_of_def)
    have one: "delivered_by tr payload w u 1"
      using u p unfolding delivered_by_def by (intro conjI exI [of _ "[p]"] exI [of _ "[]"]) simp_all
    have final: "sent tr payload w (Suc k) attempt res u"
      if "dr_attempts res = attempt" "dr_kind res \<noteq> Retriable \<or> attempt = tr_attempts tr"
        "dr_kind res = Success \<Longrightarrow> accepted_answer r" for res
    proof (rule sent_once [OF one that(1)])
      show "k = 0" if "dr_kind res = Retriable" using that \<open>dr_kind res \<noteq> Retriable \<or> _\<close> Suc.prems(1) by auto
      show "accepted_answer (answer w (length (posts u) - 1))" if "dr_kind res = Success"
        using that \<open>dr_kind res = Success \<Longrightarrow> accepted_answer r\<close> u p(1) by simp
    qed
    have again: "wp (bnd (retry_delay attempt after) (\<lambda>delay. andthen (pause delay) (send_loop tr payload k (Suc attempt))))
        (sent tr payload w (Suc k) attempt) (\<lambda>e v. failing w e) u"
      if "\<And>a. after = Some a \<Longrightarrow> bounded_pause a" "attempt \<noteq> tr_attempts tr" for after
    proof (rule wp_pause_and_retry)
      show "attempt \<le> 1024" using Suc.prems assms(1) by simp
      fix d and v :: net
      assume v: "bounded_pause d" "answer v = answer u" "mail_date v = mail_date u" "posts v = posts u" "pauses v = pauses u @ [d]"
      have "wp (send_loop tr payload k (Suc attempt)) (sent tr payload v k (Suc attempt)) (\<lambda>e v'. failing v e) v"
        using Suc.prems that(2) by (intro Suc.IH) auto
      then show "wp (send_loop tr payload k (Suc attempt)) (sent tr payload w (Suc k) attempt) (\<lambda>e v. failing w e) v"
        by (rule wp_mono) (use sent_again [of v w p tr payload d] u p v failing_cong [of v w] in auto)
    qed (rule that(1))
    show "wp (bnd (attempt_result attempt r) (\<lambda>(result, after).
        if dr_kind result \<noteq> Retriable \<or> attempt = tr_attempts tr then ret result
        else bnd (retry_delay attempt after) (\<lambda>delay. andthen (pause delay) (send_loop tr payload k (Suc attempt)))))
      (sent tr payload w (Suc k) attempt) (\<lambda>e v. failing w e) u"
      unfolding wp_bnd [of "attempt_result attempt r"]
    proof (rule wp_mono [OF wp_attempt_result])
      fix x :: "delivery_result \<times> pyfloat option" and v :: net
      obtain res after where x: "x = (res, after)" by (cases x)
      assume "(case x of (res, after) \<Rightarrow> \<lambda>v. v = u \<and> dr_attempts res = attempt \<and>
        (\<forall>a. after = Some a \<longrightarrow> bounded_pause a) \<and>
        (dr_kind res = Success \<longrightarrow> (\<exists>code h. r = Response (IntAttr code) h \<and> 200 \<le> code \<and> code \<le> 299))) v"
      then have v: "v = u" "dr_attempts res = attempt" "\<And>a. after = Some a \<Longrightarrow> bounded_pause a"
        "dr_kind res = Success \<Longrightarrow> accepted_answer r"
        by (auto simp: x accepted_answer_def)
      show "wp (case x of (result, after) \<Rightarrow>
          if dr_kind result \<noteq> Retriable \<or> attempt = tr_attempts tr then ret result
          else bnd (retry_delay attempt after) (\<lambda>delay. andthen (pause delay) (send_loop tr payload k (Suc attempt))))
        (sent tr payload w (Suc k) attempt) (\<lambda>e v. failing w e) v"
        unfolding x v(1) prod.case wp_if wp_ret using final [OF v(2) _ v(4)] again [OF v(3)] by simp
    next
      fix e and v :: net
      assume "v = u \<and> (e = OverflowError \<and> (\<exists>s. bad_date u s) \<or> fault_of r = Some e)"
      then have "failing u e" using u by (auto simp: failing_def)
      then show "failing w e" using u failing_cong [of u w] by simp
    qed
  qed simp
qed simp

section \<open>Properties\<close>

lemma wp_send:
  assumes "0 < tr_attempts tr" and "tr_attempts tr \<le> 1024" and "validate_payload payload = Inr ()"
  shows "wp (send tr payload) (sent tr payload w (tr_attempts tr) 1) (\<lambda>e v. failing w e) w"
  unfolding send_def wp_andthen wp_lift_result assms(3) sum.case
  by (rule wp_send_loop) (use assms in auto)

definition sample_transport :: "config \<Rightarrow> transport" where
  "sample_transport c =
     \<lparr>tr_config = c, tr_uri = ''https://c'', tr_token = ''t'', tr_attempts = 4\<rparr>"

definition sample_event :: dict where
  "sample_event =
     [(''event_id'', JStr ''e''), (''event'', JStr ''heartbeat''), (''machine_id'', JStr ''m''),
      (''schema_version'', JStr ''1.1'')]"

definition sample_net :: net where
  "sample_net =
     \<lparr>answer = (\<lambda>k. if k = 0 then TimeoutReply else Response (IntAttr 204) None),
      draw = (\<lambda>_. Some (Fin (1 / 2))), mail_date = (\<lambda>_. None), wall = 0, posts = [], draws = 0,
      pauses = [], closed = 0\<rparr>"

lemma sample_valid: "validate_payload sample_event = Inr ()"
  by (simp add: validate_payload_def required_header_fields_def sample_event_def field_text_def dict_get_def)



text \<open>The date of a \<open>Retry-After\<close> header is not safe to use: an answer 429 with a date whose UTC
  time lies outside the years 1 to 9999 makes \<open>send\<close> raise \<open>OverflowError\<close>, which no caller
  expects, instead of trying again.\<close>

theorem retry_date_raises:
  assumes "tr_attempts tr = Suc k" and "validate_payload payload = Inr ()"
    and "answer w (length (posts w)) = Response (IntAttr 429) (Some h)" and "h ''Retry-After'' = StrAttr s"
    and "py_float s = None" and "bad_date w s"
  shows "\<exists>v. send tr payload w = (Inl OverflowError, v)"
proof -
  obtain stamp offset where "mail_date w s = Some (stamp, offset)"
    "\<not> valid_instant (stamp - (case offset of None \<Rightarrow> 0 | Some us \<Rightarrow> us))"
    using assms(6) by (auto simp: bad_date_def split: option.splits)
  with assms(1-5) show ?thesis
    by (simp add: send_def andthen_def bnd_def lift_result_def http_post_def gets_def modify_def ret_def
        attempt_result_def classify_status_def retry_after_def parse_retry_after_def Let_def throw_def)
qed

theorem retry_date_raises_witness:
  "\<forall>c. \<exists>v. send (sample_transport c) sample_event
     (sample_net\<lparr>answer := (\<lambda>_. Response (IntAttr 429) (Some (\<lambda>_. StrAttr ''Fri, 31 Dec 9999 23:59:59 -2359''))),
                 mail_date := (\<lambda>_. Some (315537897599000000, Some (- 86340000000)))\<rparr>) = (Inl OverflowError, v)"
proof (intro allI, rule retry_date_raises)
  show "py_float ''Fri, 31 Dec 9999 23:59:59 -2359'' = None" by code_simp
  show "tr_attempts (sample_transport c) = Suc 3" for c by (simp add: sample_transport_def)
qed (simp_all add: sample_valid, simp add: bad_date_def valid_instant_def)

end
