(* ===== verification/Runtime.thy ===== *)
theory Runtime
  imports Spool_Operations Payload Orchestrator Transport
begin

text \<open>
  \<open>runtime.py\<close>: what ties the components together. One cycle collects, builds an event, replays
  the backlog in order, then sends the event or queues it. The world of the runtime is a
  \<open>machine\<close>: the spool's disk, the transport's network, and scripts for what comes from outside
  (what the collectors do, fresh UUIDs, the monotonic clock, the stop event). Every call the
  runtime makes on its spool and transport is written to \<open>journal\<close>, which the code does not
  read: it is there for the theorems.
\<close>

section \<open>The machine\<close>

datatype entry =
    Listed "string list"
  | Loaded string "json option"
  | Posted dict delivery_result
  | Acking string
  | Rejecting string
  | Retained
  | Enqueued json string

text \<open>
  \<open>flag k\<close> is the answer of the \<open>k\<close>-th call of \<open>is_set\<close> or \<open>wait\<close> on the stop event;
  \<open>mono k\<close> is the \<open>k\<close>-th reading of the monotonic clock, in seconds.
\<close>

record machine =
  disk :: world
  link :: net
  rounds :: "nat \<Rightarrow> (string \<times> run) list \<times> ticks"
  uuids :: "nat \<Rightarrow> string"
  cycles :: nat
  mono :: "nat \<Rightarrow> rat"
  mono_reads :: nat
  flag :: "nat \<Rightarrow> bool"
  queries :: nat
  waited :: "rat list"
  journal :: "entry list"

record runtime =
  rt_config :: config
  rt_identity :: identity
  rt_host :: host
  rt_transport :: transport
  rt_spool :: spool

type_synonym 'a act = "(machine, 'a) prog"

definition on_disk :: "'a io \<Rightarrow> 'a act" where
  "on_disk m s = (case m (disk s) of (r, w) \<Rightarrow> (r, s\<lparr>disk := w\<rparr>))"

definition on_link :: "(net, 'a) prog \<Rightarrow> 'a act" where
  "on_link m s = (case m (link s) of (r, w) \<Rightarrow> (r, s\<lparr>link := w\<rparr>))"

definition log_entry :: "entry \<Rightarrow> unit act" where
  "log_entry x = modify (\<lambda>s. s\<lparr>journal := journal s @ [x]\<rparr>)"

definition is_set :: "bool act" where
  "is_set = bnd (gets (\<lambda>s. flag s (queries s))) (\<lambda>b.
     andthen (modify (\<lambda>s. s\<lparr>queries := Suc (queries s)\<rparr>)) (ret b))"

definition wait_for :: "rat \<Rightarrow> bool act" where
  "wait_for t = andthen (modify (\<lambda>s. s\<lparr>waited := waited s @ [t]\<rparr>)) is_set"

definition monotonic :: "rat act" where
  "monotonic = bnd (gets (\<lambda>s. mono s (mono_reads s))) (\<lambda>t.
     andthen (modify (\<lambda>s. s\<lparr>mono_reads := Suc (mono_reads s)\<rparr>)) (ret t))"

section \<open>Construction\<close>

definition new_runtime :: "config \<Rightarrow> identity \<Rightarrow> host \<Rightarrow> transport \<Rightarrow> spool \<Rightarrow> exn + runtime" where
  "new_runtime c ident h tr sp =
     bind_result (require (0 < heartbeat_sec c) (ValueError ''heartbeat_sec must be positive'')) (\<lambda>_.
     bind_result (require (0 \<le> startup_delay_sec c) (ValueError ''startup_delay_sec must be non-negative'')) (\<lambda>_.
     bind_result (require (0 < replay_batch_size c) (ValueError ''replay_batch_size must be positive'')) (\<lambda>_.
     Inr \<lparr>rt_config = c, rt_identity = ident, rt_host = h, rt_transport = tr, rt_spool = sp\<rparr>)))"

section \<open>Calls on the spool and the transport\<close>

definition list_pending :: "runtime \<Rightarrow> string list act" where
  "list_pending rt = bnd (on_disk (pending (rt_spool rt))) (\<lambda>xs. andthen (log_entry (Listed xs)) (ret xs))"

definition load_record :: "runtime \<Rightarrow> string \<Rightarrow> json option act" where
  "load_record rt n =
     bnd (on_disk (load (rt_spool rt) (At Root n))) (\<lambda>p. andthen (log_entry (Loaded n p)) (ret p))"

definition ack_record :: "runtime \<Rightarrow> string \<Rightarrow> unit act" where
  "ack_record rt n = andthen (log_entry (Acking n)) (on_disk (ack (rt_spool rt) (At Root n)))"

definition reject_record :: "runtime \<Rightarrow> string \<Rightarrow> string act" where
  "reject_record rt n = andthen (log_entry (Rejecting n)) (on_disk (reject (rt_spool rt) (At Root n)))"

definition retain :: "runtime \<Rightarrow> (nat \<times> nat) act" where
  "retain rt = andthen (log_entry Retained) (on_disk (enforce_retention (rt_spool rt) NowNone))"

definition post_payload :: "runtime \<Rightarrow> dict \<Rightarrow> delivery_result act" where
  "post_payload rt d =
     bnd (on_link (send (rt_transport rt) d)) (\<lambda>r. andthen (log_entry (Posted d r)) (ret r))"

definition enqueue_payload :: "runtime \<Rightarrow> dict \<Rightarrow> unit act" where
  "enqueue_payload rt d =
     bnd (on_disk (enqueue (rt_spool rt) (JObj d) NowNone)) (\<lambda>n.
     andthen (log_entry (Enqueued (JObj d) n)) (andthen (retain rt) (ret ())))"

section \<open>Replay\<close>

text \<open>One record: \<open>Some ()\<close> leaves the loop. What \<open>load\<close> returns is always a dictionary.\<close>

definition replay_record :: "runtime \<Rightarrow> string \<Rightarrow> unit option act" where
  "replay_record rt n =
     bnd (load_record rt n) (\<lambda>payload.
     case payload of
       None \<Rightarrow> ret None
     | Some (JObj d) \<Rightarrow>
         bnd (post_payload rt d) (\<lambda>result.
         case dr_kind result of
           Success \<Rightarrow> andthen (ack_record rt n) (ret None)
         | Permanent \<Rightarrow> andthen (reject_record rt n) (ret None)
         | _ \<Rightarrow> ret (Some ()))
     | Some _ \<Rightarrow> throw (TypeError ''payload must be a mapping''))"

definition replay :: "runtime \<Rightarrow> bool act" where
  "replay rt =
     bnd (list_pending rt) (\<lambda>all_records.
     let records = take (nat (replay_batch_size (rt_config rt))) all_records in
     andthen (try_finally (for_some records (replay_record rt)) (retain rt))
       (bnd (list_pending rt) (\<lambda>left. ret (left = []))))"

section \<open>A cycle\<close>

definition collect :: "runtime \<Rightarrow> batch act" where
  "collect rt =
     bnd (gets (\<lambda>s. rounds s (cycles s))) (\<lambda>(registry, t).
     lift_result (collect_all registry (max_collector_workers (rt_config rt))
       (collection_timeout_sec (rt_config rt)) t))"

definition build_event :: "runtime \<Rightarrow> string \<Rightarrow> batch \<Rightarrow> dict act" where
  "build_event rt ev b =
     bnd (gets (\<lambda>s. build_payload (rt_host rt) (clock (disk s)) (uuids s (cycles s)) ev (rt_identity rt) b
                     NowNone None)) (\<lambda>r.
     andthen (modify (\<lambda>s. s\<lparr>cycles := Suc (cycles s)\<rparr>)) (lift_result r))"

definition cycle_result_of :: "dict \<Rightarrow> bool \<Rightarrow> bool \<Rightarrow> delivery_kind option \<Rightarrow> cycle_result" where
  "cycle_result_of d delivered spooled kind =
     \<lparr>cr_event_id = field_text d ''event_id'', cr_delivered = delivered, cr_spooled = spooled, cr_kind = kind\<rparr>"

definition deliver_or_queue :: "runtime \<Rightarrow> dict \<Rightarrow> cycle_result act" where
  "deliver_or_queue rt d =
     bnd (post_payload rt d) (\<lambda>result.
     case dr_kind result of
       Success \<Rightarrow> ret (cycle_result_of d True False (Some Success))
     | Permanent \<Rightarrow> ret (cycle_result_of d False False (Some Permanent))
     | kind \<Rightarrow> andthen (enqueue_payload rt d) (ret (cycle_result_of d False True (Some kind))))"

definition run_cycle :: "runtime \<Rightarrow> string \<Rightarrow> cycle_result act" where
  "run_cycle rt ev =
     bnd (collect rt) (\<lambda>b.
     bnd (build_event rt ev b) (\<lambda>d.
     bnd (replay rt) (\<lambda>empty.
     if \<not> empty then andthen (enqueue_payload rt d) (ret (cycle_result_of d False True None))
     else deliver_or_queue rt d)))"

section \<open>The loop\<close>

text \<open>\<open>while next_deadline <= now: next_deadline += interval\<close>, which need not end in floats.\<close>

partial_function (option) advance :: "rat \<Rightarrow> rat \<Rightarrow> rat \<Rightarrow> rat option" where
  "advance deadline now interval =
     (if deadline \<le> now then advance (nearest (deadline + interval)) now interval else Some deadline)"

declare advance.simps [code]

text \<open>The heartbeats; \<open>fuel\<close> bounds their number.\<close>

primrec heartbeats :: "runtime \<Rightarrow> nat \<Rightarrow> rat \<Rightarrow> unit act" where
  "heartbeats rt 0 deadline = throw Hang"
| "heartbeats rt (Suc fuel) deadline =
     bnd monotonic (\<lambda>now.
     bnd (wait_for (max 0 (nearest (deadline - now)))) (\<lambda>stop.
     if stop then ret ()
     else
       bnd is_set (\<lambda>stop.
       if stop then ret ()
       else
         bnd (run_cycle rt ''heartbeat'') (\<lambda>_.
         bnd is_set (\<lambda>stop.
         if stop then ret ()
         else
           bnd monotonic (\<lambda>now.
           case advance deadline now (of_int (heartbeat_sec (rt_config rt))) of
             None \<Rightarrow> throw Hang
           | Some next_deadline \<Rightarrow> heartbeats rt fuel next_deadline))))))"

definition run_loop :: "runtime \<Rightarrow> nat \<Rightarrow> unit act" where
  "run_loop rt fuel =
     bnd is_set (\<lambda>stop.
     if stop then ret ()
     else
       bnd (wait_for (of_int (startup_delay_sec (rt_config rt)))) (\<lambda>stop.
       if stop then ret ()
       else
         bnd is_set (\<lambda>stop.
         if stop then ret ()
         else
           bnd (run_cycle rt ''startup'') (\<lambda>_.
           bnd is_set (\<lambda>stop.
           if stop then ret ()
           else
             bnd monotonic (\<lambda>now.
             heartbeats rt fuel (nearest (now + of_int (heartbeat_sec (rt_config rt))))))))))"

definition run_agent :: "runtime \<Rightarrow> nat \<Rightarrow> unit act" where
  "run_agent rt fuel =
     try_else (run_loop rt fuel) any_exn
       (\<lambda>e. andthen (suppress any_exn (on_link close_transport)) (throw e))
       (\<lambda>_. on_link close_transport)"

text \<open>\<open>request_stop\<close>: from then on every query of the stop event is answered yes.\<close>

definition request_stop :: "unit act" where
  "request_stop =
     bnd is_set (\<lambda>b.
     if b then ret () else modify (\<lambda>s. s\<lparr>flag := (\<lambda>k. queries s \<le> k \<or> flag s k)\<rparr>))"

end
