(* ===== verification/Runtime_Safety.thy ===== *)
theory Runtime_Safety
  imports Runtime
begin

text \<open>
  What the runtime guarantees: that it keeps every property of the disk the spool keeps, what its
  journal looks like after a replay and after a cycle, that records are acknowledged only after the
  server accepted them, that the next deadline is found and lies in the future, that the loop ends
  when the stop event is set, and that the transport is closed exactly once.
\<close>

section \<open>The spool as the runtime sees it\<close>

text \<open>A property of the disk that every operation the runtime calls keeps.\<close>

locale spool_client =
  fixes P :: "world \<Rightarrow> bool" and sp :: spool
  assumes client_pending: "keeps P (pending sp)"
    and client_load: "keeps P (load sp p)"
    and client_ack: "keeps P (ack sp p)"
    and client_reject: "keeps P (reject sp p)"
    and client_enqueue: "keeps P (enqueue sp payload n)"
    and client_retention: "keeps P (enforce_retention sp n)"
begin

definition on_machine :: "machine \<Rightarrow> bool" where
  "on_machine s \<longleftrightarrow> P (disk s)"

lemma keeps_on_disk: "keeps P m \<Longrightarrow> keeps on_machine (on_disk m)"
  by (auto simp: keeps_def on_disk_def on_machine_def split: prod.split)

lemma keeps_elsewhere [keeps_intros]:
  "keeps on_machine (on_link k)" "keeps on_machine (log_entry x)" "keeps on_machine is_set"
  "keeps on_machine (wait_for t)" "keeps on_machine monotonic"
  by (simp_all add: keeps_def on_machine_def on_link_def log_entry_def is_set_def wait_for_def monotonic_def
      modify_def bnd_def andthen_def gets_def ret_def split: prod.split)

lemma keeps_calls [keeps_intros]:
  assumes "rt_spool rt = sp"
  shows "keeps on_machine (list_pending rt)" "keeps on_machine (load_record rt n)"
    "keeps on_machine (ack_record rt n)" "keeps on_machine (reject_record rt n)" "keeps on_machine (retain rt)"
    "keeps on_machine (post_payload rt d)" "keeps on_machine (enqueue_payload rt d)"
  unfolding list_pending_def load_record_def ack_record_def reject_record_def retain_def post_payload_def
    enqueue_payload_def assms
  by (intro keeps_intros keeps_on_disk client_pending client_load client_ack client_reject client_enqueue
      client_retention)+

lemma keeps_replay [keeps_intros]: "rt_spool rt = sp \<Longrightarrow> keeps on_machine (replay rt)"
  unfolding replay_def replay_record_def
  by (intro keeps_intros; auto split: json.split delivery_kind.split intro!: keeps_intros)

lemma keeps_run_cycle [keeps_intros]: "rt_spool rt = sp \<Longrightarrow> keeps on_machine (run_cycle rt ev)"
proof -
  assume rt: "rt_spool rt = sp"
  have "keeps on_machine (build_event rt ev b)" for b
    by (simp add: keeps_def on_machine_def build_event_def bnd_def andthen_def gets_def modify_def lift_result_def)
  then show ?thesis
    unfolding run_cycle_def collect_def deliver_or_queue_def
    by (intro keeps_intros rt; auto split: delivery_kind.split intro!: keeps_intros rt)
qed

lemma keeps_heartbeats [keeps_intros]: "rt_spool rt = sp \<Longrightarrow> keeps on_machine (heartbeats rt fuel t)"
  by (induction fuel arbitrary: t) (auto split: option.split intro!: keeps_intros)

lemma keeps_run_agent: "rt_spool rt = sp \<Longrightarrow> keeps on_machine (run_agent rt fuel)"
  unfolding run_agent_def run_loop_def by (intro keeps_intros)

end

interpretation wf_client: spool_client well_formed sp for sp
  by unfold_locales
    (auto intro!: wf.keeps_public wf.keeps_ack wf.keeps_retention wf.keeps_enqueue)

interpretation contents_client: spool_client "contents_kept u" sp for u sp
  by unfold_locales
    (auto intro!: contents.keeps_public contents.keeps_ack contents.keeps_retention contents.keeps_enqueue)

interpretation complete_client: spool_client "records_complete (depth_limit sp)" sp for sp
  by unfold_locales
    (auto intro!: complete.keeps_public complete.keeps_ack complete.keeps_retention complete.keeps_enqueue
      dest: complete.accepted)

section \<open>The journal\<close>

declare run_ends [simp del]

lemma wp_on_disk: "wp (on_disk m) (\<lambda>_ v. journal v = journal w \<and> link v = link w) (\<lambda>_ v. journal v = journal w \<and> link v = link w) w"
  by (auto simp: wp_def on_disk_def split: prod.split sum.split)

lemma wp_on_link: "wp (on_link m) (\<lambda>_ v. journal v = journal w) (\<lambda>_ v. journal v = journal w) w"
  by (auto simp: wp_def on_link_def split: prod.split sum.split)

lemma wp_log: "wp (log_entry x) Q E w \<longleftrightarrow> Q () (w\<lparr>journal := journal w @ [x]\<rparr>)"
  by (simp add: log_entry_def wp_modify)

text \<open>What a call adds to the journal when it returns, and when it raises.\<close>

definition adds :: "('a \<Rightarrow> entry list \<Rightarrow> bool) \<Rightarrow> (entry list \<Rightarrow> bool) \<Rightarrow> 'a act \<Rightarrow> bool" where
  "adds Q E m \<longleftrightarrow>
     (\<forall>w. wp m (\<lambda>x v. \<exists>j. journal v = journal w @ j \<and> Q x j) (\<lambda>e v. \<exists>j. journal v = journal w @ j \<and> E j) w)"

named_theorems adds_rules \<open>what the code adds to the journal\<close>

lemma adds_mono: "adds Q E m \<Longrightarrow> (\<And>x j. Q x j \<Longrightarrow> Q' x j) \<Longrightarrow> (\<And>j. E j \<Longrightarrow> E' j) \<Longrightarrow> adds Q' E' m"
  unfolding adds_def by (blast intro: wp_mono)

lemma adds_bnd:
  assumes "adds Q E m" and "\<And>x j. Q x j \<Longrightarrow> adds (\<lambda>y k. Q' y (j @ k)) (\<lambda>k. E (j @ k)) (f x)"
  shows "adds Q' E (bnd m f)"
  unfolding adds_def wp_bnd
proof
  fix w
  have "wp m (\<lambda>x v. \<exists>j. journal v = journal w @ j \<and> Q x j) (\<lambda>e v. \<exists>j. journal v = journal w @ j \<and> E j) w"
    using assms(1) by (simp add: adds_def)
  then show "wp m (\<lambda>x. wp (f x) (\<lambda>x v. \<exists>j. journal v = journal w @ j \<and> Q' x j) (\<lambda>e v. \<exists>j. journal v = journal w @ j \<and> E j))
      (\<lambda>e v. \<exists>j. journal v = journal w @ j \<and> E j) w"
  proof (rule wp_mono)
    fix x and v :: machine
    assume "\<exists>j. journal v = journal w @ j \<and> Q x j"
    then obtain j where j: "journal v = journal w @ j" "Q x j" by blast
    from assms(2) [OF j(2)]
    have "wp (f x) (\<lambda>y u. \<exists>k. journal u = journal v @ k \<and> Q' y (j @ k)) (\<lambda>e u. \<exists>k. journal u = journal v @ k \<and> E (j @ k)) v"
      by (simp add: adds_def)
    then show "wp (f x) (\<lambda>x v. \<exists>j. journal v = journal w @ j \<and> Q' x j) (\<lambda>e v. \<exists>j. journal v = journal w @ j \<and> E j) v"
      by (rule wp_mono) (auto simp: j(1))
  qed
qed

lemma adds_andthen:
  "adds Q E m \<Longrightarrow> (\<And>x j. Q x j \<Longrightarrow> adds (\<lambda>y k. Q' y (j @ k)) (\<lambda>k. E (j @ k)) k') \<Longrightarrow> adds Q' E (andthen m k')"
  unfolding andthen_def by (rule adds_bnd)

lemma adds_ret: "Q x [] \<Longrightarrow> adds Q E (ret x)"
  by (simp add: adds_def wp_ret)

lemma adds_throw: "E [] \<Longrightarrow> adds Q E (throw e)"
  by (simp add: adds_def wp_throw)

lemma adds_log: "Q () [x] \<Longrightarrow> adds Q E (log_entry x)"
  by (simp add: adds_def wp_log)

lemma adds_on_disk: "adds (\<lambda>_ j. j = []) (\<lambda>j. j = []) (on_disk m)"
  unfolding adds_def by (auto intro: wp_mono [OF wp_on_disk])

lemma adds_call_then_log:
  "(\<And>x. Q x [l x]) \<Longrightarrow> E [] \<Longrightarrow> adds Q E (bnd (on_disk m) (\<lambda>x. andthen (log_entry (l x)) (ret x)))"
  "(\<And>x. Q x [l x]) \<Longrightarrow> E [] \<Longrightarrow> adds Q E (bnd (on_link k) (\<lambda>x. andthen (log_entry (l x)) (ret x)))"
proof -
  assume q: "\<And>x. Q x [l x]" "E []"
  show "adds Q E (bnd (on_disk m) (\<lambda>x. andthen (log_entry (l x)) (ret x)))"
    unfolding adds_def wp_bnd
    by (intro allI wp_mono [OF wp_on_disk]) (auto simp: wp_andthen wp_log wp_ret q)
  show "adds Q E (bnd (on_link k) (\<lambda>x. andthen (log_entry (l x)) (ret x)))"
    unfolding adds_def wp_bnd
    by (intro allI wp_mono [OF wp_on_link]) (auto simp: wp_andthen wp_log wp_ret q)
qed

lemma adds_log_then_call: "(\<And>x. Q x [l]) \<Longrightarrow> E [l] \<Longrightarrow> adds Q E (andthen (log_entry l) (on_disk m))"
  unfolding adds_def wp_andthen wp_log
  by (intro allI wp_mono [OF wp_on_disk]) auto

text \<open>The calls.\<close>

lemma adds_calls:
  "adds (\<lambda>xs j. j = [Listed xs]) (\<lambda>j. j = []) (list_pending rt)"
  "adds (\<lambda>p j. j = [Loaded n p]) (\<lambda>j. j = []) (load_record rt n)"
  "adds (\<lambda>_ j. j = [Acking n]) (\<lambda>j. j = [Acking n]) (ack_record rt n)"
  "adds (\<lambda>_ j. j = [Rejecting n]) (\<lambda>j. j = [Rejecting n]) (reject_record rt n)"
  "adds (\<lambda>_ j. j = [Retained]) (\<lambda>j. j = [Retained]) (retain rt)"
  "adds (\<lambda>r j. j = [Posted d r]) (\<lambda>j. j = []) (post_payload rt d)"
  unfolding list_pending_def load_record_def ack_record_def reject_record_def retain_def post_payload_def
  by (intro adds_call_then_log adds_log_then_call refl)+

text \<open>One record of a replay: loaded, then sent, then acknowledged, rejected, or left to end the batch.\<close>

definition record_steps :: "string \<Rightarrow> unit option \<Rightarrow> entry list \<Rightarrow> bool" where
  "record_steps n r j \<longleftrightarrow>
     r = None \<and> j = [Loaded n None] \<or>
     (\<exists>d res. case dr_kind res of
        Success \<Rightarrow> r = None \<and> j = [Loaded n (Some (JObj d)), Posted d res, Acking n]
      | Permanent \<Rightarrow> r = None \<and> j = [Loaded n (Some (JObj d)), Posted d res, Rejecting n]
      | _ \<Rightarrow> r = Some () \<and> j = [Loaded n (Some (JObj d)), Posted d res])"

text \<open>No record is acknowledged, or rejected, but right after the server accepted, or refused, its payload.\<close>

definition justified :: "entry list \<Rightarrow> bool" where
  "justified j \<longleftrightarrow>
     (\<forall>pre post n. j = pre @ Acking n # post \<longrightarrow>
        (\<exists>pre' d res. pre = pre' @ [Loaded n (Some (JObj d)), Posted d res] \<and> dr_kind res = Success)) \<and>
     (\<forall>pre post n. j = pre @ Rejecting n # post \<longrightarrow>
        (\<exists>pre' d res. pre = pre' @ [Loaded n (Some (JObj d)), Posted d res] \<and> dr_kind res = Permanent))"

lemma justified_append:
  assumes "justified a" and "justified b"
  shows "justified (a @ b)"
proof -
  have cases: "(\<exists>us. pre = a @ us \<and> b = us @ x # post) \<or> (\<exists>us. a = pre @ x # us \<and> post = us @ b)"
    if "a @ b = pre @ x # post" for pre post x
    using that by (auto simp: append_eq_append_conv2 append_eq_Cons_conv)
  show ?thesis
    unfolding justified_def
  proof (intro conjI allI impI)
    fix pre post n
    assume "a @ b = pre @ Acking n # post"
    from cases [OF this] assms
    show "\<exists>pre' d res. pre = pre' @ [Loaded n (Some (JObj d)), Posted d res] \<and> dr_kind res = Success"
      unfolding justified_def by (metis append_assoc)
  next
    fix pre post n
    assume "a @ b = pre @ Rejecting n # post"
    from cases [OF this] assms
    show "\<exists>pre' d res. pre = pre' @ [Loaded n (Some (JObj d)), Posted d res] \<and> dr_kind res = Permanent"
      unfolding justified_def by (metis append_assoc)
  qed
qed

lemma justified_plain [simp]:
  "justified []" "justified [Listed xs]" "justified [Loaded n p]" "justified [Posted d r]" "justified [Retained]"
  "justified [Enqueued q n]"
  by (auto simp: justified_def Cons_eq_append_conv)

lemma justified_pairs [simp]:
  "justified [Loaded n p, Posted d r]"
  "dr_kind r = Success \<Longrightarrow> justified [Loaded n (Some (JObj d)), Posted d r, Acking n]"
  "dr_kind r = Permanent \<Longrightarrow> justified [Loaded n (Some (JObj d)), Posted d r, Rejecting n]"
  by (auto simp: justified_def Cons_eq_append_conv)

lemma justified_stores [simp]:
  "justified [Enqueued q n, Retained]" "justified [Posted d r, Enqueued q n, Retained]"
  by (auto simp: justified_def Cons_eq_append_conv)

lemma record_steps_justified: "record_steps n r j \<Longrightarrow> justified j"
proof -
  assume "record_steps n r j"
  then consider "j = [Loaded n None]"
    | d res where "case dr_kind res of
        Success \<Rightarrow> r = None \<and> j = [Loaded n (Some (JObj d)), Posted d res, Acking n]
      | Permanent \<Rightarrow> r = None \<and> j = [Loaded n (Some (JObj d)), Posted d res, Rejecting n]
      | _ \<Rightarrow> r = Some () \<and> j = [Loaded n (Some (JObj d)), Posted d res]"
    unfolding record_steps_def by blast
  then show ?thesis
  proof cases
    case (2 d res)
    then show ?thesis by (cases "dr_kind res") simp_all
  qed simp
qed

lemma adds_replay_record: "adds (record_steps n) justified (replay_record rt n)"
  unfolding replay_record_def
proof (rule adds_bnd [OF adds_mono [OF adds_calls(2)]])
  show "j = [Loaded n p] \<Longrightarrow> j = [Loaded n p]" for p j by assumption
  fix p j
  assume j: "j = [Loaded n p]"
  show "adds (\<lambda>r k. record_steps n r (j @ k)) (\<lambda>k. justified (j @ k))
      (case p of None \<Rightarrow> ret None
       | Some (JObj d) \<Rightarrow> bnd (post_payload rt d) (\<lambda>result.
           case dr_kind result of Success \<Rightarrow> andthen (ack_record rt n) (ret None)
           | Permanent \<Rightarrow> andthen (reject_record rt n) (ret None) | _ \<Rightarrow> ret (Some ()))
       | Some _ \<Rightarrow> throw (TypeError ''payload must be a mapping''))"
  proof (cases "\<exists>d. p = Some (JObj d)")
    case True
    then obtain d where p: "p = Some (JObj d)" by blast
    have "adds (\<lambda>r k. record_steps n r (j @ k)) (\<lambda>k. justified (j @ k)) (bnd (post_payload rt d) (\<lambda>result.
           case dr_kind result of Success \<Rightarrow> andthen (ack_record rt n) (ret None)
           | Permanent \<Rightarrow> andthen (reject_record rt n) (ret None) | _ \<Rightarrow> ret (Some ())))"
    proof (rule adds_bnd [OF adds_mono [OF adds_calls(6)]])
      fix res k
      assume k: "k = [Posted d res]"
      show "adds (\<lambda>r l. record_steps n r (j @ k @ l)) (\<lambda>l. justified (j @ k @ l))
          (case dr_kind res of Success \<Rightarrow> andthen (ack_record rt n) (ret None)
           | Permanent \<Rightarrow> andthen (reject_record rt n) (ret None) | _ \<Rightarrow> ret (Some ()))"
      proof (cases "dr_kind res")
        case Success
        then show ?thesis
          by (simp add: j k p) (rule adds_andthen [OF adds_mono [OF adds_calls(3)]],
            auto simp: record_steps_def intro!: adds_ret exI [of _ d] exI [of _ res])
      next
        case Permanent
        then show ?thesis
          by (simp add: j k p) (rule adds_andthen [OF adds_mono [OF adds_calls(4)]],
            auto simp: record_steps_def intro!: adds_ret exI [of _ d] exI [of _ res])
      qed (auto simp: j k p record_steps_def intro!: adds_ret exI [of _ d] exI [of _ res])
    qed (simp_all add: j)
    then show ?thesis by (simp add: p)
  next
    case False
    then show ?thesis
      by (auto simp: j record_steps_def split: option.split json.split intro!: adds_ret adds_throw)
  qed
qed simp_all

text \<open>A batch: its records in order, up to the first that could not be delivered.\<close>

primrec batch_steps :: "string list \<Rightarrow> entry list \<Rightarrow> bool" where
  "batch_steps [] j = (j = [])"
| "batch_steps (n # ns) j =
     (\<exists>a b. j = a @ b \<and>
        (record_steps n None a \<and> batch_steps ns b \<or> record_steps n (Some ()) a \<and> b = []))"

lemma batch_steps_justified: "batch_steps ns j \<Longrightarrow> justified j"
  by (induction ns arbitrary: j) (auto intro: justified_append record_steps_justified)

lemma adds_batch: "adds (\<lambda>_. batch_steps ns) justified (for_some ns (replay_record rt))"
proof (induction ns)
  case (Cons n ns)
  show ?case
    unfolding for_some.simps
  proof (rule adds_bnd [OF adds_replay_record])
    fix r j
    assume j: "record_steps n r j"
    show "adds (\<lambda>_ k. batch_steps (n # ns) (j @ k)) (\<lambda>k. justified (j @ k))
        (case r of None \<Rightarrow> for_some ns (replay_record rt) | Some y \<Rightarrow> ret (Some y))"
    proof (cases r)
      case None
      have "adds (\<lambda>_ k. batch_steps (n # ns) (j @ k)) (\<lambda>k. justified (j @ k)) (for_some ns (replay_record rt))"
        by (rule adds_mono [OF Cons.IH])
          (use j None in \<open>auto intro: justified_append record_steps_justified\<close>)
      then show ?thesis by (simp add: None)
    next
      case (Some u)
      with j have "batch_steps (n # ns) j" by auto
      then show ?thesis by (simp add: Some adds_ret)
    qed
  qed
qed (simp add: adds_ret)

lemma adds_finally:
  assumes "adds Q justified m" and "adds (\<lambda>_ j. j = [l]) (\<lambda>j. j = [l]) h" and "justified [l]"
    and q: "\<And>x j. Q x j \<Longrightarrow> justified j"
  shows "adds (\<lambda>x j. \<exists>a. Q x a \<and> j = a @ [l]) justified (try_finally m h)"
  unfolding adds_def wp_try_finally
proof
  fix w
  have last: "wp h (\<lambda>_ u. journal u = journal v @ [l]) (\<lambda>_ u. journal u = journal v @ [l]) v" for v
    using assms(2) unfolding adds_def by (auto elim!: allE [of _ v] intro: wp_mono)
  have "wp m (\<lambda>x v. \<exists>j. journal v = journal w @ j \<and> Q x j) (\<lambda>e v. \<exists>j. journal v = journal w @ j \<and> justified j) w"
    using assms(1) by (simp add: adds_def)
  then show "wp m (\<lambda>x. wp h (\<lambda>_ v. \<exists>j. journal v = journal w @ j \<and> (\<exists>a. Q x a \<and> j = a @ [l]))
        (\<lambda>e v. \<exists>j. journal v = journal w @ j \<and> justified j))
      (\<lambda>e w'. if fatal e then \<exists>j. journal w' = journal w @ j \<and> justified j
        else wp h (\<lambda>_ v. \<exists>j. journal v = journal w @ j \<and> justified j)
              (\<lambda>e v. \<exists>j. journal v = journal w @ j \<and> justified j) w') w"
    by (rule wp_mono)
      (auto intro!: wp_mono [OF last] intro: justified_append [OF q assms(3)] justified_append [OF _ assms(3)])
qed

text \<open>What \<open>replay\<close> does: one listing, one batch, retention, and another listing.\<close>

definition replay_steps :: "runtime \<Rightarrow> string list \<Rightarrow> entry list \<Rightarrow> bool" where
  "replay_steps rt left j \<longleftrightarrow>
     (\<exists>xs k. j = Listed xs # k @ [Retained, Listed left] \<and>
        batch_steps (take (nat (replay_batch_size (rt_config rt))) xs) k)"

lemma justified_Cons: "justified [x] \<Longrightarrow> justified j \<Longrightarrow> justified (x # j)"
  using justified_append [of "[x]" j] by simp

lemma replay_steps_justified: "replay_steps rt left j \<Longrightarrow> justified j"
  unfolding replay_steps_def
  by (auto intro!: justified_Cons [OF justified_plain(2)] justified_append dest: batch_steps_justified
      intro: justified_Cons)

lemma adds_replay: "adds (\<lambda>empty j. \<exists>left. replay_steps rt left j \<and> empty = (left = [])) justified (replay rt)"
  unfolding replay_def Let_def
proof (rule adds_bnd [OF adds_mono [OF adds_calls(1)]])
  fix xs j
  assume j: "j = [Listed xs]"
  let ?ns = "take (nat (replay_batch_size (rt_config rt))) xs"
  show "adds (\<lambda>empty k. \<exists>left. replay_steps rt left (j @ k) \<and> empty = (left = [])) (\<lambda>k. justified (j @ k))
      (andthen (try_finally (for_some ?ns (replay_record rt)) (retain rt))
        (bnd (list_pending rt) (\<lambda>left. ret (left = []))))"
  proof (rule adds_andthen [OF adds_mono [OF adds_finally [OF adds_batch adds_calls(5) justified_plain(5) batch_steps_justified]]])
    fix r k
    assume "\<exists>a. batch_steps ?ns a \<and> k = a @ [Retained]"
    then obtain a where a: "batch_steps ?ns a" "k = a @ [Retained]" by blast
    have before: "justified (j @ k)"
      unfolding j a(2) by (intro justified_append justified_plain batch_steps_justified [OF a(1)])
    show "adds (\<lambda>empty l. \<exists>left. replay_steps rt left (j @ k @ l) \<and> empty = (left = [])) (\<lambda>l. justified (j @ k @ l))
        (bnd (list_pending rt) (\<lambda>left. ret (left = [])))"
      by (rule adds_bnd [OF adds_mono [OF adds_calls(1)]])
        (use a j before in \<open>auto simp: replay_steps_def intro!: adds_ret\<close>)
  qed (auto simp: j intro: justified_Cons)
qed simp_all

text \<open>What a cycle does after its replay, and the result it reports.\<close>

definition cycle_end :: "string list \<Rightarrow> dict \<Rightarrow> cycle_result \<Rightarrow> entry list \<Rightarrow> bool" where
  "cycle_end left d res j \<longleftrightarrow>
     (if left \<noteq> []
      then (\<exists>n. j = [Enqueued (JObj d) n, Retained]) \<and> res = cycle_result_of d False True None
      else \<exists>r. case dr_kind r of
             Success \<Rightarrow> j = [Posted d r] \<and> res = cycle_result_of d True False (Some Success)
           | Permanent \<Rightarrow> j = [Posted d r] \<and> res = cycle_result_of d False False (Some Permanent)
           | kind \<Rightarrow> (\<exists>n. j = [Posted d r, Enqueued (JObj d) n, Retained]) \<and>
                     res = cycle_result_of d False True (Some kind))"

lemma adds_enqueue:
  "adds (\<lambda>_ j. \<exists>n. j = [Enqueued (JObj d) n, Retained]) justified (enqueue_payload rt d)"
  unfolding enqueue_payload_def
proof (rule adds_bnd [OF adds_mono [OF adds_on_disk]])
  fix n and j :: "entry list"
  assume j: "j = []"
  show "adds (\<lambda>_ k. \<exists>m. j @ k = [Enqueued (JObj d) m, Retained]) (\<lambda>k. justified (j @ k))
      (andthen (log_entry (Enqueued (JObj d) n)) (andthen (retain rt) (ret ())))"
    unfolding j append_Nil
  proof (rule adds_andthen [OF adds_log [of "\<lambda>_ j. j = [Enqueued (JObj d) n]"]])
    fix k
    assume k: "k = [Enqueued (JObj d) n]"
    show "adds (\<lambda>_ l. \<exists>m. k @ l = [Enqueued (JObj d) m, Retained]) (\<lambda>l. justified (k @ l)) (andthen (retain rt) (ret ()))"
      by (rule adds_andthen [OF adds_mono [OF adds_calls(5)]])
        (auto simp: k intro!: adds_ret justified_Cons [OF justified_plain(6)])
  qed simp
qed auto

text \<open>Collecting and building only read the machine.\<close>

lemma adds_collect: "adds (\<lambda>_ j. j = []) (\<lambda>j. j = []) (collect rt)"
  by (simp add: adds_def collect_def wp_bnd wp_gets wp_lift_result split: prod.split sum.split)

lemma adds_build_event: "adds (\<lambda>d j. map fst d = schema_keys \<and> j = []) (\<lambda>j. j = []) (build_event rt ev b)"
proof -
  have keys: "map fst d = schema_keys" if "build_payload h c u ev i b n e = Inr d" for h c u i n e d
    using that by (elim built) (simp add: document_keys [OF sections_keys])
  show ?thesis
    by (auto simp: adds_def build_event_def wp_bnd wp_gets wp_andthen wp_modify wp_lift_result keys split: sum.split)
qed

lemma adds_deliver: "adds (\<lambda>res j. cycle_end [] d res j) justified (deliver_or_queue rt d)"
  unfolding deliver_or_queue_def
proof (rule adds_bnd [OF adds_mono [OF adds_calls(6)]])
  fix r j
  assume j: "j = [Posted d r]"
  show "adds (\<lambda>res k. cycle_end [] d res (j @ k)) (\<lambda>k. justified (j @ k))
      (case dr_kind r of Success \<Rightarrow> ret (cycle_result_of d True False (Some Success))
       | Permanent \<Rightarrow> ret (cycle_result_of d False False (Some Permanent))
       | kind \<Rightarrow> andthen (enqueue_payload rt d) (ret (cycle_result_of d False True (Some kind))))"
  proof (cases "dr_kind r")
    case Retriable
    then show ?thesis
      by (simp add: j) (rule adds_andthen [OF adds_mono [OF adds_enqueue]],
        auto simp: cycle_end_def intro!: adds_ret exI [of _ r] intro: justified_Cons)
  next
    case Authentication
    then show ?thesis
      by (simp add: j) (rule adds_andthen [OF adds_mono [OF adds_enqueue]],
        auto simp: cycle_end_def intro!: adds_ret exI [of _ r] intro: justified_Cons)
  qed (auto simp: j cycle_end_def intro!: adds_ret exI [of _ r])
qed simp_all

definition cycle_steps :: "runtime \<Rightarrow> cycle_result \<Rightarrow> entry list \<Rightarrow> bool" where
  "cycle_steps rt res j \<longleftrightarrow>
     (\<exists>left d a b. map fst d = schema_keys \<and> j = a @ b \<and> replay_steps rt left a \<and> cycle_end left d res b)"

lemma cycle_steps_queued:
  "map fst d = schema_keys \<Longrightarrow> replay_steps rt left a \<Longrightarrow> left \<noteq> [] \<Longrightarrow>
     cycle_steps rt (cycle_result_of d False True None) (a @ [Enqueued (JObj d) n, Retained])"
  unfolding cycle_steps_def
  by (rule exI [of _ left], rule exI [of _ d], rule exI [of _ a],
      rule exI [of _ "[Enqueued (JObj d) n, Retained]"]) (simp add: cycle_end_def)

lemma adds_run_cycle: "adds (cycle_steps rt) justified (run_cycle rt ev)"
  unfolding run_cycle_def
proof (rule adds_bnd [OF adds_mono [OF adds_collect]])
  fix b and j :: "entry list"
  assume j: "j = []"
  show "adds (\<lambda>res k. cycle_steps rt res (j @ k)) (\<lambda>k. justified (j @ k)) (bnd (build_event rt ev b)
      (\<lambda>d. bnd (replay rt) (\<lambda>empty. if \<not> empty then andthen (enqueue_payload rt d) (ret (cycle_result_of d False True None))
        else deliver_or_queue rt d)))"
    unfolding j append_Nil
  proof (rule adds_bnd [OF adds_mono [OF adds_build_event]])
    fix d :: dict and k :: "entry list"
    assume d: "map fst d = schema_keys \<and> k = []"
    show "adds (\<lambda>res l. cycle_steps rt res (k @ l)) (\<lambda>l. justified (k @ l))
       (bnd (replay rt) (\<lambda>empty. if \<not> empty then andthen (enqueue_payload rt d) (ret (cycle_result_of d False True None))
        else deliver_or_queue rt d))"
    proof (simp only: d append_Nil, rule adds_bnd [OF adds_replay])
      fix empty a
      assume "\<exists>left. replay_steps rt left a \<and> empty = (left = [])"
      then obtain left where a: "replay_steps rt left a" "empty = (left = [])" by blast
      note ja = replay_steps_justified [OF a(1)]
      show "adds (\<lambda>res l. cycle_steps rt res (a @ l)) (\<lambda>l. justified (a @ l))
         (if \<not> empty then andthen (enqueue_payload rt d) (ret (cycle_result_of d False True None))
          else deliver_or_queue rt d)"
      proof (cases empty)
        case True
        then have "adds (\<lambda>res l. cycle_steps rt res (a @ l)) (\<lambda>l. justified (a @ l)) (deliver_or_queue rt d)"
          using a d by (auto intro!: adds_mono [OF adds_deliver] justified_append ja simp: cycle_steps_def)
        then show ?thesis using True by simp
      next
        case False
        then have "adds (\<lambda>res l. cycle_steps rt res (a @ l)) (\<lambda>l. justified (a @ l))
            (andthen (enqueue_payload rt d) (ret (cycle_result_of d False True None)))"
          by (intro adds_andthen [OF adds_mono [OF adds_enqueue]])
            (use a d False in \<open>auto intro!: adds_ret cycle_steps_queued justified_append ja\<close>)
        then show ?thesis using False by simp
      qed
    qed
  qed auto
qed auto

text \<open>A call that only adds justified entries, whatever its outcome.\<close>

definition adds_justified :: "'a act \<Rightarrow> bool" where
  "adds_justified m \<longleftrightarrow> adds (\<lambda>_. justified) justified m"

lemma adds_justified_bnd: "adds_justified m \<Longrightarrow> (\<And>x. adds_justified (f x)) \<Longrightarrow> adds_justified (bnd m f)"
  unfolding adds_justified_def
  by (rule adds_bnd, assumption) (blast intro: adds_mono justified_append)

lemma adds_justified_calls:
  "adds_justified (ret x)" "adds_justified (throw e)" "adds_justified is_set" "adds_justified (wait_for t)"
  "adds_justified monotonic" "adds_justified (on_link close_transport)" "adds_justified (run_cycle rt ev)"
proof -
  have "justified j" if "cycle_end left d res j" for left d res j
  proof (cases "left = []")
    case True
    with that obtain r where "case dr_kind r of
             Success \<Rightarrow> j = [Posted d r] \<and> res = cycle_result_of d True False (Some Success)
           | Permanent \<Rightarrow> j = [Posted d r] \<and> res = cycle_result_of d False False (Some Permanent)
           | kind \<Rightarrow> (\<exists>n. j = [Posted d r, Enqueued (JObj d) n, Retained]) \<and>
                     res = cycle_result_of d False True (Some kind)"
      unfolding cycle_end_def by auto
    then show ?thesis by (cases "dr_kind r") auto
  qed (use that in \<open>auto simp: cycle_end_def\<close>)
  then have "cycle_steps rt res j \<Longrightarrow> justified j" for res j
    unfolding cycle_steps_def by (blast intro: justified_append dest: replay_steps_justified)
  then show "adds_justified (run_cycle rt ev)"
    unfolding adds_justified_def by (rule adds_mono [OF adds_run_cycle])
  show "adds_justified (on_link close_transport)"
    unfolding adds_justified_def adds_def by (intro allI wp_mono [OF wp_on_link]) auto
qed (simp_all add: adds_justified_def adds_def wp_ret wp_throw is_set_def wait_for_def monotonic_def wp_bnd wp_gets
    wp_andthen wp_modify)

lemma adds_justified_if: "adds_justified m \<Longrightarrow> adds_justified k \<Longrightarrow> adds_justified (if b then m else k)"
  by simp

lemma adds_justified_heartbeats: "adds_justified (heartbeats rt fuel t)"
proof (induction fuel arbitrary: t)
  case (Suc fuel)
  show ?case
    unfolding heartbeats.simps
    by (intro adds_justified_bnd adds_justified_calls adds_justified_if)
      (auto split: option.split intro: adds_justified_calls Suc.IH)
qed (simp add: adds_justified_calls)

lemma adds_justified_run_loop: "adds_justified (run_loop rt fuel)"
  unfolding run_loop_def
  by (intro adds_justified_bnd adds_justified_calls adds_justified_if adds_justified_heartbeats)

lemma adds_justified_run_agent: "adds_justified (run_agent rt fuel)"
proof -
  have 1: "wp (run_loop rt fuel) (\<lambda>_ v. \<exists>j. journal v = journal w @ j \<and> justified j)
      (\<lambda>_ v. \<exists>j. journal v = journal w @ j \<and> justified j) w" for w
    using adds_justified_run_loop by (simp add: adds_justified_def adds_def)
  show ?thesis
    unfolding adds_justified_def adds_def run_agent_def wp_try_else
    by (rule allI, rule wp_mono [OF 1])
      (auto simp: wp_andthen wp_suppress wp_throw intro!: wp_mono [OF wp_on_link])
qed

section \<open>The schedule\<close>

lemma advance_found:
  assumes "1 \<le> i" and "i \<le> 2 ^ 51" and "now \<le> 2 ^ 51"
  shows "0 \<le> d \<Longrightarrow> \<exists>d'. advance d now i = Some d' \<and> now < d' \<and> d \<le> d' \<and> (d \<le> now \<longrightarrow> d' \<le> now + i + 1 / 2)"
proof (induction "nat \<lceil>2 * (now - d) + 1\<rceil>" arbitrary: d rule: less_induct)
  case less
  show ?case
  proof (cases "d \<le> now")
    case True
    let ?d = "nearest (d + i)"
    have "\<bar>d + i\<bar> \<le> 2 ^ 52" using True assms less.prems by simp
    then have near: "\<bar>?d - (d + i)\<bar> \<le> 1 / 2" by (rule nearest_error)
    then have step: "d + 1 / 2 \<le> ?d" "?d \<le> d + i + 1 / 2" using assms(1) by linarith+
    have "2 * (now - ?d) + 1 \<le> (2 * (now - d) + 1) - 1" using step by (simp add: algebra_simps)
    then have "\<lceil>2 * (now - ?d) + 1\<rceil> \<le> \<lceil>2 * (now - d) + 1\<rceil> - 1" by linarith
    moreover have "0 < \<lceil>2 * (now - d) + 1\<rceil>" unfolding zero_less_ceiling using True by (simp add: add_nonneg_pos)
    ultimately have "nat \<lceil>2 * (now - ?d) + 1\<rceil> < nat \<lceil>2 * (now - d) + 1\<rceil>" by linarith
    moreover have "0 \<le> ?d" using step less.prems by linarith
    ultimately obtain d' where d': "advance ?d now i = Some d'" "now < d'" "?d \<le> d'"
        "?d \<le> now \<longrightarrow> d' \<le> now + i + 1 / 2"
      using less.hyps by blast
    have "d' \<le> now + i + 1 / 2"
    proof (cases "?d \<le> now")
      case False
      then have "d' = ?d" using d'(1) by (simp add: advance.simps [of ?d])
      then show ?thesis using step True by linarith
    qed (use d'(4) in simp)
    moreover have "d \<le> d'" using step d'(3) by linarith
    ultimately show ?thesis using d' True by (simp add: advance.simps [of d])
  next
    case False
    then show ?thesis by (simp add: advance.simps [of d])
  qed
qed

section \<open>The end\<close>

text \<open>What the loop's calls leave alone.\<close>

definition stop_script :: "(nat \<Rightarrow> bool) \<Rightarrow> nat \<Rightarrow> machine \<Rightarrow> bool" where
  "stop_script f q s \<longleftrightarrow> flag s = f \<and> q \<le> queries s"

definition closed_times :: "nat \<Rightarrow> machine \<Rightarrow> bool" where
  "closed_times c s \<longleftrightarrow> closed (link s) = c"

text \<open>A property of the machine that does not look at the disk, the journal or the number of cycles.\<close>

lemma keeps_cycle:
  assumes "\<And>s w. I (s\<lparr>disk := w\<rparr>) = I s" and "\<And>s j. I (s\<lparr>journal := j\<rparr>) = I s" and "\<And>s n. I (s\<lparr>cycles := n\<rparr>) = I s"
    and post: "\<And>d. keeps I (post_payload rt d)"
  shows "keeps I (run_cycle rt ev)"
proof -
  have disk: "keeps I (on_disk m)" for m :: "'x io"
    using assms(1) by (simp add: keeps_def on_disk_def split: prod.split)
  have log: "keeps I (log_entry x)" for x
    using assms(2) by (simp add: keeps_def log_entry_def modify_def)
  have build: "keeps I (build_event rt ev b)" for b
    using assms(3) by (simp add: keeps_def build_event_def bnd_def andthen_def gets_def modify_def lift_result_def)
  have calls: "keeps I (list_pending rt)" "keeps I (load_record rt n)" "keeps I (ack_record rt n)"
    "keeps I (reject_record rt n)" "keeps I (retain rt)" for n
    unfolding list_pending_def load_record_def ack_record_def reject_record_def retain_def
    by (intro keeps_intros disk log)+
  have "keeps I (enqueue_payload rt d)" for d
    unfolding enqueue_payload_def by (intro keeps_intros disk log calls)
  moreover have "keeps I (replay rt)"
    unfolding replay_def replay_record_def
    by (intro keeps_intros calls; auto split: json.split delivery_kind.split intro!: keeps_intros calls post)
  ultimately show ?thesis
    unfolding run_cycle_def collect_def deliver_or_queue_def
    by (intro keeps_intros build post; auto split: delivery_kind.split intro!: keeps_intros)
qed

lemma keeps_stop_cycle: "keeps (stop_script f q) (run_cycle rt ev)"
proof (rule keeps_cycle)
  show "keeps (stop_script f q) (post_payload rt d)" for d
    by (simp add: post_payload_def keeps_def stop_script_def on_link_def log_entry_def modify_def bnd_def andthen_def
        ret_def split: prod.split sum.split)
qed (simp_all add: stop_script_def)

lemma keeps_closed_send: "keeps (\<lambda>w. closed w = c) (send tr d)"
proof -
  have modify: "keeps (\<lambda>w. closed w = c) (modify f)" if "\<And>w. closed (f w) = closed w" for f
    using that by (simp add: keeps_def modify_def)
  have "keeps (\<lambda>w. closed w = c) (parse_retry_after t)" for t
    unfolding parse_retry_after_def by (intro keeps_intros; auto split: option.split prod.split intro!: keeps_intros)
  then have "keeps (\<lambda>w. closed w = c) (attempt_result k r)" for k r
    unfolding attempt_result_def retry_after_def
    by (auto split: reply.split option.split attr.split simp: Let_def intro!: keeps_intros)
  moreover have "keeps (\<lambda>w. closed w = c) safe_random_value" "keeps (\<lambda>w. closed w = c) (pause t)"
    "keeps (\<lambda>w. closed w = c) (http_post tr d)" for t
    unfolding safe_random_value_def pause_def http_post_def Let_def
    by (intro keeps_intros modify; auto split: option.split pyfloat.split intro!: keeps_intros modify)+
  ultimately have "keeps (\<lambda>w. closed w = c) (send_loop tr d m k)" for m k
    by (induction m arbitrary: k)
      (auto simp: retry_delay_def split: option.split prod.split intro!: keeps_intros)
  then show ?thesis unfolding send_def by (intro keeps_intros)
qed

lemma keeps_closed_cycle: "keeps (closed_times c) (run_cycle rt ev)"
proof (rule keeps_cycle)
  have "keeps (closed_times c) (on_link (send (rt_transport rt) d))" for d
    using keeps_closed_send [of c "rt_transport rt" d]
    by (auto simp: keeps_def closed_times_def on_link_def split: prod.split)
  moreover have "keeps (closed_times c) (log_entry x)" for x
    by (simp add: keeps_def closed_times_def log_entry_def modify_def)
  ultimately show "keeps (closed_times c) (post_payload rt d)" for d
    unfolding post_payload_def by (intro keeps_intros)
qed (simp_all add: closed_times_def)

lemma keeps_closed_waits:
  "keeps (closed_times c) is_set" "keeps (closed_times c) (wait_for t)" "keeps (closed_times c) monotonic"
  by (simp_all add: keeps_def closed_times_def is_set_def wait_for_def monotonic_def modify_def bnd_def andthen_def
      gets_def ret_def)

lemma keeps_closed_loop: "keeps (closed_times c) (run_loop rt fuel)"
proof -
  have "keeps (closed_times c) (heartbeats rt fuel t)" for t
    by (induction fuel arbitrary: t)
      (auto split: option.split intro!: keeps_intros keeps_closed_cycle keeps_closed_waits)
  then show ?thesis
    unfolding run_loop_def by (intro keeps_intros keeps_closed_cycle keeps_closed_waits)
qed

lemma close_run: "on_link close_transport s = (Inr (), s\<lparr>link := (link s)\<lparr>closed := Suc (closed (link s))\<rparr>\<rparr>)"
  by (simp add: on_link_def close_transport_def modify_def)

lemma agent_closes:
  assumes "run_agent rt fuel s = (r, s')"
  shows "closed (link s') = closed (link s) + (case r of Inl e \<Rightarrow> if fatal e then 0 else 1 | Inr _ \<Rightarrow> 1)"
proof -
  obtain q u where u: "run_loop rt fuel s = (q, u)" by fastforce
  have "closed (link u) = closed (link s)"
    using keepsD [OF keeps_closed_loop [of "closed (link s)" rt fuel], of s] u by (simp add: closed_times_def)
  then show ?thesis
    using assms u close_run [of u]
    by (cases q)
      (auto simp: run_agent_def try_else_def suppress_def try_except_def andthen_def bnd_def throw_def ret_def
        split: if_splits)
qed

text \<open>Two continuations that agree wherever the first part can leave the machine.\<close>

lemma bnd_eq:
  assumes "leads I J m" and "I s" and "\<And>x v. J v \<Longrightarrow> f x v = g x v"
  shows "bnd m f s = bnd m g s"
  using assms by (auto simp: bnd_def leads_def split: prod.split sum.split)

lemma leads_queries: "leads (stop_script f q) (stop_script f (Suc q)) is_set"
    "leads (stop_script f q) (stop_script f (Suc q)) (wait_for t)" "leads (stop_script f q) (stop_script f q) monotonic"
    "leads (stop_script f q) (stop_script f q) (run_cycle rt ev)"
  using keeps_stop_cycle
  by (auto simp: leads_keeps leads_def keeps_def stop_script_def is_set_def wait_for_def monotonic_def modify_def
      bnd_def andthen_def gets_def ret_def)

lemma heartbeats_fuel:
  assumes "\<And>k. N \<le> k \<Longrightarrow> f k"
  shows "stop_script f q s \<Longrightarrow> N \<le> q + fuel \<Longrightarrow> heartbeats rt (Suc fuel) t s = heartbeats rt (Suc (fuel + m)) t s"
proof (induction fuel arbitrary: q s t)
  case 0
  then have "f (queries s)" "flag s = f" using assms by (auto simp: stop_script_def)
  then show ?case
    by (simp add: bnd_def andthen_def monotonic_def wait_for_def is_set_def gets_def modify_def ret_def)
next
  case (Suc fuel)
  show ?case
    unfolding heartbeats.simps(2) [of rt "Suc fuel"] add_Suc heartbeats.simps(2) [of rt "Suc (fuel + m)"]
  proof (rule bnd_eq [OF leads_queries(3) Suc.prems(1)], rule bnd_eq [OF leads_queries(2)], assumption)
    fix stop and v :: machine
    assume v: "stop_script f (Suc q) v"
    have later: "heartbeats rt (Suc fuel) d u = heartbeats rt (Suc (fuel + m)) d u" if "stop_script f (Suc (Suc (Suc q))) u" for u d
      using Suc.IH [OF that] Suc.prems(2) by simp
    show "(if stop then ret () else bnd is_set (\<lambda>stop. if stop then ret () else bnd (run_cycle rt ''heartbeat'') (\<lambda>_.
            bnd is_set (\<lambda>stop. if stop then ret () else bnd monotonic (\<lambda>now.
            case advance t now (of_int (heartbeat_sec (rt_config rt))) of None \<Rightarrow> throw Hang
            | Some d \<Rightarrow> heartbeats rt (Suc fuel) d))))) v =
          (if stop then ret () else bnd is_set (\<lambda>stop. if stop then ret () else bnd (run_cycle rt ''heartbeat'') (\<lambda>_.
            bnd is_set (\<lambda>stop. if stop then ret () else bnd monotonic (\<lambda>now.
            case advance t now (of_int (heartbeat_sec (rt_config rt))) of None \<Rightarrow> throw Hang
            | Some d \<Rightarrow> heartbeats rt (Suc (fuel + m)) d))))) v"
      using v
      by (auto intro!: bnd_eq [OF leads_queries(1)] bnd_eq [OF leads_queries(3)] bnd_eq [OF leads_queries(4)] later
          split: option.split simp del: heartbeats.simps(2))
  qed
qed

section \<open>A healthy cycle\<close>

lemma built_accepted:
  assumes "build_payload h c fresh ev i b n None = Inr d" and "id_value i \<noteq> []"
  shows "field_text d ''event_id'' = fresh" and "fresh \<noteq> [] \<Longrightarrow> validate_payload d = Inr ()"
    and "uuid_ok fresh \<Longrightarrow> valid_payload (JObj d)"
proof -
  obtain t where ev: "event_ok ev" and d: "d = document h i b ev t fresh (fold add_result (batch_results b) (default_sections, []))"
    using built [OF assms(1)] by (metis option.simps(4))
  note fields = document_header [where acc = "fold add_result (batch_results b) (default_sections, [])" and h = h
      and ident = i and b = b and event = ev and t = t and u = fresh]
  note id = fields(1) [OF sections_keys]
  have "ev \<noteq> []" using ev by (auto simp: event_ok_def)
  then show "field_text d ''event_id'' = fresh" "fresh \<noteq> [] \<Longrightarrow> validate_payload d = Inr ()"
    "uuid_ok fresh \<Longrightarrow> valid_payload (JObj d)"
    using assms(2) id fields(2-4)
    by (simp_all add: d validate_payload_def required_header_fields_def field_text_def valid_event_id_def)
qed

lemma run_on_disk: "m (disk s) = (r, w) \<Longrightarrow> on_disk m s = (r, s\<lparr>disk := w\<rparr>)"
  by (simp add: on_disk_def)

lemma run_on_link: "m (link s) = (r, w) \<Longrightarrow> on_link m s = (r, s\<lparr>link := w\<rparr>)"
  by (simp add: on_link_def)

lemma run_log: "log_entry x s = (Inr (), s\<lparr>journal := journal s @ [x]\<rparr>)"
  by (simp add: log_entry_def modify_def)

lemma run_retention_empty:
  assumes "at_rest w" and "records w = []" and "0 \<le> clock w - max_age_sec sp * 1000000"
  shows "enforce_retention sp NowNone w = (Inr (0, 0), prepared w)"
proof -
  let ?v = "prepared w"
  have "faults ?v = []" "records ?v = []" using assms(2) at_rest_ok [OF assms(1)] by simp_all
  then have "evict_records sp c ?v = (Inr (0, 0), ?v)" for c
    by (simp add: evict_records_def bnd_def run_pending_paths evict_expired_def total_size_def evict_oldest_def
        ret_def when_m_def andthen_def)
  moreover have "clock ?v = clock w" by (simp add: prepared_def)
  ultimately show ?thesis
    using assms(3)
    by (simp add: enforce_retention_def andthen_run run_prepare [OF assms(1)] bnd_def timestamp_def gets_def
        retention_cutoff_def ret_def Let_def)
qed

lemma prepared_twice [simp]: "prepared (prepared w) = prepared w"
  by (simp add: prepared_def)

lemma run_replay_empty:
  assumes "at_rest (disk s)" and "records (disk s) = []"
    and "0 \<le> clock (disk s) - max_age_sec (rt_spool rt) * 1000000"
  shows "replay rt s = (Inr True, s\<lparr>disk := prepared (disk s), journal := journal s @ [Listed [], Retained, Listed []]\<rparr>)"
proof -
  let ?v = "prepared (disk s)"
  have rest: "at_rest ?v" and none: "records ?v = []" and time: "0 \<le> clock ?v - max_age_sec (rt_spool rt) * 1000000"
    using assms(2,3) at_rest_prepared [OF assms(1)] by (simp, simp, simp add: prepared_def)
  have list: "list_pending rt u = (Inr [], u\<lparr>disk := prepared (disk u), journal := journal u @ [Listed []]\<rparr>)"
    if "at_rest (disk u)" "records (disk u) = []" for u
    using that run_pending [of "disk u" "rt_spool rt"]
    by (simp add: list_pending_def bnd_def andthen_def on_disk_def run_log ret_def)
  show ?thesis
    using list [OF assms(1,2)] rest none
    by (simp add: replay_def bnd_def andthen_def try_finally_def retain_def run_log on_disk_def
        run_retention_empty [OF rest none time] list ret_def)
qed

lemma run_send_accepted:
  assumes "validate_payload d = Inr ()" and "0 < tr_attempts tr" and "accepted_answer (answer w (length (posts w)))"
  shows "\<exists>res v. send tr d w = (Inr res, v) \<and> dr_kind res = Success \<and> length (posts v) = Suc (length (posts w))"
proof -
  obtain code h where a: "answer w (length (posts w)) = Response (IntAttr code) h" "200 \<le> code" "code \<le> 299"
    using assms(3) by (auto simp: accepted_answer_def)
  obtain k where "tr_attempts tr = Suc k" using assms(2) gr0_conv_Suc by blast
  then show ?thesis
    using a assms(1)
    by (simp add: send_def andthen_def bnd_def lift_result_def http_post_def gets_def modify_def ret_def
        attempt_result_def Let_def classify_status_def)
qed

section \<open>A healthy cycle\<close>

lemma healthy_cycle:
  assumes "at_rest (disk s)" and "records (disk s) = []"
    and "0 \<le> clock (disk s) - max_age_sec (rt_spool rt) * 1000000"
    and "collect_all (fst (rounds s (cycles s))) (max_collector_workers (rt_config rt))
           (collection_timeout_sec (rt_config rt)) (snd (rounds s (cycles s))) = Inr b"
    and "event_ok ev" and "uuids s (cycles s) \<noteq> []" and "id_value (rt_identity rt) \<noteq> []"
    and "0 < tr_attempts (rt_transport rt)" and "accepted_answer (answer (link s) (length (posts (link s))))"
  shows "\<exists>res s'. run_cycle rt ev s = (Inr res, s') \<and> cr_delivered res \<and> \<not> cr_spooled res \<and>
    cr_event_id res = uuids s (cycles s) \<and> disk s' = prepared (disk s) \<and>
    length (posts (link s')) = Suc (length (posts (link s)))"
proof -
  let ?u = "s\<lparr>cycles := Suc (cycles s)\<rparr>"
  obtain d where d: "build_payload (rt_host rt) (clock (disk s)) (uuids s (cycles s)) ev (rt_identity rt) b NowNone None = Inr d"
    using assms(5) by (auto simp: build_payload_def payload_timestamp_def Let_def)
  note ok = built_accepted(1,2) [OF d assms(7)]
  obtain res v where sent: "send (rt_transport rt) d (link s) = (Inr res, v)" "dr_kind res = Success"
    "length (posts v) = Suc (length (posts (link s)))"
    using run_send_accepted [OF ok(2) [OF assms(6)] assms(8,9)] by blast
  have "collect rt s = (Inr b, s)"
    using assms(4) by (cases "rounds s (cycles s)") (simp add: collect_def bnd_def gets_def lift_result_def)
  moreover have "build_event rt ev b s = (Inr d, ?u)"
    by (simp add: build_event_def bnd_def gets_def andthen_def modify_def lift_result_def d)
  moreover have "replay rt ?u = (Inr True, ?u\<lparr>disk := prepared (disk s), journal := journal s @ [Listed [], Retained, Listed []]\<rparr>)"
    using run_replay_empty [of ?u rt] assms(1-3) by simp
  ultimately show ?thesis
    by (simp add: run_cycle_def bnd_def deliver_or_queue_def post_payload_def on_link_def sent run_log andthen_def
        ret_def cycle_result_of_def ok(1))
qed

section \<open>Properties\<close>

definition sample_settings :: config where
  "sample_settings =
     \<lparr>collector_uri = Some ''https://c'', api_token = Some ''t'', heartbeat_sec = 60, startup_delay_sec = 0,
      connect_timeout_sec = Fin 5, read_timeout_sec = Fin 10, collection_timeout_sec = Fin 1,
      max_collector_workers = 2, spool_path = ''s'', spool_max_bytes = 1000, spool_max_age_sec = 3600,
      replay_batch_size = 10, ca_bundle = None, process_cmdline_mode = ModeNone, include_network_connections = False,
      include_software = False, include_active_window = False, audit_paths = [], audit_max_files = 10,
      audit_max_file_bytes = 100, screenshot_enabled = False, screenshot_max_bytes = 1000,
      employee_notice_acknowledged = False, log_path = None, log_format = Text, log_level = ''INFO''\<rparr>"

definition sample_runtime :: runtime where
  "sample_runtime =
     \<lparr>rt_config = sample_settings, rt_identity = sample_identity, rt_host = sample_host,
      rt_transport = sample_transport sample_settings, rt_spool = sample_spool\<rparr>"

text \<open>A machine whose spool is empty, whose server accepts, and whose stop event is set at the seventh query.\<close>

definition sample_machine :: machine where
  "sample_machine =
     \<lparr>disk = prepared empty_world, link = sample_net\<lparr>answer := (\<lambda>_. Response (IntAttr 204) None)\<rparr>,
      rounds = (\<lambda>_. ([(''cpu'', sample_run 5)], sample_ticks)), uuids = (\<lambda>_. ''u''), cycles = 0,
      mono = of_nat, mono_reads = 0, flag = (\<lambda>k. 6 \<le> k), queries = 0, waited = [], journal = []\<rparr>"

text \<open>C3: What a cycle does, whatever fails. It replays first: one listing, then at most
  \<open>replay_batch_size\<close> records in the order of the listing, each loaded, sent and then acknowledged,
  rejected, or kept to end the batch; then retention. Only if nothing is left does it send the new
  event; and that event is delivered, or refused by the server, or stored in the spool, exactly as
  its result says. A cycle that raises has acknowledged and rejected nothing without the server's
  answer.\<close>

theorem cycle_accounting:
  "case run_cycle rt ev s of
     (Inr res, s') \<Rightarrow> \<exists>j. journal s' = journal s @ j \<and> cycle_steps rt res j
   | (Inl e, s') \<Rightarrow> \<exists>j. journal s' = journal s @ j \<and> justified j"
  using adds_run_cycle [of rt ev]
  by (auto simp: adds_def wp_def split: prod.splits sum.splits dest: spec [of _ s])

text \<open>C9: In the whole life of the agent, however it ends, no record is acknowledged but directly after
  the server accepted the payload loaded from it, and none is rejected but directly after the server
  refused it for good.\<close>

theorem removals_justified:
  "\<exists>j. journal (snd (run_agent rt fuel s)) = journal s @ j \<and> justified j"
  using adds_justified_run_agent [of rt fuel]
  by (cases "run_agent rt fuel s"; cases "fst (run_agent rt fuel s)")
    (auto simp: adds_justified_def adds_def wp_def dest!: spec [of _ s])



text \<open>C32: The search for the next deadline ends, for every interval of at least one second and every
  reading of the clock below \<open>2\<^sup>5\<^sup>1\<close> seconds, with a deadline in the future; one that had
  passed is replaced by one at most an interval (and a rounding error) away, however many
  heartbeats were missed.\<close>

theorem next_deadline_found:
  assumes "1 \<le> interval" and "interval \<le> 2 ^ 51" and "now \<le> 2 ^ 51" and "0 \<le> deadline"
  shows "\<exists>d. advance deadline now interval = Some d \<and> now < d \<and>
    (if deadline \<le> now then d \<le> now + interval + 1 / 2 else d = deadline)"
  using advance_found [OF assms] by (auto simp: advance.simps [of deadline])

theorem next_deadline_found_witness: "\<exists>d. advance 60 1000000 60 = Some d \<and> 1000000 < d \<and> d \<le> 1000060 + 1 / 2"
  using next_deadline_found [of 60 1000000 60] by simp

text \<open>C33: The agent stops: once the stop event stays set from the \<open>N\<close>-th query on, \<open>N + 1\<close> heartbeats are
  all the loop can run, so that any larger bound on them gives the same run.\<close>

theorem stop_ends_loop:
  assumes "\<And>k. N \<le> k \<Longrightarrow> flag s k" and "N < fuel"
  shows "run_agent rt fuel s = run_agent rt (Suc N) s"
proof -
  obtain m where m: "fuel = Suc (N + m)" using assms(2) less_imp_Suc_add by blast
  have beats: "heartbeats rt fuel t u = heartbeats rt (Suc N) t u" if "stop_script (flag s) q u" for q t u
    using heartbeats_fuel [OF assms(1) that, where fuel = N and rt = rt and t = t and m = m] by (simp add: m del: heartbeats.simps)
  have "run_loop rt fuel s = run_loop rt (Suc N) s"
    unfolding run_loop_def
    by (rule bnd_eq [OF leads_queries(1) [of "flag s" "queries s"]])
      (auto simp: stop_script_def [of "flag s" "queries s" s] simp del: heartbeats.simps intro!: beats
        bnd_eq [OF leads_queries(1)] bnd_eq [OF leads_queries(2)] bnd_eq [OF leads_queries(3)]
        bnd_eq [OF leads_queries(4)])
  then show ?thesis by (simp add: run_agent_def try_else_def)
qed

theorem stop_ends_loop_witness: "run_agent sample_runtime 1000 sample_machine = run_agent sample_runtime 7 sample_machine"
  using stop_ends_loop [of 6 sample_machine 1000 sample_runtime] by (simp add: sample_machine_def)

text \<open>C34: However the agent's loop ends, normally or with an exception, the transport is closed once;
  only a process that is killed or never returns leaves it open.\<close>

theorem transport_closed_once:
  "case run_agent rt fuel s of
     (r, s') \<Rightarrow> closed (link s') = closed (link s) + (case r of Inl e \<Rightarrow> if fatal e then 0 else 1 | Inr _ \<Rightarrow> 1)"
  using agent_closes by (auto split: prod.split)

text \<open>C35: A healthy cycle delivers: with an empty spool at rest, a valid event name and a server that
  accepts, the cycle returns, reports its event as delivered under its own id after a single request,
  and leaves the spool empty.\<close>

theorem cycle_delivers:
  assumes "at_rest (disk s)" and "records (disk s) = []"
    and "0 \<le> clock (disk s) - max_age_sec (rt_spool rt) * 1000000"
    and "collect_all (fst (rounds s (cycles s))) (max_collector_workers (rt_config rt))
           (collection_timeout_sec (rt_config rt)) (snd (rounds s (cycles s))) = Inr b"
    and "event_ok ev" and "uuids s (cycles s) \<noteq> []" and "id_value (rt_identity rt) \<noteq> []"
    and "0 < tr_attempts (rt_transport rt)" and "accepted_answer (answer (link s) (length (posts (link s))))"
  shows "\<exists>res s'. run_cycle rt ev s = (Inr res, s') \<and> cr_delivered res \<and> \<not> cr_spooled res \<and>
    cr_event_id res = uuids s (cycles s) \<and> disk s' = prepared (disk s) \<and>
    length (posts (link s')) = Suc (length (posts (link s)))"
  by (rule healthy_cycle [OF assms])

theorem cycle_delivers_witness:
  "\<exists>res s'. run_cycle sample_runtime ''heartbeat'' sample_machine = (Inr res, s') \<and> cr_delivered res"
proof -
  have "at_rest (prepared empty_world)" "records (prepared empty_world) = []"
    by (simp_all add: at_rest_def records_def, simp_all add: prepared_def empty_world_def sort_records_def)
  moreover have "event_ok ''heartbeat''" by code_simp
  moreover obtain b where "collect_all [(''cpu'', sample_run 5)] 2 (Fin 1) sample_ticks = Inr b"
    using collect_all_total [OF sample_limits, of "[(''cpu'', sample_run 5)]" sample_ticks] by (auto simp: sample_run_def)
  moreover have "0 \<le> clock (prepared empty_world) - max_age_sec sample_spool * 1000000"
    by (simp add: prepared_def empty_world_def sample_spool_def)
  moreover have "accepted_answer (Response (IntAttr 204) None)" by (simp add: accepted_answer_def)
  ultimately have "\<exists>res s'. run_cycle sample_runtime ''heartbeat'' sample_machine = (Inr res, s') \<and> cr_delivered res \<and>
      \<not> cr_spooled res \<and> cr_event_id res = uuids sample_machine (cycles sample_machine) \<and>
      disk s' = prepared (disk sample_machine) \<and> length (posts (link s')) = Suc (length (posts (link sample_machine)))"
    by (intro cycle_delivers [where b = b])
      (simp_all add: sample_machine_def sample_runtime_def sample_settings_def sample_identity_def sample_transport_def)
  then show ?thesis by blast
qed

end
