(* ===== verification/Uuid.thy ===== *)
theory Uuid
  imports Record_Names Numbers "HOL-Library.Word"
begin

text \<open>
  \<open>uuid.UUID\<close> as a value: the number a text denotes, the canonical text of a number, variant and
  version, and the number of sixteen bytes. What \<open>str\<close> prints is read back (\<open>uuid_int_text\<close>).
\<close>

section \<open>Values\<close>

text \<open>\<open>int(digits, 16)\<close> of a text that passed \<open>int16_ok\<close>.\<close>

fun hex_number :: "nat \<Rightarrow> string \<Rightarrow> nat" where
  "hex_number a [] = a"
| "hex_number a (c # s) = hex_number (case hex_val c of None \<Rightarrow> a | Some d \<Rightarrow> 16 * a + d) s"

definition uuid_int :: "string \<Rightarrow> nat option" where
  "uuid_int s =
     (if uuid_ok s then Some (hex_number 0 (drop_0x (drop_sign (strip (uuid_digits s))))) else None)"

primrec hex_fixed :: "nat \<Rightarrow> nat \<Rightarrow> string" where
  "hex_fixed 0 n = []"
| "hex_fixed (Suc k) n = hex_fixed k (n div 16) @ [hex_digit (n mod 16)]"

definition uuid_text :: "nat \<Rightarrow> string" where
  "uuid_text n =
     (let h = hex_fixed 32 n
      in take 8 h @ ''-'' @ take 4 (drop 8 h) @ ''-'' @ take 4 (drop 12 h) @ ''-'' @ take 4 (drop 16 h) @ ''-'' @
         drop 20 h)"

text \<open>\<open>UUID.version\<close>: only a UUID of the variant of RFC 4122 has one.\<close>

definition uuid_version :: "nat \<Rightarrow> nat option" where
  "uuid_version n = (if bit n 63 \<and> \<not> bit n 62 then Some (n div 2 ^ 76 mod 16) else None)"

text \<open>\<open>int.from_bytes(bytes, "big")\<close>.\<close>

definition bytes_number :: "8 word list \<Rightarrow> nat" where
  "bytes_number bs = foldl (\<lambda>a b. a * 256 + unat b) 0 bs"

section \<open>The text of a UUID is read back\<close>

definition low_hex :: "char \<Rightarrow> bool" where
  "low_hex c \<longleftrightarrow> (let n = of_char c :: nat in (48 \<le> n \<and> n \<le> 57) \<or> (97 \<le> n \<and> n \<le> 102))"

lemma hex_digit_cases:
  assumes "n < 16"
  shows "hex_val (hex_digit n) = Some n" and "low_hex (hex_digit n)"
  using assms by (simp_all add: hex_digit_def hex_val.simps low_hex_def Let_def)

lemma low_hex_facts:
  assumes "low_hex c"
  shows "\<not> is_space c" and "hex_val c \<noteq> None" and "char_lower c \<noteq> CHR ''x''"
    and "c \<notin> set ''+-_u{}''"
proof -
  show "\<not> is_space c" "hex_val c \<noteq> None"
    using assms by (auto simp: low_hex_def Let_def is_space_def hex_val.simps)
  show "c \<notin> set ''+-_u{}''"
    using assms by (auto simp: low_hex_def)
  have "char_lower c = c" using assms by (simp add: low_hex_def char_lower_def Let_def) linarith
  moreover have "c \<noteq> CHR ''x''" using assms by (auto simp: low_hex_def)
  ultimately show "char_lower c \<noteq> CHR ''x''" by simp
qed

lemma length_hex_fixed [simp]: "length (hex_fixed k n) = k"
  by (induction k arbitrary: n) simp_all

lemma hex_fixed_chars: "\<forall>c \<in> set (hex_fixed k n). low_hex c"
proof (induction k arbitrary: n)
  case (Suc k)
  then show ?case using hex_digit_cases(2) [of "n mod 16"] by simp
qed simp

lemma hex_number_append: "hex_number a (s @ t) = hex_number (hex_number a s) t"
  by (induction s arbitrary: a) (simp_all split: option.split)

lemma hex_number_fixed: "hex_number a (hex_fixed k n) = a * 16 ^ k + n mod 16 ^ k"
proof (induction k arbitrary: n)
  case (Suc k)
  have "n mod 16 ^ Suc k = 16 * (n div 16 mod 16 ^ k) + n mod 16"
    using mod_mult2_eq [of n 16 "16 ^ k"] by simp
  then show ?case
    using Suc [of "n div 16"] hex_digit_cases(1) [of "n mod 16"] by (simp add: hex_number_append algebra_simps)
qed simp

lemma replace_absent: "a \<notin> set s \<Longrightarrow> replace_all (a # p) r s = s"
  by (induction s) (auto simp: starts_with_def)

lemma replace_hyphens: "replace_all ''-'' [] s = filter (\<lambda>c. c \<noteq> CHR ''-'') s"
  by (induction s) (simp_all add: starts_with_def)

lemma strip_chars_absent: "set s \<inter> set cs = {} \<Longrightarrow> strip_chars cs s = s"
proof -
  assume absent: "set s \<inter> set cs = {}"
  have "dropWhile (\<lambda>c. c \<in> set cs) t = t" if "set t = set s" for t
    using that absent by (cases t) auto
  then show ?thesis by (simp add: strip_chars_def)
qed

lemma plain_hex:
  assumes "\<forall>c \<in> set s. c = CHR ''-'' \<or> low_hex c"
  shows "uuid_digits s = filter (\<lambda>c. c \<noteq> CHR ''-'') s"
proof -
  have absent: "c \<notin> set ''u{}''" if "c \<in> set s" for c
  proof (cases "c = CHR ''-''")
    case False
    then have "c \<notin> set ''+-_u{}''" using that assms low_hex_facts(4) [of c] by blast
    then show ?thesis by simp
  qed simp
  have u: "CHR ''u'' \<notin> set s" using absent [of "CHR ''u''"] by force
  have "set ''{}'' \<subseteq> set ''u{}''" by simp
  then have braces: "set s \<inter> set ''{}'' = {}" using absent by blast
  show ?thesis
    unfolding uuid_digits_def replace_absent [OF u] strip_chars_absent [OF braces] replace_hyphens ..
qed

lemma hex_digits_plain: "s \<noteq> [] \<Longrightarrow> \<forall>c \<in> set s. hex_val c \<noteq> None \<and> c \<noteq> CHR ''_'' \<Longrightarrow> hex_digits s"
  by (induction s rule: hex_digits.induct) auto

lemma hex_text:
  assumes "\<forall>c \<in> set h. low_hex c"
  shows "drop_0x (drop_sign (strip h)) = h" and "h \<noteq> [] \<Longrightarrow> int16_ok h"
proof -
  note facts = low_hex_facts [OF bspec [OF assms]]
  have strip: "strip h = h" by (rule strip_clean) (use facts(1) in blast)
  have sign: "drop_sign h = h" using facts(4) by (cases h) auto
  have zero: "drop_0x h = h"
    using facts(3) by (cases h rule: drop_0x.cases) auto
  show all: "drop_0x (drop_sign (strip h)) = h" by (simp add: strip sign zero)
  have "\<forall>c \<in> set h. hex_val c \<noteq> None \<and> c \<noteq> CHR ''_''"
    using facts(2,4) by auto
  then show "h \<noteq> [] \<Longrightarrow> int16_ok h" unfolding int16_ok_def all by (intro hex_digits_plain)
qed

lemma uuid_text_chars: "\<forall>c \<in> set (uuid_text n). c = CHR ''-'' \<or> low_hex c"
proof -
  have "low_hex c" if "c \<in> set (take i (drop j (hex_fixed 32 n)))" for c i j
    using that hex_fixed_chars [of 32 n] by (meson in_set_dropD in_set_takeD)
  moreover have "low_hex c" if "c \<in> set (take i (hex_fixed 32 n)) \<or> c \<in> set (drop i (hex_fixed 32 n))" for c i
    using that hex_fixed_chars [of 32 n] by (meson in_set_dropD in_set_takeD)
  ultimately show ?thesis
    unfolding uuid_text_def Let_def set_append by (metis UnE empty_iff empty_set set_ConsD)
qed

lemma uuid_text_hex: "filter (\<lambda>c. c \<noteq> CHR ''-'') (uuid_text n) = hex_fixed 32 n"
proof -
  have keep: "filter (\<lambda>c. c \<noteq> CHR ''-'') t = t" if "set t \<subseteq> set (hex_fixed 32 n)" for t
    using that hex_fixed_chars [of 32 n] low_hex_facts(4) by (intro filter_True) fastforce
  have "hex_fixed 32 n = take 8 (hex_fixed 32 n) @ take 4 (drop 8 (hex_fixed 32 n)) @ take 4 (drop 12 (hex_fixed 32 n)) @
      take 4 (drop 16 (hex_fixed 32 n)) @ drop 20 (hex_fixed 32 n)"
    by (simp add: append_assoc [symmetric] take_add [symmetric] del: append_assoc)
  then show ?thesis
    unfolding uuid_text_def Let_def filter_append
    by (simp add: keep [of "take i (drop j (hex_fixed 32 n))" for i j] keep set_drop_subset set_take_subset
        order.trans [OF set_take_subset set_drop_subset])
qed

lemma uuid_digits_text: "uuid_digits (uuid_text n) = hex_fixed 32 n"
  unfolding plain_hex [OF uuid_text_chars] by (rule uuid_text_hex)

lemma uuid_ok_text: "uuid_ok (uuid_text n)"
proof -
  have "hex_fixed 32 n \<noteq> []" using length_hex_fixed [of 32 n] by force
  then show ?thesis
    unfolding uuid_ok_def uuid_digits_text using hex_text(2) [OF hex_fixed_chars] by simp
qed

lemma uuid_int_text: "n < 2 ^ 128 \<Longrightarrow> uuid_int (uuid_text n) = Some n"
  using hex_number_fixed [of 0 32 n]
  by (simp add: uuid_int_def uuid_ok_text uuid_digits_text hex_text(1) [OF hex_fixed_chars])

lemma length_uuid_text [simp]: "length (uuid_text n) = 36"
  by (simp add: uuid_text_def Let_def)

text \<open>A text cut short is no UUID, and no character of one is white space.\<close>

lemma uuid_text_no_space: "c \<in> set (uuid_text n) \<Longrightarrow> \<not> is_space c"
proof -
  assume "c \<in> set (uuid_text n)"
  from bspec [OF uuid_text_chars this] show "\<not> is_space c"
  proof
    assume "c = CHR ''-''"
    then show ?thesis by (simp add: is_space_def)
  qed (rule low_hex_facts(1))
qed

lemma uuid_text_cut:
  assumes "k < 36"
  shows "uuid_int (take k (uuid_text n)) = None"
proof -
  let ?t = "uuid_text n" and ?hex = "\<lambda>c. c \<noteq> CHR ''-''"
  have "hex_fixed 32 n = hex_fixed 31 (n div 16) @ [hex_digit (n mod 16)]"
    using hex_fixed.simps(2) [of 31 n] by simp
  then have "?t = butlast ?t @ [hex_digit (n mod 16)]"
    by (simp add: uuid_text_def Let_def butlast_append)
  then have "last ?t = hex_digit (n mod 16)" by (metis last_snoc)
  moreover have "last ?t \<in> set (drop k ?t)"
    using last_in_set [of "drop k ?t"] last_drop [of k ?t] assms by simp
  moreover have "?hex (hex_digit (n mod 16))"
    using low_hex_facts(4) [OF hex_digit_cases(2) [of "n mod 16"]] by force
  ultimately have some: "filter ?hex (drop k ?t) \<noteq> []" unfolding filter_empty_conv by metis
  have "length (filter ?hex (take k ?t)) + length (filter ?hex (drop k ?t)) = 32"
    using arg_cong [OF uuid_text_hex [of n], of length]
    by (metis append_take_drop_id filter_append length_append length_hex_fixed)
  then have "length (filter ?hex (take k ?t)) < 32" using some by (cases "filter ?hex (drop k ?t)") simp_all
  moreover have "uuid_digits (take k ?t) = filter ?hex (take k ?t)"
    using uuid_text_chars by (intro plain_hex) (meson in_set_takeD)
  ultimately show ?thesis by (simp add: uuid_int_def uuid_ok_def)
qed

section \<open>The number of sixteen bytes\<close>

lemma bytes_number_snoc [simp]: "bytes_number (bs @ [b]) = bytes_number bs * 256 + unat b"
  by (simp add: bytes_number_def)

lemma bytes_number_append: "bytes_number (bs @ cs) = bytes_number bs * 256 ^ length cs + bytes_number cs"
proof (induction cs rule: rev_induct)
  case (snoc c cs)
  then show ?case using bytes_number_snoc [of "bs @ cs" c] by (simp add: algebra_simps)
qed (simp add: bytes_number_def)

lemma unat_byte: "unat (b :: 8 word) < 256"
  using unsigned_less [of b, where ?'a = nat] by simp

lemma bytes_number_less: "bytes_number bs < 256 ^ length bs"
proof (induction bs rule: rev_induct)
  case (snoc b bs)
  then show ?case using unat_byte [of b] by simp
qed (simp add: bytes_number_def)

lemma bytes_number_digit:
  assumes "i < length bs"
  shows "bytes_number bs div 256 ^ (length bs - Suc i) mod 256 = unat (bs ! i)"
proof -
  have split: "bs = (take i bs @ [bs ! i]) @ drop (Suc i) bs" using assms by (simp add: id_take_nth_drop [symmetric])
  have "bytes_number bs = (bytes_number (take i bs) * 256 + unat (bs ! i)) * 256 ^ (length bs - Suc i) + bytes_number (drop (Suc i) bs)"
    using arg_cong [OF split, of bytes_number] by (simp only: bytes_number_append length_drop) (simp add: bytes_number_def)
  moreover have "bytes_number (drop (Suc i) bs) < 256 ^ (length bs - Suc i)"
    using bytes_number_less [of "drop (Suc i) bs"] by simp
  ultimately show ?thesis using unat_byte [of "bs ! i"] by simp
qed

lemma bytes_number_inj:
  assumes "length bs = length cs" and "bytes_number bs = bytes_number cs"
  shows "bs = cs"
proof (rule nth_equalityI [OF assms(1)])
  fix i
  assume "i < length bs"
  then have "unat (bs ! i) = unat (cs ! i)"
    using bytes_number_digit [of i bs] bytes_number_digit [of i cs] assms by simp
  then show "bs ! i = cs ! i" by (simp add: word_unat_eq_iff)
qed

end
