(* ===== verification/Identity.thy ===== *)
theory Identity
  imports Uuid Models
begin

text \<open>
  \<open>identity.py\<close>: the machine's identity. A platform identifier is hashed into a UUID; without one
  a random UUID is kept in the file \<open>machine-id\<close>, which several agents may try to create at once.
  One agent's run of \<open>_load_or_create_fallback\<close> is a function from a phase (the place it has
  reached) and the store to the next phase and store, one system call at a time. Run alone it is the
  function (\<open>load_or_create_fallback\<close>); many of them interleaved, with torn writes and deaths,
  are the step relation (\<open>race\<close>).
\<close>

unbundle bit_operations_syntax

section \<open>Platform identifiers\<close>

text \<open>What \<open>read_text\<close> makes of bytes: UTF-8, universal newlines.\<close>

fun newlines :: "string \<Rightarrow> string" where
  "newlines (c # d # s) =
     (if c = CHR 0x0D then (CHR 0x0A # (if d = CHR 0x0A then newlines s else newlines (d # s)))
      else c # newlines (d # s))"
| "newlines [c] = (if c = CHR 0x0D then [CHR 0x0A] else [c])"
| "newlines [] = []"

definition read_text :: "exn + string \<Rightarrow> exn + string" where
  "read_text r = bind_result r (\<lambda>bs. bind_result (utf8_decode bs) (\<lambda>s. Inr (newlines s)))"

definition nonempty_strip :: "string \<Rightarrow> string option" where
  "nonempty_strip s = (if strip s = [] then None else Some (strip s))"

definition read_linux_machine_id :: "exn + string \<Rightarrow> exn + string option" where
  "read_linux_machine_id file =
     (case read_text file of
        Inl e \<Rightarrow> if is_OSError e then Inr None else Inl e
      | Inr s \<Rightarrow> Inr (nonempty_strip s))"

text \<open>\<open>winreg\<close> is missing, raises, or gives a value that is a text or something else.\<close>

datatype registry = NoRegistry | RegistryRaises exn | RegistryText string | RegistryOther

fun read_windows_machine_id :: "registry \<Rightarrow> exn + string option" where
  "read_windows_machine_id NoRegistry = Inr None"
| "read_windows_machine_id (RegistryRaises e) = (if is_OSError e then Inr None else Inl e)"
| "read_windows_machine_id (RegistryText s) = Inr (nonempty_strip s)"
| "read_windows_machine_id RegistryOther = Inr None"

text \<open>\<open>re.search\<close> of \<open>"IOPlatformUUID"\s*=\s*"([^"]+)"\<close>: the first place it matches.\<close>

definition quoted_key :: string where
  "quoted_key = [CHR 0x22] @ ''IOPlatformUUID'' @ [CHR 0x22]"

definition match_uuid_at :: "string \<Rightarrow> string option" where
  "match_uuid_at s =
     (if \<not> starts_with s quoted_key then None
      else
        (case dropWhile is_space (drop (length quoted_key) s) of
           [] \<Rightarrow> None
         | c # t \<Rightarrow>
             if c \<noteq> CHR ''='' then None
             else
               (case dropWhile is_space t of
                  [] \<Rightarrow> None
                | q # u \<Rightarrow>
                    (let v = takeWhile (\<lambda>x. x \<noteq> CHR 0x22) u
                     in if q = CHR 0x22 \<and> v \<noteq> [] \<and> v \<noteq> u then Some v else None))))"

fun search_uuid :: "string \<Rightarrow> string option" where
  "search_uuid [] = None"
| "search_uuid (c # s) = (case match_uuid_at (c # s) of Some v \<Rightarrow> Some v | None \<Rightarrow> search_uuid s)"

text \<open>\<open>ioreg\<close> could not be run (or timed out), or ended with a code and an output.\<close>

fun read_macos_machine_id :: "(int \<times> string) option \<Rightarrow> string option" where
  "read_macos_machine_id None = None"
| "read_macos_machine_id (Some (code, out)) =
     (if code \<noteq> 0 then None
      else (case search_uuid out of None \<Rightarrow> None | Some v \<Rightarrow> nonempty_strip v))"

text \<open>\<open>sha_bytes\<close> is SHA-256. The prefix of the source ends in a backslash and a zero digit.\<close>

definition id_prefix :: string where
  "id_prefix = ''monitor-agent/v2'' @ [CHR 0x5C, CHR ''0'']"

definition stamp_version :: "8 word list \<Rightarrow> 8 word list" where
  "stamp_version ds =
     (let ds = ds[6 := (ds ! 6 AND 0x0F) OR 0x50] in ds[8 := (ds ! 8 AND 0x3F) OR 0x80])"

definition hashed_uuid :: "(string \<Rightarrow> 8 word list) \<Rightarrow> string \<Rightarrow> exn + string" where
  "hashed_uuid sha_bytes raw =
     bind_result (utf8_encode raw) (\<lambda>encoded.
     Inr (uuid_text (bytes_number (stamp_version (take 16 (sha_bytes (id_prefix @ encoded)))))))"

section \<open>The fallback file\<close>

text \<open>\<open>_read_fallback_file\<close>, of the bytes of the file.\<close>

definition read_fallback :: "string \<Rightarrow> exn + string" where
  "read_fallback bs =
     bind_result (read_text (Inr bs)) (\<lambda>s.
     case uuid_int (strip s) of
       None \<Rightarrow> Inl (ValueError ''badly formed hexadecimal UUID string'')
     | Some n \<Rightarrow>
         if uuid_version n = Some 4 then Inr (uuid_text n)
         else Inl (ValueError ''persisted machine identity is not a UUID4''))"

record store =
  dir_mode :: "nat option"
  id_file :: "(string \<times> nat) option"

text \<open>
  The places in \<open>_load_or_create_fallback\<close> between two system calls: \<open>Waiting k\<close> is the
  \<open>k\<close>-th turn of \<open>_read_concurrent_winner\<close>, \<open>Filling j\<close> the write with \<open>j\<close> bytes done,
  \<open>Narrowing v\<close> the \<open>chmod\<close> before \<open>v\<close> is returned.
\<close>

datatype phase =
    Entering | Owning | Looking | Making | Filling nat | Narrowing string | Waiting nat
  | Answer string | Failing | Dead_Agent

fun final :: "phase \<Rightarrow> bool" where
  "final (Answer v) = True"
| "final Failing = True"
| "final Dead_Agent = True"
| "final _ = False"

definition read_attempts :: nat where
  "read_attempts = 100"

definition owner_only :: nat where
  "owner_only = 384"

fun act :: "string \<Rightarrow> phase \<Rightarrow> store \<Rightarrow> phase \<times> store" where
  "act c Entering st =
     (Owning, st\<lparr>dir_mode := Some (case dir_mode st of None \<Rightarrow> 448 | Some m \<Rightarrow> m)\<rparr>)"
| "act c Owning st = (Looking, st\<lparr>dir_mode := Some 448\<rparr>)"
| "act c Looking st =
     (case id_file st of
        None \<Rightarrow> (Making, st)
      | Some (bs, _) \<Rightarrow> (case read_fallback bs of Inr v \<Rightarrow> (Narrowing v, st) | Inl _ \<Rightarrow> (Waiting 0, st)))"
| "act c Making st =
     (case id_file st of
        None \<Rightarrow> (Filling 0, st\<lparr>id_file := Some ([], owner_only)\<rparr>)
      | Some _ \<Rightarrow> (Waiting 0, st))"
| "act c (Filling j) st =
     (Narrowing c, st\<lparr>id_file := map_option (\<lambda>(_, m). (c, m)) (id_file st)\<rparr>)"
| "act c (Narrowing v) st = (Answer v, st\<lparr>id_file := map_option (\<lambda>(bs, _). (bs, owner_only)) (id_file st)\<rparr>)"
| "act c (Waiting k) st =
     (if read_attempts \<le> k then (Failing, st)
      else
        (case id_file st of
           None \<Rightarrow> (Waiting (Suc k), st)
         | Some (bs, _) \<Rightarrow>
             (case read_fallback bs of Inr v \<Rightarrow> (Narrowing v, st) | Inl _ \<Rightarrow> (Waiting (Suc k), st))))"
| "act c ph st = (ph, st)"

text \<open>The calls an agent has left, at most.\<close>

fun calls_left :: "phase \<Rightarrow> nat" where
  "calls_left Entering = 107"
| "calls_left Owning = 106"
| "calls_left Looking = 105"
| "calls_left Making = 104"
| "calls_left (Waiting k) = 3 + (read_attempts - k)"
| "calls_left (Filling j) = 2"
| "calls_left (Narrowing v) = 1"
| "calls_left _ = 0"

lemma act_decreases: "\<not> final ph \<Longrightarrow> calls_left (fst (act c ph st)) < calls_left ph"
  by (cases ph) (auto simp: read_attempts_def split: option.split sum.split)

function alone :: "string \<Rightarrow> phase \<Rightarrow> store \<Rightarrow> phase \<times> store" where
  "alone c ph st = (if final ph then (ph, st) else alone c (fst (act c ph st)) (snd (act c ph st)))"
  by pat_completeness auto
termination
  by (relation "measure (\<lambda>(c, ph, st). calls_left ph)") (simp_all add: act_decreases case_prod_beta)

declare alone.simps [simp del]

definition load_or_create_fallback :: "string \<Rightarrow> store \<Rightarrow> (exn + string) \<times> store" where
  "load_or_create_fallback c st =
     (case alone c Entering st of
        (Answer v, st') \<Rightarrow> (Inr v, st')
      | (_, st') \<Rightarrow> (Inl (RuntimeError ''concurrent machine identity creation did not complete''), st'))"

section \<open>The identity\<close>

record platform_ids =
  machine_id_file :: "exn + string"
  machine_guid :: registry
  ioreg_output :: "(int \<times> string) option"

definition platform_identifier :: "platform_ids \<Rightarrow> string \<Rightarrow> exn + (string \<times> string) option" where
  "platform_identifier p os =
     (if os = ''linux'' then
        bind_result (read_linux_machine_id (machine_id_file p)) (\<lambda>v. Inr (map_option (\<lambda>s. (s, ''linux-machine-id'')) v))
      else if os = ''win32'' then
        bind_result (read_windows_machine_id (machine_guid p)) (\<lambda>v. Inr (map_option (\<lambda>s. (s, ''windows-machine-guid'')) v))
      else if os = ''darwin'' then
        Inr (map_option (\<lambda>s. (s, ''macos-platform-uuid'')) (read_macos_machine_id (ioreg_output p)))
      else Inr None)"

definition resolve_machine_identity ::
  "(string \<Rightarrow> 8 word list) \<Rightarrow> platform_ids \<Rightarrow> string \<Rightarrow> string \<Rightarrow> store \<Rightarrow> (exn + identity) \<times> store" where
  "resolve_machine_identity sha_bytes p os c st =
     (case platform_identifier p os of
        Inl e \<Rightarrow> (Inl e, st)
      | Inr (Some (raw, source)) \<Rightarrow>
          (bind_result (hashed_uuid sha_bytes raw) (\<lambda>u. Inr \<lparr>id_value = u, id_source = source\<rparr>), st)
      | Inr None \<Rightarrow>
          (case load_or_create_fallback c st of
             (r, st') \<Rightarrow> (bind_result r (\<lambda>v. Inr \<lparr>id_value = v, id_source = ''persisted-random''\<rparr>), st')))"

section \<open>Agents racing for the file\<close>

record agents =
  phases :: "nat \<Rightarrow> phase"
  shared :: store

text \<open>
  A step of the race: an agent's next system call; a write cut in pieces, another agent looking in
  between; an agent that dies (or raises) wherever it is.
\<close>

inductive race :: "(nat \<Rightarrow> string) \<Rightarrow> agents \<Rightarrow> agents \<Rightarrow> bool" for cand where
  calls: "\<not> final (phases s i) \<Longrightarrow> act (cand i) (phases s i) (shared s) = (ph, st) \<Longrightarrow>
    race cand s (s\<lparr>phases := (phases s)(i := ph), shared := st\<rparr>)"
| tears: "phases s i = Filling j \<Longrightarrow> j < k \<Longrightarrow> k < length (cand i) \<Longrightarrow>
    race cand s (s\<lparr>phases := (phases s)(i := Filling k),
      shared := (shared s)\<lparr>id_file := map_option (\<lambda>(_, m). (take k (cand i), m)) (id_file (shared s))\<rparr>\<rparr>)"
| dies: "\<not> final (phases s i) \<Longrightarrow> race cand s (s\<lparr>phases := (phases s)(i := Dead_Agent)\<rparr>)"

inductive races :: "(nat \<Rightarrow> string) \<Rightarrow> agents \<Rightarrow> agents \<Rightarrow> bool" for cand where
  start: "races cand s s"
| further: "races cand s t \<Longrightarrow> race cand t u \<Longrightarrow> races cand s u"

section \<open>The hashed UUID\<close>

lemma version_bits:
  fixes b :: "8 word"
  shows "unat ((b AND 0x0F) OR 0x50) div 16 = 5"
    and "bit (unat ((b AND 0x3F) OR 0x80)) 7" and "\<not> bit (unat ((b AND 0x3F) OR 0x80)) 6"
proof -
  have "b AND 0x0F = take_bit 4 b" "b AND 0x3F = take_bit 6 b"
    by (simp_all add: take_bit_eq_mask mask_eq_exp_minus_1)
  then show "unat ((b AND 0x0F) OR 0x50) div 16 = 5"
    "bit (unat ((b AND 0x3F) OR 0x80)) 7" "\<not> bit (unat ((b AND 0x3F) OR 0x80)) 6"
    by (simp_all add: unsigned_or_eq unsigned_and_eq unsigned_take_bit_eq bit_simps drop_bit_take_bit
        flip: drop_bit_eq_div [of 4, simplified])
qed

lemma bytes_number_bit:
  assumes "length bs = 16" and "i < 16" and "r < 8"
  shows "bit (bytes_number bs) (8 * (15 - i) + r) = bit (unat (bs ! i)) r"
proof -
  have "unat (bs ! i) = take_bit 8 (drop_bit (8 * (15 - i)) (bytes_number bs))"
    using bytes_number_digit [of i bs] assms by (simp add: take_bit_eq_mod drop_bit_eq_div power_mult)
  then show ?thesis using assms(3) by (simp add: bit_take_bit_iff bit_drop_bit_eq)
qed

lemma nibble: "(x :: nat) mod 256 div 16 = x div 16 mod 16"
  using mod_mult2_eq [of x 16 16] by simp

lemma stamped_version:
  assumes "length ds = 16"
  shows "uuid_version (bytes_number (stamp_version ds)) = Some 5"
proof -
  let ?bs = "stamp_version ds" and ?n = "bytes_number (stamp_version ds)"
  have len: "length ?bs = 16" using assms by (simp add: stamp_version_def Let_def)
  have bytes: "?bs ! 6 = (ds ! 6 AND 0x0F) OR 0x50" "?bs ! 8 = (ds ! 8 AND 0x3F) OR 0x80"
    using assms by (simp_all add: stamp_version_def Let_def)
  have "?n div 256 ^ 9 mod 256 = unat (?bs ! 6)" using bytes_number_digit [of 6 ?bs] len by simp
  then have "?n div 256 ^ 9 mod 256 div 16 = 5" unfolding bytes by (simp only: version_bits(1))
  moreover have "?n div 256 ^ 9 mod 256 div 16 = ?n div 256 ^ 9 div 16 mod 16"
    by (rule nibble)
  moreover have "?n div 256 ^ 9 div 16 = ?n div 2 ^ 76" by (simp add: div_mult2_eq [symmetric])
  ultimately have "?n div 2 ^ 76 mod 16 = 5" by metis
  moreover have "bit ?n 63" "\<not> bit ?n 62"
    using bytes_number_bit [OF len, of 8 7] bytes_number_bit [OF len, of 8 6] version_bits(2,3) [of "ds ! 8"]
    by (simp_all add: bytes(2))
  ultimately show ?thesis by (simp add: uuid_version_def)
qed

section \<open>What a reader sees\<close>

lemma read_fallback_text:
  assumes "n < 2 ^ 128" and "uuid_version n = Some 4"
  shows "read_fallback (uuid_text n) = Inr (uuid_text n)"
    and "k < 36 \<Longrightarrow> \<exists>e. read_fallback (take k (uuid_text n)) = Inl e"
proof -
  have ascii: "utf8_scan b s" if "\<forall>c \<in> set s. (of_char c :: nat) < 128" for b s
    using that by (induction s) simp_all
  have newlines: "newlines s = s" if "\<forall>c \<in> set s. \<not> is_space c" for s
    using that by (induction s rule: newlines.induct) (auto simp: is_space_def)
  have chars: "(of_char c :: nat) < 128 \<and> \<not> is_space c" if "c \<in> set (uuid_text n)" for c
    using bspec [OF uuid_text_chars that] uuid_text_no_space [OF that] by (auto simp: low_hex_def Let_def)
  have read: "read_text (Inr (take k (uuid_text n))) = Inr (take k (uuid_text n))"
    and strip: "strip (take k (uuid_text n)) = take k (uuid_text n)" for k
    using chars by (auto simp: read_text_def utf8_decode_def intro!: ascii newlines strip_clean dest!: in_set_takeD)
  show "read_fallback (uuid_text n) = Inr (uuid_text n)"
    using read [of 36] strip [of 36] by (simp add: read_fallback_def uuid_int_text [OF assms(1)] assms(2))
  show "k < 36 \<Longrightarrow> \<exists>e. read_fallback (take k (uuid_text n)) = Inl e"
    by (simp add: read_fallback_def read strip uuid_text_cut)
qed

text \<open>The result of reading is always the text of a version-4 UUID.\<close>

definition random_uuid :: "string \<Rightarrow> bool" where
  "random_uuid s \<longleftrightarrow> (\<exists>n. s = uuid_text n \<and> n < 2 ^ 128 \<and> uuid_version n = Some 4)"

lemma hex_number_bound: "hex_number a s < (a + 1) * 16 ^ length s"
proof (induction s arbitrary: a)
  case (Cons c s)
  have digit: "d < 16" if "hex_val c = Some d" for d
    using that by (auto simp: hex_val.simps Let_def split: if_splits)
  show ?case
  proof (cases "hex_val c")
    case None
    have "hex_number a s < (a + 1) * 16 ^ length s" by (rule Cons.IH)
    also have "\<dots> \<le> (a + 1) * 16 ^ length (c # s)" by simp
    finally show ?thesis using None by simp
  next
    case (Some d)
    have "hex_number (16 * a + d) s < (16 * a + d + 1) * 16 ^ length s" by (rule Cons.IH)
    also have "\<dots> \<le> (16 * (a + 1)) * 16 ^ length s" using digit [OF Some] by (intro mult_right_mono) simp_all
    finally show ?thesis using Some by (simp add: algebra_simps)
  qed
qed simp

lemma uuid_int_bound: "uuid_int s = Some n \<Longrightarrow> n < 2 ^ 128"
proof -
  assume n: "uuid_int s = Some n"
  let ?t = "drop_0x (drop_sign (strip (uuid_digits s)))"
  have shrink: "length (drop_underscore t) \<le> length t" "length (drop_sign t) \<le> length t" for t
    by (cases t; simp)+
  have zero: "length (drop_0x t) \<le> length t" for t
    using shrink(1) le_trans by (cases t rule: drop_0x.cases) (auto intro: le_SucI)
  have while: "length (dropWhile P t) \<le> length t" for P and t :: string by (rule length_dropWhile_le)
  have "length (strip t) \<le> length t" for t
    unfolding strip_def using while [of is_space t] while [of is_space "rev (dropWhile is_space t)"]
    by (simp add: le_trans)
  then have "length ?t \<le> length (uuid_digits s)" using zero shrink(2) le_trans by blast
  also have "\<dots> = 32" using n by (simp add: uuid_int_def uuid_ok_def split: if_splits)
  finally have "(16 :: nat) ^ length ?t \<le> 16 ^ 32" by (rule power_increasing) simp
  moreover have "n = hex_number 0 ?t" using n by (simp add: uuid_int_def split: if_splits)
  ultimately show ?thesis using hex_number_bound [of 0 ?t] by simp
qed

lemma read_fallback_random: "read_fallback bs = Inr v \<Longrightarrow> random_uuid v"
  using uuid_int_bound by (auto simp: read_fallback_def random_uuid_def bind_result_Inr split: option.splits if_splits)

section \<open>The race\<close>

definition stored_id :: "store \<Rightarrow> string option" where
  "stored_id st =
     (case id_file st of None \<Rightarrow> None | Some (bs, _) \<Rightarrow> (case read_fallback bs of Inl _ \<Rightarrow> None | Inr v \<Rightarrow> Some v))"

text \<open>
  What holds at every point of a race: an agent that has its answer has the one the file holds; an
  agent that writes has written a strict prefix of its candidate, so that the file is no identity
  yet, and is the only one; and once an agent has answered, the file is its owner's only.
\<close>

fun phase_ok :: "(nat \<Rightarrow> string) \<Rightarrow> store \<Rightarrow> nat \<Rightarrow> phase \<Rightarrow> bool" where
  "phase_ok cand st i (Narrowing v) = (stored_id st = Some v)"
| "phase_ok cand st i (Answer v) =
     (stored_id st = Some v \<and> dir_mode st = Some 448 \<and> map_option snd (id_file st) = Some owner_only)"
| "phase_ok cand st i (Filling j) = (j < 36 \<and> map_option fst (id_file st) = Some (take j (cand i)))"
| "phase_ok cand st i ph = True"

fun past_owning :: "phase \<Rightarrow> bool" where
  "past_owning Entering = False"
| "past_owning Owning = False"
| "past_owning _ = True"

definition agents_ok :: "(nat \<Rightarrow> string) \<Rightarrow> agents \<Rightarrow> bool" where
  "agents_ok cand s \<longleftrightarrow>
     (\<forall>i. phase_ok cand (shared s) i (phases s i)) \<and>
     (\<forall>i j k l. phases s i = Filling j \<and> phases s k = Filling l \<longrightarrow> i = k) \<and>
     (\<forall>i. past_owning (phases s i) \<longrightarrow> phases s i = Dead_Agent \<or> dir_mode (shared s) = Some 448)"

lemma random_uuid_facts:
  assumes "random_uuid c"
  shows "length c = 36" and "read_fallback c = Inr c" and "k < 36 \<Longrightarrow> \<exists>e. read_fallback (take k c) = Inl e"
proof -
  obtain n where n: "c = uuid_text n" "n < 2 ^ 128" "uuid_version n = Some 4" using assms by (auto simp: random_uuid_def)
  show "length c = 36" by (simp add: n(1))
  show "read_fallback c = Inr c" unfolding n(1) by (rule read_fallback_text(1) [OF n(2,3)])
  show "k < 36 \<Longrightarrow> \<exists>e. read_fallback (take k c) = Inl e" unfolding n(1) by (rule read_fallback_text(2) [OF n(2,3)])
qed

lemma prefix_not_stored:
  "random_uuid c \<Longrightarrow> j < 36 \<Longrightarrow> map_option fst (id_file st) = Some (take j c) \<Longrightarrow> stored_id st = None"
  using random_uuid_facts(3) by (fastforce simp: stored_id_def split: option.splits)

text \<open>What one agent does to another's phase: nothing, if it leaves the file's bytes and narrows its mode.\<close>

lemma phase_ok_same:
  assumes "phase_ok cand st i ph" and "map_option fst (id_file st') = map_option fst (id_file st)"
    and "dir_mode st = Some 448 \<Longrightarrow> dir_mode st' = Some 448"
    and "map_option snd (id_file st) = Some owner_only \<Longrightarrow> map_option snd (id_file st') = Some owner_only"
  shows "phase_ok cand st' i ph"
proof -
  have "stored_id st' = stored_id st"
    using assms(2) by (auto simp: stored_id_def split: option.splits prod.splits)
  then show ?thesis using assms by (cases ph) auto
qed

text \<open>Nobody but the writer cares for the file's bytes while they are no identity.\<close>

lemma phase_ok_unread:
  assumes "phase_ok cand st i ph" and "stored_id st = None" and "\<And>j. ph \<noteq> Filling j"
  shows "phase_ok cand st' i ph"
  using assms by (cases ph) auto

lemma agents_ok_update:
  assumes ok: "agents_ok cand s" and others: "\<And>k. k \<noteq> i \<Longrightarrow> phase_ok cand st k (phases s k)"
    and own: "phase_ok cand st i ph" and alone: "\<And>j k l. ph = Filling j \<Longrightarrow> k \<noteq> i \<Longrightarrow> phases s k \<noteq> Filling l"
    and dir: "dir_mode (shared s) = Some 448 \<Longrightarrow> dir_mode st = Some 448"
    and past: "past_owning ph \<Longrightarrow> ph = Dead_Agent \<or> dir_mode st = Some 448"
  shows "agents_ok cand (s\<lparr>phases := (phases s)(i := ph), shared := st\<rparr>)"
  unfolding agents_ok_def
proof (intro conjI allI impI)
  let ?t = "s\<lparr>phases := (phases s)(i := ph), shared := st\<rparr>"
  show "phase_ok cand (shared ?t) k (phases ?t k)" for k using others own by simp
  show "x = y" if "phases ?t x = Filling j \<and> phases ?t y = Filling l" for x j y l
  proof (cases "x = i \<or> y = i")
    case True
    with that alone [of j y l] alone [of l x j] show ?thesis by (auto split: if_splits)
  next
    case False
    then have "phases s x = Filling j \<and> phases s y = Filling l" using that by simp
    with ok show ?thesis unfolding agents_ok_def by blast
  qed
  show "phases ?t k = Dead_Agent \<or> dir_mode (shared ?t) = Some 448" if "past_owning (phases ?t k)" for k
    using that ok dir past unfolding agents_ok_def by (cases "k = i") auto
qed

lemma agents_ok_call:
  assumes ok: "agents_ok cand s" and cand: "random_uuid (cand i)" and busy: "\<not> final (phases s i)"
    and step: "act (cand i) (phases s i) (shared s) = (ph, st)"
  shows "agents_ok cand (s\<lparr>phases := (phases s)(i := ph), shared := st\<rparr>)"
proof -
  have each: "phase_ok cand (shared s) k (phases s k)" for k using ok by (simp add: agents_ok_def)
  have past: "past_owning (phases s i) \<Longrightarrow> dir_mode (shared s) = Some 448"
    using ok busy unfolding agents_ok_def by (metis final.simps(3))
  have same: "phase_ok cand st k (phases s k)"
    if "map_option fst (id_file st) = map_option fst (id_file (shared s))"
      and "dir_mode (shared s) = Some 448 \<Longrightarrow> dir_mode st = Some 448"
      and "map_option snd (id_file (shared s)) = Some owner_only \<Longrightarrow> map_option snd (id_file st) = Some owner_only" for k
    by (rule phase_ok_same [OF each that])
  show ?thesis
  proof (cases "phases s i")
    case Entering
    with step show ?thesis by (intro agents_ok_update [OF ok same]) auto
  next
    case Owning
    with step show ?thesis by (intro agents_ok_update [OF ok same]) auto
  next
    case Looking
    with step past show ?thesis
      by (intro agents_ok_update [OF ok same]) (auto simp: stored_id_def split: option.splits sum.splits prod.splits)
  next
    case (Waiting m)
    with step past show ?thesis
      by (intro agents_ok_update [OF ok same])
        (auto simp: stored_id_def split: option.splits sum.splits prod.splits if_splits)
  next
    case (Narrowing v)
    with step past each [of i] show ?thesis
      by (intro agents_ok_update [OF ok same])
        (auto simp: stored_id_def split: option.splits sum.splits prod.splits)
  next
    case Making
    show ?thesis
    proof (cases "id_file (shared s)")
      case None
      then have "phases s k \<noteq> Filling j" for k j using each [of k] by auto
      moreover have "stored_id (shared s) = None" using None by (simp add: stored_id_def)
      ultimately show ?thesis
        using step Making None past
        by (intro agents_ok_update [OF ok phase_ok_unread [OF each]]) auto
    next
      case (Some f)
      with step Making past show ?thesis by (intro agents_ok_update [OF ok same]) auto
    qed
  next
    case (Filling j)
    then have held: "j < 36" "map_option fst (id_file (shared s)) = Some (take j (cand i))" using each [of i] by simp_all
    have "phases s k \<noteq> Filling l" if "k \<noteq> i" for k l
      using that Filling ok unfolding agents_ok_def by blast
    moreover note prefix_not_stored [OF cand held]
    moreover have "stored_id st = Some (cand i)"
      using step Filling held(2) random_uuid_facts(2) [OF cand] by (auto simp: stored_id_def)
    ultimately show ?thesis
      using step Filling past
      by (intro agents_ok_update [OF ok phase_ok_unread [OF each]]) auto
  qed (use busy in simp_all)
qed

lemma agents_ok_race:
  assumes "race cand s t" and "\<And>i. random_uuid (cand i)" and ok: "agents_ok cand s"
  shows "agents_ok cand t"
  using assms(1)
proof cases
  case (calls i ph st)
  then show ?thesis using agents_ok_call [OF ok assms(2)] by simp
next
  case (tears i j k)
  let ?st = "(shared s)\<lparr>id_file := map_option (\<lambda>(_, m). (take k (cand i), m)) (id_file (shared s))\<rparr>"
  have each: "phase_ok cand (shared s) x (phases s x)" for x using ok by (simp add: agents_ok_def)
  have held: "j < 36" "map_option fst (id_file (shared s)) = Some (take j (cand i))"
    using each [of i] tears(2) by simp_all
  have "phases s x \<noteq> Filling l" if "x \<noteq> i" for x l
    using that tears(2) ok unfolding agents_ok_def by blast
  moreover have "k < 36" using tears(4) random_uuid_facts(1) [OF assms(2)] by simp
  moreover have "dir_mode (shared s) = Some 448" proof -
    have "past_owning (phases s i)" "phases s i \<noteq> Dead_Agent" using tears(2) by simp_all
    then show ?thesis using ok unfolding agents_ok_def by blast
  qed
  ultimately show ?thesis
    unfolding tears(1) using held prefix_not_stored [OF assms(2) held]
    by (intro agents_ok_update [OF ok phase_ok_unread [OF each]]) auto
next
  case (dies i)
  have "agents_ok cand (s\<lparr>phases := (phases s)(i := Dead_Agent), shared := shared s\<rparr>)"
    by (rule agents_ok_update [OF ok]) (use ok in \<open>auto simp: agents_ok_def\<close>)
  then show ?thesis unfolding dies(1) by simp
qed

lemma agents_ok_races:
  assumes "races cand s t" and "\<And>i. random_uuid (cand i)" and "agents_ok cand s"
  shows "agents_ok cand t"
  using assms(1,3) by (induction rule: races.induct) (auto intro: agents_ok_race [OF _ assms(2)])

section \<open>One agent alone\<close>

lemma alone_step: "\<not> final ph \<Longrightarrow> act c ph st = (ph', st') \<Longrightarrow> alone c ph st = alone c ph' st'"
  by (subst alone.simps) simp

lemma alone_final: "final ph \<Longrightarrow> alone c ph st = (ph, st)"
  by (subst alone.simps) simp

lemma alone_narrow:
  "alone c (Narrowing v) st = (Answer v, st\<lparr>id_file := map_option (\<lambda>(bs, _). (bs, owner_only)) (id_file st)\<rparr>)"
  by (subst alone_step [OF _ act.simps(6)]) (simp_all add: alone_final)

text \<open>Nobody repairs a file that is no identity: after the last turn there is no answer.\<close>

lemma alone_waits:
  assumes "id_file st = Some (bs, m)" and "read_fallback bs = Inl e"
  shows "alone c (Waiting k) st = (Failing, st)"
proof (induction "read_attempts - k" arbitrary: k)
  case 0
  then have "act c (Waiting k) st = (Failing, st)" by simp
  from alone_step [OF _ this] show ?case by (simp add: alone_final)
next
  case (Suc n)
  then have "act c (Waiting k) st = (Waiting (Suc k), st)" using assms by simp
  from alone_step [OF _ this] Suc show ?case by simp
qed

lemma alone_enter: "alone c Entering st = alone c Looking (st\<lparr>dir_mode := Some 448\<rparr>)"
  using alone_step [OF _ act.simps(1), of c st] alone_step [OF _ act.simps(2)] by simp

lemma load_or_create_outcome:
  "load_or_create_fallback c st =
     (case id_file st of
        None \<Rightarrow> (Inr c, \<lparr>dir_mode = Some 448, id_file = Some (c, owner_only)\<rparr>)
      | Some (bs, m) \<Rightarrow>
          (case read_fallback bs of
             Inr v \<Rightarrow> (Inr v, \<lparr>dir_mode = Some 448, id_file = Some (bs, owner_only)\<rparr>)
           | Inl _ \<Rightarrow>
               (Inl (RuntimeError ''concurrent machine identity creation did not complete''),
                \<lparr>dir_mode = Some 448, id_file = Some (bs, m)\<rparr>)))"
proof (cases "id_file st")
  case None
  let ?u = "st\<lparr>dir_mode := Some 448\<rparr>"
  have "alone c Looking ?u = alone c Making ?u" by (rule alone_step) (simp_all add: None)
  also have "\<dots> = alone c (Filling 0) (?u\<lparr>id_file := Some ([], owner_only)\<rparr>)"
    by (rule alone_step) (simp_all add: None)
  also have "\<dots> = alone c (Narrowing c) (?u\<lparr>id_file := Some (c, owner_only)\<rparr>)" by (rule alone_step) simp_all
  finally show ?thesis by (simp add: load_or_create_fallback_def alone_enter alone_narrow None)
next
  case (Some f)
  obtain bs m where f: "f = (bs, m)" by fastforce
  let ?u = "st\<lparr>dir_mode := Some 448\<rparr>"
  show ?thesis
  proof (cases "read_fallback bs")
    case (Inr v)
    have "alone c Looking ?u = alone c (Narrowing v) ?u" by (rule alone_step) (simp_all add: Some f Inr)
    then show ?thesis by (simp add: load_or_create_fallback_def alone_enter alone_narrow Some f Inr)
  next
    case (Inl e)
    have "alone c Looking ?u = alone c (Waiting 0) ?u" by (rule alone_step) (simp_all add: Some f Inl)
    then show ?thesis
      using alone_waits [of ?u bs m e] by (simp add: load_or_create_fallback_def alone_enter Some f Inl)
  qed
qed

text \<open>A run alone is one of the races.\<close>

lemma races_alone:
  "races cand s t \<Longrightarrow>
     races cand s (t\<lparr>phases := (phases t)(i := fst (alone (cand i) (phases t i) (shared t))),
                     shared := snd (alone (cand i) (phases t i) (shared t))\<rparr>)"
proof (induction "calls_left (phases t i)" arbitrary: t rule: less_induct)
  case less
  show ?case
  proof (cases "final (phases t i)")
    case True
    then show ?thesis using less.prems by (simp add: alone_final)
  next
    case False
    obtain ph st where step: "act (cand i) (phases t i) (shared t) = (ph, st)" by fastforce
    let ?u = "t\<lparr>phases := (phases t)(i := ph), shared := st\<rparr>"
    have "race cand t ?u" by (rule race.calls) (rule False, rule step)
    with less.prems have "races cand s ?u" by (rule races.further)
    moreover have "calls_left (phases ?u i) < calls_left (phases t i)"
      using act_decreases [OF False, of "cand i" "shared t"] step by simp
    ultimately have "races cand s (?u\<lparr>phases := (phases ?u)(i := fst (alone (cand i) ph st)), shared := snd (alone (cand i) ph st)\<rparr>)"
      using less.hyps [of ?u] by simp
    then show ?thesis using alone_step [OF False step] by simp
  qed
qed

section \<open>Properties\<close>

definition sample_number :: nat where
  "sample_number = 4 * 2 ^ 76 + 2 ^ 63 + 17"

definition sample_start :: agents where
  "sample_start = \<lparr>phases = (\<lambda>_. Entering), shared = \<lparr>dir_mode = None, id_file = None\<rparr>\<rparr>"

lemma sample_random: "random_uuid (uuid_text (sample_number + i mod 2))"
proof -
  have "i mod 2 = 0 \<or> i mod 2 = 1" by auto
  moreover have "bit (4 * 2 ^ 76 + 2 ^ 63 + 17 :: nat) 63" "bit (4 * 2 ^ 76 + 2 ^ 63 + 18 :: nat) 63"
    "\<not> bit (4 * 2 ^ 76 + 2 ^ 63 + 17 :: nat) 62" "\<not> bit (4 * 2 ^ 76 + 2 ^ 63 + 18 :: nat) 62"
    by (simp_all add: bit_iff_odd)
  ultimately have "uuid_version (sample_number + i mod 2) = Some 4" "sample_number + i mod 2 < 2 ^ 128"
    by (auto simp: sample_number_def uuid_version_def)
  then show ?thesis unfolding random_uuid_def by blast
qed

text \<open>C8: Agents that start at the same time agree: however their system calls are interleaved, with
  writes torn and agents dying anywhere, any two that get an identity get the same one, a random
  UUID; and from then on every start gets it too, from a file only its owner can read, and changes
  nothing.\<close>

theorem agents_agree:
  assumes "races cand s t" and "\<And>i. random_uuid (cand i)" and "\<And>i. phases s i = Entering"
    and "phases t i = Answer v" and "phases t j = Answer w"
  shows "v = w \<and> random_uuid v \<and> map_option snd (id_file (shared t)) = Some owner_only \<and>
    load_or_create_fallback c (shared t) = (Inr v, shared t)"
proof -
  have "agents_ok cand s" using assms(3) by (simp add: agents_ok_def)
  then have "agents_ok cand t" by (rule agents_ok_races [OF assms(1,2)])
  then have i: "phase_ok cand (shared t) i (phases t i)" and j: "phase_ok cand (shared t) j (phases t j)"
    by (simp_all add: agents_ok_def)
  then have v: "stored_id (shared t) = Some v" "stored_id (shared t) = Some w" "dir_mode (shared t) = Some 448"
    "map_option snd (id_file (shared t)) = Some owner_only"
    using assms(4,5) by simp_all
  then obtain bs where bs: "id_file (shared t) = Some (bs, owner_only)" "read_fallback bs = Inr v"
    by (auto simp: stored_id_def split: option.splits sum.splits)
  have "load_or_create_fallback c (shared t) = (Inr v, shared t)"
    using v(3) bs by (simp add: load_or_create_outcome)
  then show ?thesis using v bs(2) read_fallback_random by auto
qed

theorem agents_agree_witness:
  "\<exists>t v. races (\<lambda>i. uuid_text (sample_number + i mod 2)) sample_start t \<and> phases t 0 = Answer v \<and>
     phases t (1 :: nat) = Answer v \<and> fst (load_or_create_fallback ''x'' (shared t)) = Inr v"
proof -
  let ?c = "\<lambda>i. uuid_text (sample_number + i mod 2)"
  have turn: "\<exists>v st'. alone (?c i) Entering st = (Answer v, st') \<and> stored_id st' = Some v"
    if given: "id_file st = None \<or> stored_id st \<noteq> None" for i st
  proof -
    have "\<exists>v st'. load_or_create_fallback (?c i) st = (Inr v, st') \<and> stored_id st' = Some v"
    proof (cases "id_file st")
      case None
      then show ?thesis
        using random_uuid_facts(2) [OF sample_random [of i]] by (simp add: load_or_create_outcome stored_id_def)
    next
      case (Some f)
      then obtain bs m v where "id_file st = Some (bs, m)" "read_fallback bs = Inr v"
        using given by (auto simp: stored_id_def split: option.splits sum.splits prod.splits)
      then show ?thesis by (simp add: load_or_create_outcome stored_id_def)
    qed
    then show ?thesis by (auto simp: load_or_create_fallback_def split: prod.splits phase.splits)
  qed
  obtain v st where v: "alone (?c 0) Entering (shared sample_start) = (Answer v, st)" "stored_id st = Some v"
    using turn [of "shared sample_start" 0] by (auto simp: sample_start_def)
  obtain w st' where w: "alone (?c 1) Entering st = (Answer w, st')" using turn [of st 1] v(2) by auto
  let ?t = "sample_start\<lparr>phases := (\<lambda>_. Entering)(0 := Answer v), shared := st\<rparr>"
  let ?u = "?t\<lparr>phases := (phases ?t)(1 := Answer w), shared := st'\<rparr>"
  have "races ?c sample_start ?t"
    using races_alone [OF races.start, of ?c sample_start 0] v(1) by (simp add: sample_start_def)
  from races_alone [OF this, of 1] w have run: "races ?c sample_start ?u" by simp
  moreover have "v = w \<and> random_uuid v \<and> map_option snd (id_file (shared ?u)) = Some owner_only \<and>
      load_or_create_fallback ''x'' (shared ?u) = (Inr v, shared ?u)"
    by (rule agents_agree [OF run sample_random, where i = 0 and j = 1]) (simp_all add: sample_start_def)
  ultimately show ?thesis by (intro exI [of _ ?u] exI [of _ v]) simp
qed

text \<open>C16: What one start does with the file, in each case: it creates a missing one with its
  candidate; it returns the UUID of a valid one and narrows its mode; and a file that is no random
  UUID, such as one left empty by a crash, is never repaired: after a hundred more looks the
  start fails.\<close>

theorem fallback_outcome:
  "load_or_create_fallback c st =
     (case id_file st of
        None \<Rightarrow> (Inr c, \<lparr>dir_mode = Some 448, id_file = Some (c, owner_only)\<rparr>)
      | Some (bs, m) \<Rightarrow>
          (case read_fallback bs of
             Inr v \<Rightarrow> (Inr v, \<lparr>dir_mode = Some 448, id_file = Some (bs, owner_only)\<rparr>)
           | Inl _ \<Rightarrow>
               (Inl (RuntimeError ''concurrent machine identity creation did not complete''),
                \<lparr>dir_mode = Some 448, id_file = Some (bs, m)\<rparr>)))"
  by (rule load_or_create_outcome)

text \<open>A hashed platform identifier is a UUID in canonical form, of version 5 and the variant of
  RFC 4122, and two identifiers get the same one only if their digests agree in the first sixteen
  bytes but for the six bits that version and variant replace.\<close>

theorem hashed_uuid_valid:
  assumes "\<And>x. length (sha x) = 32" and "hashed_uuid sha raw = Inr u"
  shows "(\<exists>n. uuid_int u = Some n \<and> u = uuid_text n \<and> uuid_version n = Some 5) \<and>
    (hashed_uuid sha raw' = Inr u \<longrightarrow>
      stamp_version (take 16 (sha (id_prefix @ raw'))) = stamp_version (take 16 (sha (id_prefix @ raw))))"
proof -
  let ?bs = "\<lambda>r. stamp_version (take 16 (sha (id_prefix @ r)))"
  have len: "length (?bs r) = 16" for r using assms(1) by (simp add: stamp_version_def Let_def)
  have printed: "u = uuid_text (bytes_number (?bs r))" if "hashed_uuid sha r = Inr u" for r
    using that by (auto simp: hashed_uuid_def bind_result_Inr utf8_encode_def split: if_splits)
  have small: "bytes_number (?bs r) < 2 ^ 128" for r
    using bytes_number_less [of "?bs r"] by (simp add: len)
  have number: "uuid_int u = Some (bytes_number (?bs r))" if "hashed_uuid sha r = Inr u" for r
    using uuid_int_text [OF small] printed [OF that] by simp
  have "uuid_version (bytes_number (?bs raw)) = Some 5" by (rule stamped_version) (simp add: assms(1))
  moreover have "?bs raw' = ?bs raw" if "hashed_uuid sha raw' = Inr u"
    using number [OF that] number [OF assms(2)] bytes_number_inj [of "?bs raw'" "?bs raw"] len by simp
  ultimately show ?thesis using number [OF assms(2)] printed [OF assms(2)] by blast
qed

theorem hashed_uuid_valid_witness:
  "\<exists>u. hashed_uuid (\<lambda>_. replicate 32 255) ''abc'' = Inr u \<and> length u = 36 \<and> uuid_int u \<noteq> None"
proof -
  have "utf8_encode ''abc'' = Inr ''abc''" by code_simp
  then obtain u where u: "hashed_uuid (\<lambda>_. replicate 32 255) ''abc'' = Inr u" by (simp add: hashed_uuid_def)
  from hashed_uuid_valid [OF _ this, of "''abc''"]
  have "(\<exists>n. uuid_int u = Some n \<and> u = uuid_text n \<and> uuid_version n = Some 5)" by simp
  then show ?thesis using u by auto
qed

end
