(* ===== verification/Values.thy ===== *)
theory Values
  imports Models Numbers
begin

text \<open>
  Python objects as the collectors get them from \<open>psutil\<close>: a value is a builtin or an object
  with attributes, each of which may raise when it is read. Below, the checks the collectors make on
  them, times, and the text of a float in JSON.
\<close>

section \<open>Objects\<close>

datatype pyval =
    VNone
  | VBool bool
  | VInt int
  | VFloat pyfloat
  | VStr string
  | VBytes string
  | VSeq "pyval list"
  | VObj "(string \<times> (exn + pyval)) list"

definition attribute :: "pyval \<Rightarrow> string \<Rightarrow> exn + pyval" where
  "attribute v name =
     (case v of
        VObj as \<Rightarrow> (case map_of as name of Some r \<Rightarrow> r | None \<Rightarrow> Inl AttributeError)
      | _ \<Rightarrow> Inl AttributeError)"

text \<open>\<open>getattr(v, name, default)\<close>.\<close>

definition attribute_or :: "pyval \<Rightarrow> string \<Rightarrow> pyval \<Rightarrow> exn + pyval" where
  "attribute_or v name dflt =
     (case attribute v name of Inl e \<Rightarrow> if e = AttributeError then Inr dflt else Inl e | Inr x \<Rightarrow> Inr x)"

fun text_of :: "pyval \<Rightarrow> string option" where
  "text_of (VStr s) = Some s"
| "text_of _ = None"

text \<open>A \<open>bool\<close> is an \<open>int\<close> in Python; the checks leave it out.\<close>

fun int_of :: "pyval \<Rightarrow> int option" where
  "int_of (VInt i) = Some i"
| "int_of _ = None"

text \<open>The exceptions of \<open>psutil\<close>, and Python's \<open>PermissionError\<close>.\<close>

definition access_denied :: exn where
  "access_denied = OtherError ''AccessDenied''"

definition no_such_process :: exn where
  "no_such_process = OtherError ''NoSuchProcess''"

definition is_PermissionError :: "exn \<Rightarrow> bool" where
  "is_PermissionError e \<longleftrightarrow> e = OSError (Io EACCES) \<or> e = OSError (Io EPERM)"

text \<open>\<open>float(v)\<close> of an integer or a float.\<close>

definition float_of_int :: "int \<Rightarrow> exn + pyfloat" where
  "float_of_int i = (case round64 (of_int i) of Fin r \<Rightarrow> Inr (Fin r) | _ \<Rightarrow> Inl OverflowError)"

section \<open>The text of a float\<close>

text \<open>
  \<open>repr\<close>: the fewest significant digits that read back as the same float, and among those the
  closest to it. \<open>digits_at k x\<close> are the one or two integers of \<open>k\<close> digits next to \<open>x\<close> in
  units of \<open>10\<^bsup>e\<^esup>\<close>.
\<close>

function exp10_from :: "nat \<Rightarrow> rat \<Rightarrow> int \<Rightarrow> int" where
  "exp10_from 0 x e = e"
| "exp10_from (Suc n) x e =
     (if x < 10 powi e then exp10_from n x (e - 1)
      else if 10 powi (e + 1) \<le> x then exp10_from n x (e + 1) else e)"
  by pat_completeness auto
termination by (relation "measure fst") auto

text \<open>The exponent of the first digit; a float's is between -324 and 308.\<close>

definition exp10 :: "rat \<Rightarrow> int" where
  "exp10 x = exp10_from 330 x 0"

definition closest :: "nat \<Rightarrow> rat \<Rightarrow> (int \<times> int) option" where
  "closest k x =
     (let e = exp10 x - int k + 1; y = x / 10 powi e; lo = \<lfloor>y\<rfloor>; hi = lo + 1;
          back = (\<lambda>d. nearest (of_int d * 10 powi e) = x);
          near = (if y - of_int lo < of_int hi - y \<or> (y - of_int lo = of_int hi - y \<and> even lo) then [lo, hi] else [hi, lo])
      in map_option (\<lambda>d. (d, e)) (List.find back near))"

fun shortest :: "nat \<Rightarrow> nat \<Rightarrow> rat \<Rightarrow> int \<times> int" where
  "shortest k 0 x = (0, 0)"
| "shortest k (Suc n) x = (case closest k x of Some r \<Rightarrow> r | None \<Rightarrow> shortest (Suc k) n x)"

text \<open>Trailing zeros go; then positional notation from \<open>1e-4\<close> to below \<open>1e16\<close>, else an exponent.\<close>

definition drop_zeros :: "string \<Rightarrow> string" where
  "drop_zeros s = rev (dropWhile (\<lambda>c. c = CHR ''0'') (rev s))"

definition float_repr :: "rat \<Rightarrow> string" where
  "float_repr x =
     (if x = 0 then ''0.0''
      else
        (let (d, e) = shortest 1 17 \<bar>x\<bar>; all = dec (nat d); digits = drop_zeros all;
             point = int (length all) + e;
             sign = (if x < 0 then ''-'' else []);
             body =
               (if - 4 < point \<and> point \<le> 0 then ''0.'' @ replicate (nat (- point)) CHR ''0'' @ digits
                else if 0 < point \<and> point \<le> 16 then
                  (if int (length digits) \<le> point
                   then digits @ replicate (nat point - length digits) CHR ''0'' @ ''.0''
                   else take (nat point) digits @ ''.'' @ drop (nat point) digits)
                else
                  take 1 digits @ (if length digits = 1 then [] else ''.'' @ drop 1 digits) @ ''e'' @
                  (if point \<le> 0 then ''-'' else ''+'') @
                  (let n = nat \<bar>point - 1\<bar> in if n < 10 then ''0'' @ dec n else dec n))
         in sign @ body))"

definition json_float :: "pyfloat \<Rightarrow> json" where
  "json_float x = JFloat (case x of Fin r \<Rightarrow> float_repr r | PInf \<Rightarrow> ''inf'' | NInf \<Rightarrow> ''-inf'' | NaN \<Rightarrow> ''nan'')"

section \<open>Times\<close>

text \<open>
  \<open>datetime.fromtimestamp(x, tz=UTC)\<close>: the fraction is multiplied by a million and rounded half to
  even.
\<close>

definition timestamp_us :: "rat \<Rightarrow> int" where
  "timestamp_us x =
     (let whole = (if 0 \<le> x then \<lfloor>x\<rfloor> else \<lceil>x\<rceil>)
      in whole * 1000000 + half_even (nearest ((x - of_int whole) * 1000000)))"

definition timestamp_text :: "rat \<Rightarrow> string option" where
  "timestamp_text x = iso_from_epoch (timestamp_us x)"

lemma timestamp_us_whole: "timestamp_us (of_int k) = k * 1000000"
  by (simp add: timestamp_us_def nearest_def half_even_def)

lemma timestamp_text_zero: "timestamp_text 0 = Some (iso_utc epoch_us)"
  using timestamp_us_whole [of 0]
  by (simp add: timestamp_text_def iso_from_epoch_def valid_instant_def epoch_us_def)

section \<open>The checks\<close>

definition optional_string :: "pyval \<Rightarrow> json" where
  "optional_string v = opt_str (text_of v)"

definition optional_int :: "pyval \<Rightarrow> json" where
  "optional_int v = opt_int (int_of v)"

definition safe_int :: "pyval \<Rightarrow> int" where
  "safe_int v = (case int_of v of None \<Rightarrow> 0 | Some i \<Rightarrow> i)"

definition number_of_value :: "pyval \<Rightarrow> exn + pyfloat option" where
  "number_of_value v =
     (case v of
        VInt i \<Rightarrow> bind_result (float_of_int i) (\<lambda>x. Inr (Some x))
      | VFloat x \<Rightarrow> Inr (Some x)
      | _ \<Rightarrow> Inr None)"

definition safe_float :: "pyval \<Rightarrow> exn + pyfloat" where
  "safe_float v =
     bind_result (number_of_value v) (\<lambda>n.
     Inr (case n of Some x \<Rightarrow> if isfinite x then x else Fin 0 | None \<Rightarrow> Fin 0))"

definition utc_timestamp :: "pyval \<Rightarrow> exn + string option" where
  "utc_timestamp v =
     bind_result (number_of_value v) (\<lambda>n.
     Inr (case n of Some (Fin r) \<Rightarrow> timestamp_text r | _ \<Rightarrow> None))"

definition optional_number :: "pyval \<Rightarrow> json" where
  "optional_number v =
     (case v of
        VInt i \<Rightarrow> JInt i
      | VFloat x \<Rightarrow> if isfinite x then json_float x else JNull
      | _ \<Rightarrow> JNull)"

end
