(* ===== verification/Processes.thy ===== *)
theory Processes
  imports Values Config Record_Names "HOL-Library.Multiset"
begin

text \<open>
  \<open>collectors/processes.py\<close>: the redaction of command lines, the record of a process, and the
  collector: the processes that use the most memory, at most a given number of them.
\<close>

section \<open>Redaction\<close>

definition secret_flags :: "string list" where
  "secret_flags =
     [''--api-key'', ''--apikey'', ''--access-token'', ''--authorization'', ''--password'', ''--secret'', ''--token'']"

definition secret_parts :: "string list" where
  "secret_parts = [''API_KEY'', ''AUTH'', ''PASSWORD'', ''SECRET'', ''TOKEN'']"

text \<open>\<open>p in s\<close>.\<close>

fun contains :: "string \<Rightarrow> string \<Rightarrow> bool" where
  "contains p [] = (p = [])"
| "contains p (c # s) = (starts_with (c # s) p \<or> contains p s)"

definition stars :: string where
  "stars = ''***''"

definition arg_name :: "string \<Rightarrow> string" where
  "arg_name a = fst (partition_at CHR ''='' a)"

definition has_value :: "string \<Rightarrow> bool" where
  "has_value a = fst (snd (partition_at CHR ''='' a))"

definition secret_flag :: "string \<Rightarrow> bool" where
  "secret_flag a \<longleftrightarrow> casefold (arg_name a) \<in> set secret_flags"

definition secret_assignment :: "string \<Rightarrow> bool" where
  "secret_assignment a \<longleftrightarrow> has_value a \<and> list_ex (\<lambda>p. contains p (upper (arg_name a))) secret_parts"

text \<open>One turn of the loop: what is appended, and whether the next argument is masked.\<close>

definition redact_step :: "bool \<Rightarrow> string \<Rightarrow> string list \<times> bool" where
  "redact_step mask_next a =
     (if mask_next \<and> \<not> secret_flag a then ([stars], False)
      else
        (let before = (if mask_next then [stars] else [])
         in if secret_flag a then
              (if has_value a then (before @ [arg_name a @ ''='' @ stars], False) else (before @ [a], True))
            else if secret_assignment a then (before @ [arg_name a @ ''='' @ stars], False)
            else (before @ [a], False)))"

fun redact_from :: "bool \<Rightarrow> string list \<Rightarrow> string list" where
  "redact_from mask_next [] = []"
| "redact_from mask_next (a # as) =
     (case redact_step mask_next a of (out, mask_next') \<Rightarrow> out @ redact_from mask_next' as)"

definition redacted_arguments :: "string list \<Rightarrow> string list" where
  "redacted_arguments = redact_from False"

section \<open>One line\<close>

text \<open>\<open>shlex.quote\<close>, \<open>shlex.join\<close> and \<open>str.join\<close>.\<close>

definition shell_safe :: "char \<Rightarrow> bool" where
  "shell_safe c \<longleftrightarrow> is_alpha c \<or> is_digit c \<or> c \<in> set ''_@%+=:,./-''"

definition shell_quote :: "string \<Rightarrow> string" where
  "shell_quote s =
     (if s = [] then [CHR 0x27, CHR 0x27]
      else if list_all shell_safe s then s
      else [CHR 0x27] @ replace_all [CHR 0x27] [CHR 0x27, CHR 0x22, CHR 0x27, CHR 0x22, CHR 0x27] s @ [CHR 0x27])"

fun join_with :: "string \<Rightarrow> string list \<Rightarrow> string" where
  "join_with sep [] = []"
| "join_with sep [s] = s"
| "join_with sep (s # t # ts) = s @ sep @ join_with sep (t # ts)"

text \<open>\<open>subprocess.list2cmdline\<close>: backslashes are doubled before a quote and before the closing one.\<close>

fun windows_chars :: "nat \<Rightarrow> string \<Rightarrow> string \<times> nat" where
  "windows_chars k [] = ([], k)"
| "windows_chars k (c # s) =
     (if c = CHR 0x5C then windows_chars (Suc k) s
      else if c = CHR 0x22 then
        map_prod (append (replicate (2 * k) CHR 0x5C @ [CHR 0x5C, CHR 0x22])) id (windows_chars 0 s)
      else map_prod (append (replicate k CHR 0x5C @ [c])) id (windows_chars 0 s))"

definition windows_quote :: "string \<Rightarrow> string" where
  "windows_quote a =
     (let need = CHR '' '' \<in> set a \<or> CHR 0x09 \<in> set a \<or> a = []; (body, k) = windows_chars 0 a
      in (if need then [CHR 0x22] else []) @ body @ replicate k CHR 0x5C @
         (if need then replicate k CHR 0x5C @ [CHR 0x22] else []))"

definition join_arguments :: "string list \<Rightarrow> string \<Rightarrow> string" where
  "join_arguments args os =
     (if os = ''win32'' then join_with '' '' (map windows_quote args)
      else replace_all ([CHR 0x27] @ stars @ [CHR 0x27]) stars (join_with '' '' (map shell_quote args)))"

definition redact_command_line :: "string list \<Rightarrow> cmdline_mode \<Rightarrow> string \<Rightarrow> string" where
  "redact_command_line args mode os =
     (case mode of
        ModeNone \<Rightarrow> []
      | ModeRedacted \<Rightarrow> join_arguments (redacted_arguments args) os
      | ModeFull \<Rightarrow> join_arguments args os)"

section \<open>Records\<close>

text \<open>An attribute that was not accessible is \<open>None\<close> here, the sentinel object of the source.\<close>

type_synonym info = "(string \<times> pyval option) list"

definition info_get :: "info \<Rightarrow> string \<Rightarrow> pyval" where
  "info_get info k = (case map_of info k of Some (Some v) \<Rightarrow> v | _ \<Rightarrow> VNone)"

definition command_arguments :: "pyval \<Rightarrow> string list" where
  "command_arguments v =
     (case v of
        VSeq xs \<Rightarrow> if list_all (\<lambda>x. text_of x \<noteq> None) xs then map (\<lambda>x. the (text_of x)) xs else []
      | _ \<Rightarrow> [])"

definition memory_rss_kb :: "pyval \<Rightarrow> exn + int" where
  "memory_rss_kb v = bind_result (attribute_or v ''rss'' (VInt 0)) (\<lambda>r. Inr (max 0 (safe_int r) div 1024))"

definition process_record :: "info \<Rightarrow> cmdline_mode \<Rightarrow> string \<Rightarrow> exn + dict" where
  "process_record info mode os =
     bind_result (safe_float (info_get info ''cpu_percent'')) (\<lambda>cpu.
     bind_result (memory_rss_kb (info_get info ''memory_info'')) (\<lambda>mem.
     bind_result (utc_timestamp (info_get info ''create_time'')) (\<lambda>started.
     Inr
       [(''pid'', JInt (safe_int (info_get info ''pid''))),
        (''name'', optional_string (info_get info ''name'')),
        (''user'', optional_string (info_get info ''username'')),
        (''status'', optional_string (info_get info ''status'')),
        (''cpu_pct'', json_float cpu), (''mem_rss_kb'', JInt mem),
        (''exe'', optional_string (info_get info ''exe'')),
        (''cmdline'', JStr (redact_command_line (command_arguments (info_get info ''cmdline'')) mode os)),
        (''started'', opt_str started)])))"

section \<open>The collector\<close>

record processes_collector =
  pc_mode :: cmdline_mode
  pc_limit :: int

definition new_processes_collector :: "cmdline_mode \<Rightarrow> int \<Rightarrow> exn + processes_collector" where
  "new_processes_collector mode limit =
     bind_result (require (1 \<le> limit) (ValueError ''limit must be at least 1'')) (\<lambda>_.
     Inr \<lparr>pc_mode = mode, pc_limit = limit\<rparr>)"

text \<open>The sort key \<open>(-mem_rss_kb, pid)\<close> as an order of its own: more memory first, then the smaller pid.\<close>

datatype rank = Rank int int

instantiation rank :: linorder
begin

fun less_eq_rank :: "rank \<Rightarrow> rank \<Rightarrow> bool" where
  "less_eq_rank (Rank m p) (Rank m' p') \<longleftrightarrow> m' < m \<or> (m = m' \<and> p \<le> p')"

fun less_rank :: "rank \<Rightarrow> rank \<Rightarrow> bool" where
  "less_rank (Rank m p) (Rank m' p') \<longleftrightarrow> m' < m \<or> (m = m' \<and> p < p')"

instance
proof
  fix x y z :: rank
  show "(x < y) = (x \<le> y \<and> \<not> y \<le> x)" by (cases x; cases y) auto
  show "x \<le> x" by (cases x) simp
  show "x \<le> y \<Longrightarrow> y \<le> z \<Longrightarrow> x \<le> z" by (cases x; cases y; cases z) auto
  show "x \<le> y \<Longrightarrow> y \<le> x \<Longrightarrow> x = y" by (cases x; cases y) auto
  show "x \<le> y \<or> y \<le> x" by (cases x; cases y) auto
qed

end

fun json_int :: "json option \<Rightarrow> int" where
  "json_int (Some (JInt i)) = i"
| "json_int _ = 0"

definition rank_of :: "dict \<Rightarrow> rank" where
  "rank_of d = Rank (json_int (dict_get d ''mem_rss_kb'')) (json_int (dict_get d ''pid''))"

text \<open>
  The loop over the processes: the records so far and whether something was not accessible. An
  entry is what \<open>process.info\<close> gives or raises.
\<close>

definition process_entry :: "cmdline_mode \<Rightarrow> string \<Rightarrow> exn + info \<Rightarrow> exn + dict option" where
  "process_entry mode os entry =
     bind_result entry (\<lambda>info.
     if list_ex (\<lambda>(_, v). v = None) info then Inr None
     else bind_result (process_record info mode os) (\<lambda>r. Inr (Some r)))"

fun gather :: "cmdline_mode \<Rightarrow> string \<Rightarrow> (exn + info) list \<Rightarrow> dict list \<Rightarrow> bool \<Rightarrow> exn + dict list \<times> bool" where
  "gather mode os [] records partial = Inr (records, partial)"
| "gather mode os (x # xs) records partial =
     (case process_entry mode os x of
        Inr (Some r) \<Rightarrow> gather mode os xs (records @ [r]) partial
      | Inr None \<Rightarrow> gather mode os xs records True
      | Inl e \<Rightarrow>
          if e = access_denied then gather mode os xs records True
          else if e = no_such_process then gather mode os xs records partial
          else Inl e)"

definition collect_processes :: "processes_collector \<Rightarrow> string \<Rightarrow> exn + (exn + info) list \<Rightarrow> exn + collector_payload" where
  "collect_processes pc os processes =
     bind_result processes (\<lambda>entries.
     bind_result (gather (pc_mode pc) os entries [] False) (\<lambda>(records, partial).
     let sorted = sort_key rank_of records;
         data = JObj [(''processes'', JList (map JObj (take (nat (pc_limit pc)) sorted)))]
     in Inr (if partial then partial_payload data ''process_access_partial'' ''some processes unavailable''
             else plain_payload data)))"

section \<open>What redaction hides\<close>

text \<open>
  Two command lines that differ only in secrets: in the value of a secret flag, in the argument after
  a secret flag without value, or in the value of an assignment to a secret name. The boolean says
  whether the argument before was a secret flag without value.
\<close>

inductive alike :: "bool \<Rightarrow> string list \<Rightarrow> string list \<Rightarrow> bool" where
  nothing: "alike m [] []"
| masked: "\<not> secret_flag a \<Longrightarrow> \<not> secret_flag b \<Longrightarrow> alike False as bs \<Longrightarrow> alike True (a # as) (b # bs)"
| value_of_flag: "secret_flag a \<Longrightarrow> has_value a \<Longrightarrow> has_value b \<Longrightarrow> arg_name a = arg_name b \<Longrightarrow>
    alike False as bs \<Longrightarrow> alike m (a # as) (b # bs)"
| value_of_name: "secret_assignment a \<Longrightarrow> \<not> secret_flag a \<Longrightarrow> has_value b \<Longrightarrow> arg_name a = arg_name b \<Longrightarrow>
    alike False as bs \<Longrightarrow> alike False (a # as) (b # bs)"
| same: "alike (snd (redact_step m a)) as bs \<Longrightarrow> alike m (a # as) (a # bs)"

lemma secret_of_name:
  "arg_name a = arg_name b \<Longrightarrow> secret_flag a = secret_flag b"
  "arg_name a = arg_name b \<Longrightarrow> has_value a = has_value b \<Longrightarrow> secret_assignment a = secret_assignment b"
  by (simp_all add: secret_flag_def secret_assignment_def)

lemma redact_from_alike: "alike m xs ys \<Longrightarrow> redact_from m xs = redact_from m ys"
proof (induction rule: alike.induct)
  case (value_of_flag a b as bs m)
  moreover have "secret_flag b" using value_of_flag secret_of_name(1) by blast
  ultimately show ?case by (simp add: redact_step_def)
next
  case (value_of_name a b as bs)
  moreover have "\<not> secret_flag b" using value_of_name secret_of_name(1) by blast
  moreover have "has_value a" using value_of_name by (simp add: secret_assignment_def)
  moreover from this have "secret_assignment b" using value_of_name secret_of_name(2) by blast
  ultimately show ?case by (simp add: redact_step_def)
next
  case (same m a as bs)
  then show ?case by (simp add: case_prod_beta)
qed (simp_all add: redact_step_def)

lemma redact_from_plain:
  "list_all (\<lambda>a. \<not> secret_flag a \<and> \<not> secret_assignment a) xs \<Longrightarrow> redact_from False xs = xs"
  by (induction xs) (simp_all add: redact_step_def)

section \<open>What the collector reports\<close>

definition readable :: "cmdline_mode \<Rightarrow> string \<Rightarrow> (exn + info) list \<Rightarrow> dict list" where
  "readable mode os entries =
     List.map_filter (\<lambda>x. case process_entry mode os x of Inr r \<Rightarrow> r | Inl _ \<Rightarrow> None) entries"

definition denied :: "cmdline_mode \<Rightarrow> string \<Rightarrow> exn + info \<Rightarrow> bool" where
  "denied mode os x \<longleftrightarrow> process_entry mode os x \<in> {Inr None, Inl access_denied}"

lemma gather_result:
  "gather mode os xs records partial = Inr (out, p) \<Longrightarrow>
     out = records @ readable mode os xs \<and> p = (partial \<or> list_ex (denied mode os) xs)"
proof (induction xs arbitrary: records partial)
  case (Cons x xs)
  have one: "readable mode os (x # xs) =
      (case process_entry mode os x of Inr (Some r) \<Rightarrow> r # readable mode os xs | _ \<Rightarrow> readable mode os xs)"
    by (simp add: readable_def map_filter_simps split: sum.split option.split)
  show ?case
  proof (cases "process_entry mode os x")
    case (Inl e)
    then show ?thesis
      using Cons one by (auto simp: denied_def access_denied_def no_such_process_def split: if_splits)
  next
    case (Inr r)
    then show ?thesis
    proof (cases r)
      case (Some d)
      then show ?thesis using Cons.IH [of "records @ [d]" partial] Cons.prems one Inr by (simp add: denied_def)
    qed (use Cons.IH [of records True] Cons.prems one in \<open>simp add: denied_def\<close>)
  qed
qed (simp add: readable_def map_filter_simps)

section \<open>Properties\<close>



text \<open>The collector reports the processes with the most memory, in order (the smaller pid first at
  equal memory), at most as many as its limit: no process that could be read and is left out ranks
  before one that is reported. One that ended meanwhile is skipped; one that could not be read makes
  the result partial and costs no other.\<close>

theorem top_processes:
  assumes "collect_processes pc os (Inr entries) = Inr p"
  shows "\<exists>xs rest. cp_data p = JObj [(''processes'', JList (map JObj xs))] \<and>
    mset (xs @ rest) = mset (readable (pc_mode pc) os entries) \<and>
    length xs = min (nat (pc_limit pc)) (length (readable (pc_mode pc) os entries)) \<and>
    sorted (map rank_of (xs @ rest)) \<and>
    cp_status p = (if list_ex (denied (pc_mode pc) os) entries then CPartial else CSuccess)"
proof -
  obtain records partial where g: "gather (pc_mode pc) os entries [] False = Inr (records, partial)"
    using assms by (auto simp: collect_processes_def bind_result_Inr)
  let ?s = "sort_key rank_of records" and ?n = "nat (pc_limit pc)"
  have r: "records = readable (pc_mode pc) os entries" "partial = list_ex (denied (pc_mode pc) os) entries"
    using gather_result [OF g] by simp_all
  have p: "p = (if partial then partial_payload (JObj [(''processes'', JList (map JObj (take ?n ?s)))])
      ''process_access_partial'' ''some processes unavailable''
      else plain_payload (JObj [(''processes'', JList (map JObj (take ?n ?s)))]))"
    using assms by (simp add: collect_processes_def g Let_def)
  show ?thesis
    by (intro exI [of _ "take ?n ?s"] exI [of _ "drop ?n ?s"])
      (simp add: p r partial_payload_def plain_payload_def)
qed

theorem top_processes_witness:
  "\<exists>p xs. collect_processes \<lparr>pc_mode = ModeFull, pc_limit = 1\<rparr> ''linux'' (Inr [Inl access_denied,
       Inr [(''pid'', Some (VInt 7))], Inr [(''pid'', Some (VInt 5))]]) = Inr p \<and>
     cp_status p = CPartial \<and> cp_data p = JObj [(''processes'', JList (map JObj xs))] \<and> length xs = 1"
proof -
  let ?e = "[Inl access_denied, Inr [(''pid'', Some (VInt 7))], Inr [(''pid'', Some (VInt 5))]] :: (exn + info) list"
  have rec: "\<exists>d. process_record [(''pid'', Some (VInt i))] ModeFull ''linux'' = Inr d" for i
    by (simp add: process_record_def info_get_def safe_float_def number_of_value_def memory_rss_kb_def
        attribute_or_def attribute_def utc_timestamp_def)
  obtain d where d: "process_record [(''pid'', Some (VInt 7))] ModeFull ''linux'' = Inr d" using rec by blast
  obtain d' where d': "process_record [(''pid'', Some (VInt 5))] ModeFull ''linux'' = Inr d'" using rec by blast
  have entries: "process_entry ModeFull ''linux'' (Inl access_denied) = Inl access_denied"
    "process_entry ModeFull ''linux'' (Inr [(''pid'', Some (VInt 7))]) = Inr (Some d)"
    "process_entry ModeFull ''linux'' (Inr [(''pid'', Some (VInt 5))]) = Inr (Some d')"
    by (simp_all add: process_entry_def d d')
  then have "\<exists>p. collect_processes \<lparr>pc_mode = ModeFull, pc_limit = 1\<rparr> ''linux'' (Inr ?e) = Inr p"
    by (simp add: collect_processes_def Let_def)
  then obtain p where p: "collect_processes \<lparr>pc_mode = ModeFull, pc_limit = 1\<rparr> ''linux'' (Inr ?e) = Inr p" by blast
  have "length (readable ModeFull ''linux'' ?e) = 2" "list_ex (denied ModeFull ''linux'') ?e"
    by (simp_all add: readable_def map_filter_simps entries denied_def)
  with top_processes [OF p] p show ?thesis by auto
qed

end
