(* ===== verification/File_Audit.thy ===== *)
theory File_Audit
  imports Values Config
begin

text \<open>
  \<open>collectors/file_audit.py\<close>: the digests of the files under the audited paths. The file system is
  a tree: files with what \<open>stat\<close> and reading give (or raise), symbolic links, directories with
  what listing them gives (or raises), and other nodes, which a reader may have to wait for for ever
  (a named pipe without writer). \<open>sha\<close> is SHA-256 in hexadecimal.
\<close>

section \<open>The tree\<close>

record leaf =
  leaf_stat :: "exn + int \<times> pyfloat"
  leaf_data :: "exn + string"

datatype node =
    File leaf
  | Link bool
  | Folder "exn + (string \<times> node) list"
  | Special leaf

text \<open>\<open>Link b\<close> leads to a directory or not; \<open>os.walk\<close> puts links to directories among the directories.\<close>

fun is_link :: "node \<Rightarrow> bool" where
  "is_link (Link _) = True"
| "is_link _ = False"

fun listed_as_folder :: "node \<Rightarrow> bool" where
  "listed_as_folder (Folder _) = True"
| "listed_as_folder (Link b) = b"
| "listed_as_folder _ = False"

definition join_path :: "string \<Rightarrow> string \<Rightarrow> string" where
  "join_path p name = (if ends_with p ''/'' then p @ name else p @ ''/'' @ name)"

text \<open>
  \<open>os.walk\<close> from the top down: the files of a directory by name, then its directories by name. An
  error of a listing ends the walk. \<open>Inl\<close> is an exception raised at that place of the iteration.
\<close>

type_synonym found = "exn + string \<times> node"

definition by_name :: "(string \<times> 'a) list \<Rightarrow> (string \<times> 'a) list" where
  "by_name = sort_key fst"

text \<open>Nothing comes after an exception.\<close>

fun cut_at_error :: "found list \<Rightarrow> found list" where
  "cut_at_error [] = []"
| "cut_at_error (Inl e # xs) = [Inl e]"
| "cut_at_error (Inr x # xs) = Inr x # cut_at_error xs"

function walk :: "string \<Rightarrow> node \<Rightarrow> found list" where
  "walk p (Folder (Inl e)) = [Inl e]"
| "walk p (Folder (Inr entries)) =
     map (\<lambda>(n, x). Inr (join_path p n, x))
       (by_name (filter (\<lambda>(n, x). \<not> listed_as_folder x \<and> \<not> is_link x) entries)) @
     concat (map (\<lambda>(n, x). walk (join_path p n) x)
       (by_name (filter (\<lambda>(n, x). listed_as_folder x \<and> \<not> is_link x) entries)))"
| "walk p (File l) = []"
| "walk p (Link b) = []"
| "walk p (Special l) = []"
  by pat_completeness auto
termination
proof (relation "measure (\<lambda>(p, x). size x)")
  fix p entries and z :: "string \<times> node" and n x
  assume z: "z \<in> set (by_name (filter (\<lambda>(n, x). listed_as_folder x \<and> \<not> is_link x) entries))" "(n, x) = z"
  then have "z \<in> set entries" by (simp add: by_name_def)
  then have "size x < size_list (\<lambda>x. Suc (size (snd x))) entries"
    using z(2) size_list_estimation [of z entries "size x" "\<lambda>x. Suc (size (snd x))"] by (cases z) auto
  then show "((join_path p n, x), (p, Folder (Inr entries))) \<in> measure (\<lambda>(p, x). size x)"
    by (simp add: size_prod_simp)
qed simp

definition iter_regular_files :: "string \<Rightarrow> node \<Rightarrow> found list" where
  "iter_regular_files p x =
     (case x of
        Link _ \<Rightarrow> []
      | File l \<Rightarrow> [Inr (p, x)]
      | Folder _ \<Rightarrow> cut_at_error (walk p x)
      | Special _ \<Rightarrow> [])"

section \<open>Digests\<close>

definition audit_chunk :: nat where
  "audit_chunk = 65536"

text \<open>The loop over the chunks: the bytes hashed so far, or \<open>None\<close> as soon as there are too many.\<close>

function read_bounded :: "int \<Rightarrow> string \<Rightarrow> string \<Rightarrow> string option" where
  "read_bounded limit seen rest =
     (if rest = [] then Some seen
      else
        (let chunk = take audit_chunk rest
         in if limit < int (length (seen @ chunk)) then None
            else read_bounded limit (seen @ chunk) (drop audit_chunk rest)))"
  by pat_completeness auto
termination by (relation "measure (\<lambda>(_, _, rest). length rest)") (simp_all add: audit_chunk_def)

declare read_bounded.simps [simp del]

definition file_digest :: "(string \<Rightarrow> string) \<Rightarrow> exn + string \<Rightarrow> int \<Rightarrow> exn + string option" where
  "file_digest sha data limit = bind_result data (\<lambda>bs. Inr (map_option sha (read_bounded limit [] bs)))"

section \<open>The collector\<close>

record file_audit =
  fa_paths :: "string list"
  fa_max_files :: int
  fa_max_bytes :: int

definition new_file_audit :: "string list \<Rightarrow> int \<Rightarrow> int \<Rightarrow> exn + file_audit" where
  "new_file_audit paths files bytes =
     bind_result (require (1 \<le> files) (ValueError ''max_files must be at least 1'')) (\<lambda>_.
     bind_result (require (1 \<le> bytes) (ValueError ''max_file_bytes must be at least 1'')) (\<lambda>_.
     Inr \<lparr>fa_paths = paths, fa_max_files = files, fa_max_bytes = bytes\<rparr>))"

fun leaf_of :: "node \<Rightarrow> leaf" where
  "leaf_of (File l) = l"
| "leaf_of (Special l) = l"
| "leaf_of _ = \<lparr>leaf_stat = Inl (OSError (Io EACCES)), leaf_data = Inl (OSError (Io EACCES))\<rparr>"

text \<open>One candidate: its record, or \<open>None\<close> if it makes the result partial.\<close>

definition audit_record :: "(string \<Rightarrow> string) \<Rightarrow> int \<Rightarrow> string \<Rightarrow> leaf \<Rightarrow> exn + dict option" where
  "audit_record sha limit p l =
     bind_result (leaf_stat l) (\<lambda>(bytes, mtime).
     if limit < bytes then Inr None
     else
       bind_result (file_digest sha (leaf_data l) limit) (\<lambda>digest.
       case digest of
         None \<Rightarrow> Inr None
       | Some h \<Rightarrow>
           (case mtime of
              Fin r \<Rightarrow>
                (case timestamp_text r of
                   None \<Rightarrow> Inl OverflowError
                 | Some t \<Rightarrow>
                     Inr (Some [(''path'', JStr p), (''size_bytes'', JInt bytes), (''modified'', JStr t),
                                (''sha256'', JStr h)]))
            | _ \<Rightarrow> Inl (ValueError ''cannot convert float to integer''))))"

definition audit_caught :: "exn \<Rightarrow> bool" where
  "audit_caught e \<longleftrightarrow> is_OSError e \<or> e = OverflowError \<or> is_ValueError e"

definition audit_candidate :: "(string \<Rightarrow> string) \<Rightarrow> int \<Rightarrow> string \<times> node \<Rightarrow> exn + dict option" where
  "audit_candidate sha limit c =
     (case c of (p, x) \<Rightarrow>
        case audit_record sha limit p (leaf_of x) of
          Inl e \<Rightarrow> if audit_caught e then Inr None else Inl e
        | Inr r \<Rightarrow> Inr r)"

text \<open>The state of the loops: the records, \<open>partial\<close>, \<open>limit_reached\<close>.\<close>

type_synonym audit_state = "dict list \<times> bool \<times> bool"

fun audit_files :: "(string \<Rightarrow> string) \<Rightarrow> file_audit \<Rightarrow> found list \<Rightarrow> audit_state \<Rightarrow> exn + audit_state" where
  "audit_files sha fa [] st = Inr st"
| "audit_files sha fa (Inl e # xs) (rs, partial, stop) = (if is_OSError e then Inr (rs, True, stop) else Inl e)"
| "audit_files sha fa (Inr c # xs) (rs, partial, stop) =
     (if fa_max_files fa \<le> int (length rs) then Inr (rs, partial, True)
      else
        bind_result (audit_candidate sha (fa_max_bytes fa) c) (\<lambda>r.
        case r of
          None \<Rightarrow> audit_files sha fa xs (rs, True, stop)
        | Some d \<Rightarrow> audit_files sha fa xs (rs @ [d], partial, stop)))"

text \<open>The loop over the audited paths; a path that does not exist has no node.\<close>

fun audit_paths_loop ::
  "(string \<Rightarrow> string) \<Rightarrow> file_audit \<Rightarrow> (string \<Rightarrow> node option) \<Rightarrow> string list \<Rightarrow> audit_state \<Rightarrow> exn + audit_state" where
  "audit_paths_loop sha fa tree [] st = Inr st"
| "audit_paths_loop sha fa tree (p # ps) (rs, partial, stop) =
     (case tree p of
        None \<Rightarrow> audit_paths_loop sha fa tree ps (rs, True, stop)
      | Some x \<Rightarrow>
          if is_link x then audit_paths_loop sha fa tree ps (rs, True, stop)
          else
            bind_result (audit_files sha fa (iter_regular_files p x) (rs, partial, stop)) (\<lambda>(rs, partial, stop).
            if stop then Inr (rs, partial, stop) else audit_paths_loop sha fa tree ps (rs, partial, stop)))"

definition collect_file_audit ::
  "(string \<Rightarrow> string) \<Rightarrow> file_audit \<Rightarrow> (string \<Rightarrow> node option) \<Rightarrow> exn + collector_payload" where
  "collect_file_audit sha fa tree =
     (if fa_paths fa = [] then Inr (disabled_payload (JObj [(''file_audit'', JList [])]))
      else
        bind_result (audit_paths_loop sha fa tree (fa_paths fa) ([], False, False)) (\<lambda>(rs, partial, _).
        let data = JObj [(''file_audit'', JList (map JObj rs))]
        in Inr (if partial
                then partial_payload data ''file_audit_partial'' ''some audit targets were unavailable or exceeded limits''
                else plain_payload data)))"

section \<open>What the walk finds\<close>

text \<open>The nodes below a path, without passing a symbolic link.\<close>

inductive reaches :: "string \<Rightarrow> node \<Rightarrow> string \<Rightarrow> node \<Rightarrow> bool" where
  reaches_here: "reaches p x p x"
| reaches_in: "(n, y) \<in> set entries \<Longrightarrow> reaches (join_path p n) y q z \<Longrightarrow> reaches p (Folder (Inr entries)) q z"

inductive_cases reaches_LinkE: "reaches p (Link b) q z"
inductive_cases reaches_FileE: "reaches p (File l) q z"
inductive_cases reaches_SpecialE: "reaches p (Special l) q z"
inductive_cases reaches_FolderE: "reaches p (Folder r) q z"

fun readable_node :: "node \<Rightarrow> bool" where
  "readable_node (File _) = True"
| "readable_node (Special _) = True"
| "readable_node _ = False"

lemma readable_node_iff: "readable_node x \<longleftrightarrow> \<not> listed_as_folder x \<and> \<not> is_link x"
  by (cases x) auto

lemma walk_sound: "Inr (q, y) \<in> set (walk p x) \<Longrightarrow> reaches p x q y \<and> readable_node y"
proof (induction p x rule: walk.induct)
  case (2 p entries)
  from "2.prems" consider (leaf) n where "(n, y) \<in> set entries" "q = join_path p n" "readable_node y"
    | (deep) n z where "(n, z) \<in> set entries" "listed_as_folder z" "\<not> is_link z" "Inr (q, y) \<in> set (walk (join_path p n) z)"
    by (auto simp: by_name_def readable_node_iff)
  then show ?case
  proof cases
    case leaf
    then show ?thesis by (auto intro: reaches_in reaches_here)
  next
    case deep
    then have "reaches (join_path p n) z q y \<and> readable_node y"
      by (intro "2.IH" [of "(n, z)"]) (auto simp: by_name_def)
    with deep(1) show ?thesis by (auto intro: reaches_in)
  qed
qed simp_all

lemma walk_complete:
  assumes "reaches p x q (File l)" and "\<forall>e. Inl e \<notin> set (walk p x)" and "\<forall>k. x \<noteq> File k"
  shows "Inr (q, File l) \<in> set (walk p x)"
  using assms
proof (induction p x q "File l" rule: reaches.induct)
  case (reaches_in n y entries p q)
  show ?case
  proof (cases y)
    case (File k)
    with reaches_in.hyps(2) have "q = join_path p n" "k = l" by (auto elim: reaches_FileE)
    with reaches_in.hyps(1) File show ?thesis by (force simp: by_name_def)
  next
    case (Folder r)
    then have "Inr (q, File l) \<in> set (walk (join_path p n) y)"
      using reaches_in.prems(1) reaches_in.hyps(1)
      by (intro reaches_in.hyps(3)) (force simp: by_name_def)+
    with reaches_in.hyps(1) Folder show ?thesis by (force simp: by_name_def)
  qed (use reaches_in.hyps(2) in \<open>auto elim: reaches_LinkE reaches_SpecialE\<close>)
qed simp

lemma cut_at_error_subset: "Inr c \<in> set (cut_at_error xs) \<Longrightarrow> Inr c \<in> set xs"
  by (induction xs rule: cut_at_error.induct) auto

lemma cut_at_error_clean: "\<forall>e. Inl e \<notin> set (cut_at_error xs) \<Longrightarrow> cut_at_error xs = xs"
  by (induction xs rule: cut_at_error.induct) auto

lemma iter_sound: "Inr (q, y) \<in> set (iter_regular_files p x) \<Longrightarrow> reaches p x q y \<and> readable_node y"
  by (cases x)
    (auto simp: iter_regular_files_def simp del: walk.simps intro: reaches_here dest!: cut_at_error_subset dest: walk_sound)

lemma iter_complete:
  assumes "reaches p x q (File l)" and "\<forall>e. Inl e \<notin> set (iter_regular_files p x)"
  shows "Inr (q, File l) \<in> set (iter_regular_files p x)"
proof (cases x)
  case (Folder r)
  with assms(2) have "cut_at_error (walk p x) = walk p x"
    by (intro cut_at_error_clean) (simp add: iter_regular_files_def del: walk.simps)
  with walk_complete [OF assms(1)] assms(2) Folder show ?thesis
    by (simp add: iter_regular_files_def del: walk.simps)
qed (use assms(1) in \<open>auto simp: iter_regular_files_def elim: reaches_LinkE reaches_FileE reaches_SpecialE\<close>)

section \<open>What is recorded\<close>

lemma read_bounded_whole:
  "read_bounded limit seen rest = (if rest = [] \<or> int (length seen + length rest) \<le> limit then Some (seen @ rest) else None)"
proof (induction limit seen rest rule: read_bounded.induct)
  case (1 limit seen rest)
  show ?case
  proof (cases "rest = []")
    case False
    have len: "length (take audit_chunk rest) + length (drop audit_chunk rest) = length rest" by simp
    show ?thesis
    proof (cases "limit < int (length (seen @ take audit_chunk rest))")
      case True
      with False len show ?thesis
        by (subst read_bounded.simps) (auto simp: Let_def)
    next
      case inside: False
      then have "read_bounded limit seen rest = read_bounded limit (seen @ take audit_chunk rest) (drop audit_chunk rest)"
        using False by (subst read_bounded.simps) (simp add: Let_def)
      also have "\<dots> = (if drop audit_chunk rest = [] \<or>
          int (length (seen @ take audit_chunk rest) + length (drop audit_chunk rest)) \<le> limit
          then Some ((seen @ take audit_chunk rest) @ drop audit_chunk rest) else None)"
        by (rule "1.IH" [OF False refl inside])
      also have "\<dots> = (if rest = [] \<or> int (length seen + length rest) \<le> limit then Some (seen @ rest) else None)"
      proof (cases "drop audit_chunk rest = []")
        case True
        then have "take audit_chunk rest = rest" by simp
        with True inside show ?thesis by auto
      next
        case False
        then show ?thesis by auto
      qed
      finally show ?thesis .
    qed
  qed (subst read_bounded.simps, simp)
qed

text \<open>A faithful record of a node: its path, the size \<open>stat\<close> gave, the digest of all it holds.\<close>

definition faithful :: "(string \<Rightarrow> string) \<Rightarrow> int \<Rightarrow> string \<Rightarrow> leaf \<Rightarrow> dict \<Rightarrow> bool" where
  "faithful sha limit q l d \<longleftrightarrow>
     (\<exists>bytes mtime t bs. leaf_stat l = Inr (bytes, mtime) \<and> bytes \<le> limit \<and> leaf_data l = Inr bs \<and>
        (bs = [] \<or> int (length bs) \<le> limit) \<and>
        d = [(''path'', JStr q), (''size_bytes'', JInt bytes), (''modified'', JStr t), (''sha256'', JStr (sha bs))])"

lemma audit_record_faithful:
  assumes "audit_record sha limit q l = Inr (Some d)"
  shows "faithful sha limit q l d"
proof -
  from assms obtain bytes mtime r where "leaf_stat l = Inr (bytes, mtime)" "\<not> limit < bytes"
    "file_digest sha (leaf_data l) limit = Inr r"
    and d: "(case r of None \<Rightarrow> Inr None
      | Some h \<Rightarrow>
          (case mtime of
             Fin r \<Rightarrow>
               (case timestamp_text r of
                  None \<Rightarrow> Inl OverflowError
                | Some t \<Rightarrow>
                    Inr (Some [(''path'', JStr q), (''size_bytes'', JInt bytes), (''modified'', JStr t),
                               (''sha256'', JStr h)]))
           | _ \<Rightarrow> Inl (ValueError ''cannot convert float to integer''))) = Inr (Some d)"
    unfolding audit_record_def by (auto simp: bind_result_Inr split: if_splits)
  moreover from d obtain h where "r = Some h" by (cases r) auto
  moreover with d obtain t where
    "d = [(''path'', JStr q), (''size_bytes'', JInt bytes), (''modified'', JStr t), (''sha256'', JStr h)]"
    by (auto split: pyfloat.splits option.splits)
  moreover from \<open>file_digest sha (leaf_data l) limit = Inr r\<close> \<open>r = Some h\<close> obtain bs where
    "leaf_data l = Inr bs" "h = sha bs" "bs = [] \<or> int (length bs) \<le> limit"
    unfolding file_digest_def read_bounded_whole by (auto simp: bind_result_Inr split: if_splits)
  ultimately show ?thesis unfolding faithful_def by (intro exI conjI) (assumption | simp)+
qed

lemma audit_candidate_faithful:
  "audit_candidate sha limit (q, y) = Inr (Some d) \<Longrightarrow> faithful sha limit q (leaf_of y) d"
  unfolding audit_candidate_def
  by (auto intro: audit_record_faithful split: sum.splits if_splits)

text \<open>
  What a loop does to its state: every new record comes from a candidate; if the loop neither failed
  nor stopped, every candidate has its record.
\<close>

abbreviation recorded :: "(string \<Rightarrow> string) \<Rightarrow> file_audit \<Rightarrow> string \<times> node \<Rightarrow> dict \<Rightarrow> bool" where
  "recorded sha fa c d \<equiv> audit_candidate sha (fa_max_bytes fa) c = Inr (Some d)"

definition sources_ok :: "(string \<Rightarrow> string) \<Rightarrow> file_audit \<Rightarrow> (string \<times> node \<Rightarrow> bool) \<Rightarrow> dict list \<Rightarrow> bool" where
  "sources_ok sha fa P rs \<longleftrightarrow>
     int (length rs) \<le> fa_max_files fa \<and> (\<forall>d\<in>set rs. \<exists>c. P c \<and> recorded sha fa c d)"

lemma audit_files_grow:
  "audit_files sha fa xs (rs, partial, stop) = Inr (rs', partial', stop') \<Longrightarrow>
    set rs \<subseteq> set rs' \<and> (partial \<longrightarrow> partial') \<and> (stop' \<longrightarrow> stop \<or> fa_max_files fa \<le> int (length rs'))"
proof (induction sha fa xs "(rs, partial, stop)" arbitrary: rs partial stop rule: audit_files.induct)
  case (3 sha fa c xs rs partial stop)
  show ?case
  proof (cases "fa_max_files fa \<le> int (length rs)")
    case False
    with "3.prems" obtain r where r: "audit_candidate sha (fa_max_bytes fa) c = Inr r"
      and rest: "(case r of None \<Rightarrow> audit_files sha fa xs (rs, True, stop)
                    | Some d \<Rightarrow> audit_files sha fa xs (rs @ [d], partial, stop)) = Inr (rs', partial', stop')"
      by (auto simp: bind_result_Inr)
    show ?thesis
      using "3.hyps"(1) [OF False] "3.hyps"(2) [OF False] rest
      by (cases r) auto
  qed (use "3.prems" in auto)
qed (auto split: if_splits)

lemma audit_files_sound:
  "audit_files sha fa xs (rs, partial, stop) = Inr (rs', partial', stop') \<Longrightarrow>
    \<forall>c. Inr c \<in> set xs \<longrightarrow> P c \<Longrightarrow> sources_ok sha fa P rs \<Longrightarrow> sources_ok sha fa P rs'"
proof (induction sha fa xs "(rs, partial, stop)" arbitrary: rs partial stop rule: audit_files.induct)
  case (3 sha fa c xs rs partial stop)
  show ?case
  proof (cases "fa_max_files fa \<le> int (length rs)")
    case False
    with "3.prems" obtain r where r: "audit_candidate sha (fa_max_bytes fa) c = Inr r"
      and rest: "(case r of None \<Rightarrow> audit_files sha fa xs (rs, True, stop)
                    | Some d \<Rightarrow> audit_files sha fa xs (rs @ [d], partial, stop)) = Inr (rs', partial', stop')"
      by (auto simp: bind_result_Inr)
    show ?thesis
    proof (cases r)
      case None
      with "3.hyps"(1) [OF False] rest "3.prems" show ?thesis by auto
    next
      case (Some d)
      have "sources_ok sha fa P (rs @ [d])"
        using "3.prems"(2,3) r Some False by (cases c) (auto simp: sources_ok_def)
      with "3.hyps"(2) [OF False] rest "3.prems" Some show ?thesis by auto
    qed
  qed (use "3.prems" in auto)
qed (auto split: if_splits)

lemma audit_files_complete:
  "audit_files sha fa xs (rs, partial, stop) = Inr (rs', False, False) \<Longrightarrow>
    (\<forall>e. Inl e \<notin> set xs) \<and> (\<forall>c. Inr c \<in> set xs \<longrightarrow> (\<exists>d\<in>set rs'. recorded sha fa c d))"
proof (induction sha fa xs "(rs, partial, stop)" arbitrary: rs partial stop rule: audit_files.induct)
  case (3 sha fa c xs rs partial stop)
  show ?case
  proof (cases "fa_max_files fa \<le> int (length rs)")
    case False
    with "3.prems" obtain r where r: "audit_candidate sha (fa_max_bytes fa) c = Inr r"
      and rest: "(case r of None \<Rightarrow> audit_files sha fa xs (rs, True, stop)
                    | Some d \<Rightarrow> audit_files sha fa xs (rs @ [d], partial, stop)) = Inr (rs', False, False)"
      by (auto simp: bind_result_Inr)
    show ?thesis
    proof (cases r)
      case None
      with rest audit_files_grow show ?thesis by fastforce
    next
      case (Some d)
      with rest have run: "audit_files sha fa xs (rs @ [d], partial, stop) = Inr (rs', False, False)" by simp
      then have "d \<in> set rs'" using audit_files_grow by fastforce
      moreover note "3.hyps"(2) [OF False run]
      ultimately show ?thesis using r Some by auto
    qed
  qed (use "3.prems" in auto)
qed (auto split: if_splits)

lemma audit_paths_grow:
  "audit_paths_loop sha fa tree ps (rs, partial, False) = Inr (rs', partial', stop') \<Longrightarrow>
    set rs \<subseteq> set rs' \<and> (partial \<longrightarrow> partial') \<and> (stop' \<longrightarrow> fa_max_files fa \<le> int (length rs'))"
proof (induction ps arbitrary: rs partial)
  case (Cons p ps)
  show ?case
  proof (cases "\<exists>x. tree p = Some x \<and> \<not> is_link x")
    case True
    with Cons.prems obtain x rs1 partial1 stop1 where
      run: "audit_files sha fa (iter_regular_files p x) (rs, partial, False) = Inr (rs1, partial1, stop1)"
      and rest: "(if stop1 then Inr (rs1, partial1, stop1) else audit_paths_loop sha fa tree ps (rs1, partial1, stop1))
        = Inr (rs', partial', stop')"
      by (auto simp: bind_result_Inr)
    show ?thesis
      using audit_files_grow [OF run] rest Cons.IH [of rs1 partial1] by (cases stop1) auto
  qed (use Cons.prems Cons.IH [of rs True] in \<open>auto split: option.splits if_splits\<close>)
qed simp

lemma audit_paths_sound:
  "audit_paths_loop sha fa tree ps (rs, partial, False) = Inr (rs', partial', stop') \<Longrightarrow>
    (\<And>p x c. p \<in> set ps \<Longrightarrow> tree p = Some x \<Longrightarrow> Inr c \<in> set (iter_regular_files p x) \<Longrightarrow> P c) \<Longrightarrow>
    sources_ok sha fa P rs \<Longrightarrow> sources_ok sha fa P rs'"
proof (induction ps arbitrary: rs partial)
  case (Cons p ps)
  have later: "\<And>q x c. q \<in> set ps \<Longrightarrow> tree q = Some x \<Longrightarrow> Inr c \<in> set (iter_regular_files q x) \<Longrightarrow> P c"
    by (rule Cons.prems(2)) auto
  show ?case
  proof (cases "\<exists>x. tree p = Some x \<and> \<not> is_link x")
    case True
    with Cons.prems(1) obtain x rs1 partial1 stop1 where x: "tree p = Some x"
      and run: "audit_files sha fa (iter_regular_files p x) (rs, partial, False) = Inr (rs1, partial1, stop1)"
      and rest: "(if stop1 then Inr (rs1, partial1, stop1) else audit_paths_loop sha fa tree ps (rs1, partial1, stop1))
        = Inr (rs', partial', stop')"
      by (auto simp: bind_result_Inr)
    have "sources_ok sha fa P rs1"
      using audit_files_sound [OF run _ Cons.prems(3)] Cons.prems(2) x by auto
    with rest Cons.IH [of rs1 partial1, OF _ later] show ?thesis by (cases stop1) auto
  qed (use Cons.prems(1,3) Cons.IH [of rs True, OF _ later] in \<open>auto split: option.splits if_splits\<close>)
qed simp

lemma audit_paths_complete:
  "audit_paths_loop sha fa tree ps (rs, partial, False) = Inr (rs', False, False) \<Longrightarrow> p \<in> set ps \<Longrightarrow>
    \<exists>x. tree p = Some x \<and> \<not> is_link x \<and> (\<forall>e. Inl e \<notin> set (iter_regular_files p x)) \<and>
      (\<forall>c. Inr c \<in> set (iter_regular_files p x) \<longrightarrow> (\<exists>d\<in>set rs'. recorded sha fa c d))"
proof (induction ps arbitrary: rs partial)
  case (Cons a ps)
  show ?case
  proof (cases "\<exists>x. tree a = Some x \<and> \<not> is_link x")
    case True
    with Cons.prems(1) obtain x rs1 partial1 stop1 where x: "tree a = Some x" "\<not> is_link x"
      and run: "audit_files sha fa (iter_regular_files a x) (rs, partial, False) = Inr (rs1, partial1, stop1)"
      and rest: "(if stop1 then Inr (rs1, partial1, stop1) else audit_paths_loop sha fa tree ps (rs1, partial1, stop1))
        = Inr (rs', False, False)"
      by (auto simp: bind_result_Inr)
    from rest have "\<not> stop1" by (auto split: if_splits)
    with rest have later: "audit_paths_loop sha fa tree ps (rs1, partial1, False) = Inr (rs', False, False)" by simp
    note grow = audit_paths_grow [OF later]
    with run \<open>\<not> stop1\<close> have "audit_files sha fa (iter_regular_files a x) (rs, partial, False) = Inr (rs1, False, False)"
      by simp
    note complete = audit_files_complete [OF this]
    show ?thesis
    proof (cases "p = a")
      case True
      with x complete grow show ?thesis by blast
    next
      case False
      with Cons.prems(2) Cons.IH [OF later] show ?thesis by simp
    qed
  next
    case False
    with Cons.prems(1) have "audit_paths_loop sha fa tree ps (rs, True, False) = Inr (rs', False, False)"
      by (auto split: option.splits if_splits)
    with audit_paths_grow show ?thesis by fastforce
  qed
qed simp

section \<open>The collector's promise\<close>

lemma collected_records:
  assumes "collect_file_audit sha fa tree = Inr p" and "fa_paths fa \<noteq> []"
  obtains rs partial stop where "audit_paths_loop sha fa tree (fa_paths fa) ([], False, False) = Inr (rs, partial, stop)"
    and "cp_data p = JObj [(''file_audit'', JList (map JObj rs))]"
    and "cp_status p = (if partial then CPartial else CSuccess)"
proof -
  from assms obtain rs partial stop where
    "audit_paths_loop sha fa tree (fa_paths fa) ([], False, False) = Inr (rs, partial, stop)"
    and "p = (let data = JObj [(''file_audit'', JList (map JObj rs))]
        in if partial
           then partial_payload data ''file_audit_partial'' ''some audit targets were unavailable or exceeded limits''
           else plain_payload data)"
    unfolding collect_file_audit_def by (auto simp: bind_result_Inr Let_def)
  then show ?thesis
    by (intro that) (auto simp: Let_def plain_payload_def partial_payload_def)
qed

text \<open>C12: The audit is faithful and bounded: at most \<open>max_files\<close> records, and each is of a node below an
  audited path that no symbolic link leads to; the size is within the limit, and the digest is that of
  the whole content, itself within the limit, never of a part of it.\<close>

theorem audit_faithful:
  assumes "new_file_audit paths files limit = Inr fa" and "collect_file_audit sha fa tree = Inr p"
  shows "\<exists>rs. cp_data p = JObj [(''file_audit'', JList (map JObj rs))] \<and> int (length rs) \<le> files \<and>
    (\<forall>d\<in>set rs. \<exists>start x q y. start \<in> set paths \<and> tree start = Some x \<and> reaches start x q y \<and> readable_node y \<and>
      faithful sha limit q (leaf_of y) d)"
proof -
  from assms(1) have fa: "fa_paths fa = paths" "fa_max_files fa = files" "fa_max_bytes fa = limit" "1 \<le> files"
    by (auto simp: new_file_audit_def bind_result_Inr require_def split: if_splits)
  show ?thesis
  proof (cases "paths = []")
    case True
    with assms(2) fa show ?thesis
      by (intro exI [of _ "[]"]) (auto simp: collect_file_audit_def disabled_payload_def)
  next
    case False
    let ?P = "\<lambda>(q, y). \<exists>start x. start \<in> set paths \<and> tree start = Some x \<and> reaches start x q y \<and> readable_node y"
    from False fa(1) have "fa_paths fa \<noteq> []" by simp
    from collected_records [OF assms(2) this] obtain rs partial stop where
      run: "audit_paths_loop sha fa tree (fa_paths fa) ([], False, False) = Inr (rs, partial, stop)"
      and data: "cp_data p = JObj [(''file_audit'', JList (map JObj rs))]" by metis
    have "sources_ok sha fa ?P rs"
      by (rule audit_paths_sound [OF run]) (use fa in \<open>auto simp: sources_ok_def dest: iter_sound\<close>)
    with data fa show ?thesis
      unfolding sources_ok_def by (fastforce dest: audit_candidate_faithful)
  qed
qed

text \<open>C13: The audit is complete: a successful result with fewer than \<open>max_files\<close> records has a faithful
  record of every file below every audited path that is reached without a symbolic link.\<close>

theorem audit_complete:
  assumes "collect_file_audit sha fa tree = Inr p" and "cp_status p = CSuccess"
    and "cp_data p = JObj [(''file_audit'', JList (map JObj rs))]" and "int (length rs) < fa_max_files fa"
    and "start \<in> set (fa_paths fa)"
  shows "\<exists>x. tree start = Some x \<and>
    (\<forall>q l. reaches start x q (File l) \<longrightarrow> (\<exists>d\<in>set rs. faithful sha (fa_max_bytes fa) q l d))"
proof -
  from assms(5) have "fa_paths fa \<noteq> []" by auto
  from collected_records [OF assms(1) this] obtain rs' partial stop where
    run: "audit_paths_loop sha fa tree (fa_paths fa) ([], False, False) = Inr (rs', partial, stop)"
    and "cp_data p = JObj [(''file_audit'', JList (map JObj rs'))]"
    and "cp_status p = (if partial then CPartial else CSuccess)" by metis
  with assms(2,3) have "map JObj rs' = map JObj rs" "\<not> partial" by (auto split: if_splits)
  then have "rs' = rs" by (metis inj_map_eq_map inj_onI json.inject(6))
  with audit_paths_grow [OF run] assms(4) have "\<not> stop" by auto
  from run \<open>rs' = rs\<close> \<open>\<not> stop\<close> \<open>\<not> partial\<close>
  have "audit_paths_loop sha fa tree (fa_paths fa) ([], False, False) = Inr (rs, False, False)" by simp
  from audit_paths_complete [OF this assms(5)] obtain x where x: "tree start = Some x"
    "\<forall>e. Inl e \<notin> set (iter_regular_files start x)"
    "\<forall>c. Inr c \<in> set (iter_regular_files start x) \<longrightarrow> (\<exists>d\<in>set rs. recorded sha fa c d)" by blast
  then show ?thesis
    by (fastforce dest: iter_complete audit_candidate_faithful)
qed

text \<open>A named pipe stops the audit for ever: inside an audited directory it is opened like a file, and
  opening a pipe without a writer does not return, although the same pipe as an audited path is
  skipped.\<close>

theorem named_pipe_blocks:
  assumes "tree start = Some (Folder (Inr [(name, Special pipe)]))" and "fa_paths fa = start # others"
    and "1 \<le> fa_max_files fa" and "leaf_stat pipe = Inr (bytes, mtime)" and "bytes \<le> fa_max_bytes fa"
    and "leaf_data pipe = Inl Hang"
  shows "collect_file_audit sha fa tree = Inl Hang \<and> iter_regular_files start (Special pipe) = []"
proof -
  have "audit_candidate sha (fa_max_bytes fa) (q, Special pipe) = Inl Hang" for q
    using assms(4-6) by (simp add: audit_candidate_def audit_record_def file_digest_def audit_caught_def)
  then show ?thesis
    using assms(1-3) by (simp add: collect_file_audit_def iter_regular_files_def by_name_def)
qed

section \<open>Examples\<close>

definition sample_file :: leaf where
  "sample_file = \<lparr>leaf_stat = Inr (2, Fin 0), leaf_data = Inr ''hi''\<rparr>"

definition sample_tree :: "string \<Rightarrow> node option" where
  "sample_tree p = (if p = ''/a'' then Some (Folder (Inr [(''f'', File sample_file), (''l'', Link True)])) else None)"

definition sample_audit :: file_audit where
  "sample_audit = \<lparr>fa_paths = [''/a''], fa_max_files = 5, fa_max_bytes = 10\<rparr>"

lemma sample_candidates:
  "iter_regular_files ''/a'' (Folder (Inr [(''f'', File sample_file), (''l'', Link True)])) =
    [Inr (''/a/f'', File sample_file)]"
  by (simp add: iter_regular_files_def by_name_def join_path_def ends_with_def)

lemma sample_recorded:
  "\<exists>t. audit_candidate (\<lambda>bs. bs) 10 (''/a/f'', File sample_file) =
    Inr (Some [(''path'', JStr ''/a/f''), (''size_bytes'', JInt 2), (''modified'', JStr t), (''sha256'', JStr ''hi'')])"
  by (simp add: timestamp_text_zero sample_file_def audit_candidate_def audit_record_def file_digest_def
      read_bounded_whole)

lemma sample_collected:
  "\<exists>p t. collect_file_audit (\<lambda>bs. bs) sample_audit sample_tree = Inr p \<and> cp_status p = CSuccess \<and>
    cp_data p = JObj [(''file_audit'', JList (map JObj [[(''path'', JStr ''/a/f''), (''size_bytes'', JInt 2),
      (''modified'', JStr t), (''sha256'', JStr ''hi'')]]))]"
proof -
  obtain t where "audit_candidate (\<lambda>bs. bs) 10 (''/a/f'', File sample_file) =
    Inr (Some [(''path'', JStr ''/a/f''), (''size_bytes'', JInt 2), (''modified'', JStr t), (''sha256'', JStr ''hi'')])"
    using sample_recorded by blast
  then show ?thesis
    by (simp add: collect_file_audit_def sample_audit_def sample_tree_def sample_candidates plain_payload_def)
qed

theorem audit_faithful_witness:
  "\<exists>p rs. collect_file_audit (\<lambda>bs. bs) sample_audit sample_tree = Inr p \<and>
    cp_data p = JObj [(''file_audit'', JList (map JObj rs))] \<and> int (length rs) \<le> 5"
proof -
  have "new_file_audit [''/a''] 5 10 = Inr sample_audit"
    by (simp add: new_file_audit_def sample_audit_def require_def)
  with sample_collected audit_faithful [of "[''/a'']" 5 10 sample_audit "\<lambda>bs. bs" sample_tree] show ?thesis
    by blast
qed

theorem audit_complete_witness:
  "\<exists>d p rs. collect_file_audit (\<lambda>bs. bs) sample_audit sample_tree = Inr p \<and> d \<in> set rs \<and>
    faithful (\<lambda>bs. bs) 10 ''/a/f'' sample_file d"
proof -
  from sample_collected obtain p t where p: "collect_file_audit (\<lambda>bs. bs) sample_audit sample_tree = Inr p"
    "cp_status p = CSuccess"
    "cp_data p = JObj [(''file_audit'', JList (map JObj [[(''path'', JStr ''/a/f''), (''size_bytes'', JInt 2),
      (''modified'', JStr t), (''sha256'', JStr ''hi'')]]))]" by blast
  have "reaches ''/a'' (Folder (Inr [(''f'', File sample_file), (''l'', Link True)])) ''/a/f'' (File sample_file)"
    by (rule reaches_in [of "''f''" "File sample_file"]) (simp_all add: join_path_def ends_with_def reaches_here)
  with audit_complete [OF p, of "''/a''"] obtain d where
    "d \<in> set [[(''path'', JStr ''/a/f''), (''size_bytes'', JInt 2), (''modified'', JStr t), (''sha256'', JStr ''hi'')]]"
    "faithful (\<lambda>bs. bs) 10 ''/a/f'' sample_file d"
    by (force simp: sample_audit_def sample_tree_def)
  with p(1) show ?thesis by blast
qed

theorem named_pipe_blocks_witness:
  "collect_file_audit (\<lambda>bs. bs) sample_audit
    (\<lambda>p. Some (Folder (Inr [(''p'', Special \<lparr>leaf_stat = Inr (0, Fin 0), leaf_data = Inl Hang\<rparr>)]))) = Inl Hang"
  by (rule named_pipe_blocks [of _ "''/a''" "''p''" _ sample_audit "[]", THEN conjunct1]) (auto simp: sample_audit_def)

end
