(* ===== verification/Software.thy ===== *)
theory Software
  imports Values Record_Names
begin

text \<open>
  \<open>collectors/software.py\<close>: the inventories of the three platforms, their normal form, and the
  cache. What a command prints, what the registry holds and what \<open>/Applications\<close> lists come from
  outside: each is a value or an exception. The registry is read in a world of open handles.
\<close>

section \<open>Lines and words\<close>

text \<open>\<open>str.splitlines()\<close>: a carriage return and a line feed after it are one break.\<close>

definition line_break :: "char \<Rightarrow> bool" where
  "line_break c \<longleftrightarrow> (let n = of_char c :: nat in (10 \<le> n \<and> n \<le> 13) \<or> (28 \<le> n \<and> n \<le> 30))"

definition after_break :: "char \<Rightarrow> string \<Rightarrow> string" where
  "after_break c rest =
     (if c = CHR 0x0D \<and> rest \<noteq> [] \<and> hd rest = CHR 0x0A then tl rest else rest)"

lemma length_after_break: "length (after_break c rest) \<le> length rest"
  by (simp add: after_break_def)

function split_lines :: "string \<Rightarrow> string list" where
  "split_lines s =
     (if s = [] then []
      else
        (let line = takeWhile (\<lambda>c. \<not> line_break c) s;
             rest = dropWhile (\<lambda>c. \<not> line_break c) s
         in line # (if rest = [] then [] else split_lines (after_break (hd rest) (tl rest)))))"
  by pat_completeness auto
termination
proof (relation "measure length")
  fix s line rest :: string
  assume "s \<noteq> []" and rest: "rest = dropWhile (\<lambda>c. \<not> line_break c) s" "rest \<noteq> []"
  have "length (after_break (hd rest) (tl rest)) \<le> length rest - 1"
    using length_after_break [of "hd rest" "tl rest"] by simp
  also have "\<dots> < length s"
  proof -
    have "0 < length rest" using rest by simp
    moreover have "length rest \<le> length s" unfolding rest(1) by (rule length_dropWhile_le)
    ultimately show ?thesis by linarith
  qed
  finally show "(after_break (hd rest) (tl rest), s) \<in> measure length" by simp
qed simp

declare split_lines.simps [simp del]

text \<open>\<open>s.split(maxsplit=1)\<close>: no word, one word, or a word and the rest without the space before it.\<close>

definition split_word :: "string \<Rightarrow> string list" where
  "split_word s =
     (let t = dropWhile is_space s;
          word = takeWhile (\<lambda>c. \<not> is_space c) t;
          rest = dropWhile is_space (dropWhile (\<lambda>c. \<not> is_space c) t)
      in if t = [] then [] else if rest = [] then [word] else [word, rest])"

section \<open>Records\<close>

record software_record =
  sw_name :: string
  sw_version :: "string option"
  sw_source :: string

definition clean_text :: "pyval \<Rightarrow> string option" where
  "clean_text v =
     (case text_of v of None \<Rightarrow> None | Some s \<Rightarrow> (let t = strip s in if t = [] then None else Some t))"

definition tab_record :: "string \<Rightarrow> string \<Rightarrow> software_record option" where
  "tab_record source line =
     (case split_char CHR 0x09 line of
        [name, version] \<Rightarrow>
          (case clean_text (VStr name) of
             None \<Rightarrow> None
           | Some n \<Rightarrow> Some \<lparr>sw_name = n, sw_version = clean_text (VStr version), sw_source = source\<rparr>)
      | _ \<Rightarrow> None)"

definition parse_tab_records :: "string \<Rightarrow> string \<Rightarrow> software_record list" where
  "parse_tab_records text source = List.map_filter (tab_record source) (split_lines text)"

definition brew_record :: "string \<Rightarrow> software_record option" where
  "brew_record line =
     (case split_word line of
        [] \<Rightarrow> None
      | w # ws \<Rightarrow>
          (case clean_text (VStr w) of
             None \<Rightarrow> None
           | Some n \<Rightarrow>
               Some \<lparr>sw_name = n, sw_version = (case ws of [v] \<Rightarrow> clean_text (VStr v) | _ \<Rightarrow> None),
                 sw_source = ''homebrew''\<rparr>))"

definition parse_brew_records :: "string \<Rightarrow> software_record list" where
  "parse_brew_records text = List.map_filter brew_record (split_lines text)"

section \<open>The normal form\<close>

type_synonym software_key = "string \<times> string \<times> string"

definition software_key :: "software_record \<Rightarrow> software_key" where
  "software_key r =
     (casefold (sw_name r), casefold (case sw_version r of None \<Rightarrow> [] | Some v \<Rightarrow> v), casefold (sw_source r))"

definition set_default :: "software_record \<Rightarrow> (software_key \<times> software_record) list \<Rightarrow> (software_key \<times> software_record) list" where
  "set_default r unique =
     (if software_key r \<in> set (map fst unique) then unique else unique @ [(software_key r, r)])"

definition normalize_records :: "software_record list \<Rightarrow> software_record list" where
  "normalize_records rs =
     (let unique = fold set_default rs []
      in map (\<lambda>k. the (map_of unique k)) (sort (map fst unique)))"

section \<open>Linux\<close>

type_synonym inventory = "software_record list \<times> bool"

fun first_listing :: "((exn + string) \<times> string) list \<Rightarrow> exn + inventory" where
  "first_listing [] = Inr ([], False)"
| "first_listing ((r, source) # xs) =
     (case r of
        Inl e \<Rightarrow> if is_Exception e then first_listing xs else Inl e
      | Inr text \<Rightarrow> Inr (parse_tab_records text source, True))"

definition collect_linux_software :: "exn + string \<Rightarrow> exn + string \<Rightarrow> exn + inventory" where
  "collect_linux_software dpkg rpm = first_listing [(dpkg, ''dpkg''), (rpm, ''rpm'')]"

section \<open>Windows\<close>

text \<open>The handles that are open, the newest first, and those closed without being open.\<close>

datatype handle = Hive nat | Subkey nat nat

record registry_world =
  opened :: "handle list"
  stray :: "handle list"

record subkey =
  sk_name :: "exn + unit"
  sk_open :: "exn + unit"
  sk_display :: "exn + pyval"
  sk_version :: "exn + pyval"
  sk_close :: "exn + unit"

record hive =
  hv_open :: "exn + unit"
  hv_count :: "exn + pyval"
  hv_subkeys :: "nat \<Rightarrow> subkey"
  hv_close :: "exn + unit"

definition open_key :: "handle \<Rightarrow> exn + unit \<Rightarrow> (registry_world, unit) prog" where
  "open_key h r = andthen (lift_result r) (modify (\<lambda>w. w\<lparr>opened := h # opened w\<rparr>))"

text \<open>\<open>_close_registry_key\<close>: the handle is gone even if \<open>CloseKey\<close> raises, which is ignored.\<close>

definition close_key :: "handle \<Rightarrow> exn + unit \<Rightarrow> (registry_world, unit) prog" where
  "close_key h r =
     suppress is_Exception
       (andthen
         (modify (\<lambda>w. if h \<in> set (opened w) then w\<lparr>opened := remove1 h (opened w)\<rparr> else w\<lparr>stray := h # stray w\<rparr>))
         (lift_result r))"

definition registry_text :: "exn + pyval \<Rightarrow> (registry_world, string option) prog" where
  "registry_text r =
     try_else (lift_result r) is_Exception (\<lambda>_. ret None) (\<lambda>v. ret (clean_text v))"

definition subkey_record :: "subkey \<Rightarrow> (registry_world, software_record option) prog" where
  "subkey_record sk =
     bnd (registry_text (sk_display sk)) (\<lambda>display.
     case display of
       None \<Rightarrow> ret None
     | Some n \<Rightarrow>
         bnd (registry_text (sk_version sk)) (\<lambda>version.
         ret (Some \<lparr>sw_name = n, sw_version = version, sw_source = ''windows_registry''\<rparr>)))"

text \<open>The body of the inner loop: nothing is closed if the subkey could not be opened.\<close>

definition read_subkey :: "nat \<Rightarrow> nat \<Rightarrow> subkey \<Rightarrow> (registry_world, software_record option) prog" where
  "read_subkey i j sk =
     try_except
       (andthen (lift_result (sk_name sk))
         (andthen (open_key (Subkey i j) (sk_open sk))
           (try_finally (subkey_record sk) (close_key (Subkey i j) (sk_close sk)))))
       is_Exception (\<lambda>_. ret None)"

definition read_subkeys :: "nat \<Rightarrow> hive \<Rightarrow> nat \<Rightarrow> (registry_world, software_record list) prog" where
  "read_subkeys i hv count =
     for_acc [0..<count] [] (\<lambda>j rs.
       bnd (read_subkey i j (hv_subkeys hv j)) (\<lambda>r. ret (case r of None \<Rightarrow> rs | Some d \<Rightarrow> rs @ [d])))"

text \<open>The body of the outer loop, with the records so far and \<open>available\<close>.\<close>

definition read_hive :: "nat \<Rightarrow> hive \<Rightarrow> inventory \<Rightarrow> (registry_world, inventory) prog" where
  "read_hive i hv st =
     try_except
       (andthen (open_key (Hive i) (hv_open hv))
         (try_finally
           (bnd (lift_result (hv_count hv)) (\<lambda>count.
            case int_of count of
              None \<Rightarrow> ret st
            | Some n \<Rightarrow> bnd (read_subkeys i hv (nat n)) (\<lambda>rs. ret (fst st @ rs, True))))
           (close_key (Hive i) (hv_close hv))))
       is_Exception (\<lambda>_. ret st)"

definition collect_windows_software :: "exn + hive list \<Rightarrow> (registry_world, inventory) prog" where
  "collect_windows_software registry =
     try_else (lift_result registry) is_Exception (\<lambda>_. ret ([], False))
       (\<lambda>hives. for_acc (enumerate 0 hives) ([], False) (\<lambda>(i, hv) st. read_hive i hv st))"

section \<open>macOS\<close>

text \<open>\<open>Path("/Applications").glob("*.app")\<close>: no match if the directory cannot be listed.\<close>

definition glob_applications :: "exn + string list \<Rightarrow> exn + string list" where
  "glob_applications listing =
     (case listing of
        Inl e \<Rightarrow> if is_OSError e then Inr [] else Inl e
      | Inr names \<Rightarrow> Inr (filter (\<lambda>n. ends_with n ''.app'') names))"

definition application_records :: "string list \<Rightarrow> software_record list" where
  "application_records names =
     map (\<lambda>n. \<lparr>sw_name = path_stem n, sw_version = None, sw_source = ''macos_applications''\<rparr>)
       (filter (\<lambda>n. clean_text (VStr (path_stem n)) \<noteq> None) names)"

text \<open>\<open>try: \<dots> except Exception: pass else: records.extend(\<dots>); available = True\<close>.\<close>

definition add_source :: "exn + software_record list \<Rightarrow> inventory \<Rightarrow> exn + inventory" where
  "add_source r st =
     (case r of
        Inl e \<Rightarrow> if is_Exception e then Inr st else Inl e
      | Inr rs \<Rightarrow> Inr (fst st @ rs, True))"

definition collect_macos_software :: "exn + string list \<Rightarrow> exn + string \<Rightarrow> exn + inventory" where
  "collect_macos_software listing brew =
     bind_result (add_source (map_sum id application_records (glob_applications listing)) ([], False)) (\<lambda>st.
     add_source (map_sum id parse_brew_records brew) st)"

section \<open>The collector and its cache\<close>

record software_sources =
  src_dpkg :: "exn + string"
  src_rpm :: "exn + string"
  src_registry :: "exn + hive list"
  src_applications :: "exn + string list"
  src_brew :: "exn + string"

definition no_handles :: registry_world where
  "no_handles = \<lparr>opened = [], stray = []\<rparr>"

definition take_inventory :: "string \<Rightarrow> software_sources \<Rightarrow> exn + inventory" where
  "take_inventory platform_name src =
     (if platform_name = ''linux'' then collect_linux_software (src_dpkg src) (src_rpm src)
      else if platform_name = ''win32'' then fst (collect_windows_software (src_registry src) no_handles)
      else if platform_name = ''darwin'' then collect_macos_software (src_applications src) (src_brew src)
      else Inr ([], False))"

record software_collector =
  sc_enabled :: bool
  sc_ttl :: rat
  sc_cache :: "(rat \<times> software_record list) option"

definition new_software_collector :: "bool \<Rightarrow> pyfloat \<Rightarrow> exn + software_collector" where
  "new_software_collector enabled ttl =
     (case ttl of
        Fin r \<Rightarrow>
          bind_result (require (0 \<le> r) (ValueError ''cache_ttl_sec must be finite and non-negative'')) (\<lambda>_.
          Inr \<lparr>sc_enabled = enabled, sc_ttl = r, sc_cache = None\<rparr>)
      | _ \<Rightarrow> Inl (ValueError ''cache_ttl_sec must be finite and non-negative''))"

definition software_payload :: "software_record list \<Rightarrow> collector_payload" where
  "software_payload rs =
     plain_payload (JObj [(''software'', JList (map (\<lambda>r.
       JObj [(''name'', JStr (sw_name r)), (''version'', opt_str (sw_version r)), (''source'', JStr (sw_source r))]) rs))])"

text \<open>The age is a difference of floats, rounded.\<close>

definition still_fresh :: "rat \<Rightarrow> rat \<Rightarrow> rat \<Rightarrow> bool" where
  "still_fresh now cached_at ttl \<longleftrightarrow> (let age = fadd now (- cached_at) in fle (Fin 0) age \<and> flt age (Fin ttl))"

text \<open>A call finds the clock at \<open>at_start\<close> and, if it takes an inventory, at \<open>at_end\<close> after it.\<close>

record software_call =
  at_start :: rat
  at_end :: rat
  sources :: software_sources

definition refresh_software ::
  "string \<Rightarrow> software_call \<Rightarrow> software_collector \<Rightarrow> (exn + collector_payload) \<times> software_collector" where
  "refresh_software platform_name call sc =
     (case take_inventory platform_name (sources call) of
        Inl e \<Rightarrow> (Inl e, sc)
      | Inr (rs, available) \<Rightarrow>
          if \<not> available
          then (Inr (partial_payload (JObj [(''software'', JList [])]) ''software_inventory_unavailable''
                  ''software inventory unavailable''), sc)
          else
            (let normal = normalize_records rs
             in (Inr (software_payload normal), sc\<lparr>sc_cache := Some (at_end call, normal)\<rparr>)))"

definition collect_software ::
  "string \<Rightarrow> software_call \<Rightarrow> software_collector \<Rightarrow> (exn + collector_payload) \<times> software_collector" where
  "collect_software platform_name call sc =
     (if \<not> sc_enabled sc then (Inr (disabled_payload (JObj [(''software'', JList [])])), sc)
      else
        (case sc_cache sc of
           Some (cached_at, rs) \<Rightarrow>
             if still_fresh (at_start call) cached_at (sc_ttl sc) then (Inr (software_payload rs), sc)
             else refresh_software platform_name call sc
         | None \<Rightarrow> refresh_software platform_name call sc))"

section \<open>The normal form, and what it keeps\<close>

text \<open>For each key, in order, the first record that has it.\<close>

definition first_of_each :: "software_record list \<Rightarrow> software_record list" where
  "first_of_each rs =
     map (\<lambda>k. the (find (\<lambda>r. software_key r = k) rs)) (sorted_list_of_set (software_key ` set rs))"

lemma map_of_set_default:
  "map_of (fold set_default rs unique) k =
    (case map_of unique k of Some r \<Rightarrow> Some r | None \<Rightarrow> find (\<lambda>r. software_key r = k) rs)"
proof (induction rs arbitrary: unique)
  case (Cons r rs)
  show ?case
  proof (cases "software_key r \<in> set (map fst unique)")
    case True
    then obtain s where "map_of unique (software_key r) = Some s"
      by (metis list.set_map map_of_eq_None_iff option.exhaust)
    moreover from True have "set_default r unique = unique" by (simp add: set_default_def)
    ultimately show ?thesis by (cases "software_key r = k") (auto simp: Cons.IH split: option.splits)
  next
    case False
    then have "map_of unique (software_key r) = None" by (simp add: map_of_eq_None_iff)
    moreover from False have "set_default r unique = unique @ [(software_key r, r)]" by (simp add: set_default_def)
    ultimately show ?thesis
      by (cases "software_key r = k") (auto simp: Cons.IH map_add_def split: option.splits)
  qed
qed (simp split: option.splits)

lemma keys_set_default:
  "distinct (map fst unique) \<Longrightarrow> distinct (map fst (fold set_default rs unique)) \<and>
    set (map fst (fold set_default rs unique)) = set (map fst unique) \<union> software_key ` set rs"
proof (induction rs arbitrary: unique)
  case (Cons r rs)
  show ?case
  proof (cases "software_key r \<in> set (map fst unique)")
    case True
    then have "set_default r unique = unique" by (simp add: set_default_def)
    moreover have "A \<union> insert k B = A \<union> B" if "k \<in> A" for k and A B :: "software_key set" using that by blast
    from this [OF True] have "set (map fst unique) \<union> software_key ` set (r # rs) = set (map fst unique) \<union> software_key ` set rs"
      by (simp only: list.set(2) image_insert)
    ultimately show ?thesis using Cons.IH [OF Cons.prems] by (simp only: fold_simps o_apply)
  next
    case False
    then have "set_default r unique = unique @ [(software_key r, r)]" by (simp add: set_default_def)
    with Cons.IH [of "unique @ [(software_key r, r)]"] Cons.prems False show ?thesis by auto
  qed
qed simp

lemma normalize_first_of_each: "normalize_records rs = first_of_each rs"
proof -
  let ?u = "fold set_default rs []"
  from keys_set_default [of "[]" rs]
  have "sort (map fst ?u) = sorted_list_of_set (software_key ` set rs)"
    by (metis Un_empty_left distinct.simps(1) list.set(1) list.simps(8) sorted_list_of_set_sort_remdups
        distinct_remdups_id)
  then show ?thesis
    by (simp add: normalize_records_def first_of_each_def Let_def map_of_set_default)
qed

lemma find_key: "r \<in> set rs \<Longrightarrow> \<exists>s. find (\<lambda>x. software_key x = software_key r) rs = Some s \<and> s \<in> set rs \<and>
    software_key s = software_key r"
  by (induction rs) auto

lemma keys_first_of_each: "map software_key (first_of_each rs) = sorted_list_of_set (software_key ` set rs)"
proof -
  have "software_key (the (find (\<lambda>r. software_key r = k) rs)) = k" if "k \<in> software_key ` set rs" for k
    using that find_key by fastforce
  then show ?thesis
    unfolding first_of_each_def map_map o_def by (intro map_idI) simp
qed

lemma set_first_of_each: "set (first_of_each rs) \<subseteq> set rs"
  using find_key by (fastforce simp: first_of_each_def)

lemma find_distinct_key:
  "distinct (map software_key rs) \<Longrightarrow> r \<in> set rs \<Longrightarrow> find (\<lambda>x. software_key x = software_key r) rs = Some r"
  by (induction rs) (auto simp: image_iff)

lemma first_of_each_idem: "first_of_each (first_of_each rs) = first_of_each rs"
proof -
  let ?n = "first_of_each rs"
  have keys: "software_key ` set ?n = software_key ` set rs"
    by (metis keys_first_of_each list.set_map set_sorted_list_of_set finite_imageI List.finite_set)
  have "distinct (map software_key ?n)" by (simp add: keys_first_of_each)
  then have "map (\<lambda>k. the (find (\<lambda>r. software_key r = k) ?n)) (map software_key ?n) = ?n"
    by (simp add: map_idI find_distinct_key)
  then show ?thesis
    unfolding first_of_each_def [of ?n] keys by (simp only: keys_first_of_each)
qed

text \<open>C25: The normal form of an inventory is the reference one: for each case-folded name, version and
  source, in strictly increasing order, the first record of the inventory that has them; and
  normalizing again changes nothing.\<close>

theorem inventory_normal_form:
  "normalize_records rs = first_of_each rs \<and>
    map software_key (normalize_records rs) = sorted_list_of_set (software_key ` set rs) \<and>
    set (normalize_records rs) \<subseteq> set rs \<and>
    normalize_records (normalize_records rs) = normalize_records rs"
  by (simp add: normalize_first_of_each keys_first_of_each set_first_of_each first_of_each_idem)

section \<open>What dpkg prints is read back\<close>

definition tab_line :: "string \<times> string \<Rightarrow> string" where
  "tab_line p = fst p @ CHR 0x09 # snd p"

definition plain_text :: "string \<Rightarrow> bool" where
  "plain_text s \<longleftrightarrow> s \<noteq> [] \<and> strip s = s \<and> list_all (\<lambda>c. \<not> line_break c \<and> c \<noteq> CHR 0x09) s"

lemma line_break_LF: "line_break CHR 0x0A" and not_line_break_TAB: "\<not> line_break CHR 0x09"
  by (simp_all add: line_break_def)

lemma split_lines_cons:
  assumes "list_all (\<lambda>c. \<not> line_break c) l"
  shows "split_lines (l @ CHR 0x0A # rest) = l # split_lines rest"
proof -
  have "takeWhile (\<lambda>c. \<not> line_break c) (l @ CHR 0x0A # rest) = l"
    "dropWhile (\<lambda>c. \<not> line_break c) (l @ CHR 0x0A # rest) = CHR 0x0A # rest"
    using assms by (auto simp: list_all_iff takeWhile_append2 dropWhile_append2 line_break_LF)
  then show ?thesis
    by (subst split_lines.simps) (simp add: Let_def after_break_def)
qed

lemma split_lines_concat:
  "list_all (list_all (\<lambda>c. \<not> line_break c)) ls \<Longrightarrow> split_lines (concat (map (\<lambda>l. l @ [CHR 0x0A]) ls)) = ls"
proof (induction ls)
  case (Cons l ls)
  then show ?case using split_lines_cons [of l "concat (map (\<lambda>l. l @ [CHR 0x0A]) ls)"] by simp
qed (simp add: split_lines.simps)

lemma split_char_one: "c \<notin> set s \<Longrightarrow> split_char c (s @ c # t) = s # split_char c t"
  by (induction s) auto

lemma plain_textD:
  assumes "plain_text s"
  shows "CHR 0x09 \<notin> set s" and "list_all (\<lambda>c. \<not> line_break c) s" and "clean_text (VStr s) = Some s"
proof -
  from assms have all: "\<forall>c\<in>set s. \<not> line_break c \<and> c \<noteq> CHR 0x09"
    unfolding plain_text_def list_all_iff by (rule conjunct2 [OF conjunct2])
  then show "CHR 0x09 \<notin> set s" by metis
  from all show "list_all (\<lambda>c. \<not> line_break c) s" by (simp add: list_all_iff)
  from assms show "clean_text (VStr s) = Some s" by (simp add: plain_text_def clean_text_def)
qed

lemma tab_record_line:
  assumes "plain_text n" and "plain_text v"
  shows "tab_record src (tab_line (n, v)) = Some \<lparr>sw_name = n, sw_version = Some v, sw_source = src\<rparr>"
proof -
  have "split_char CHR 0x09 (tab_line (n, v)) = [n, v]"
    unfolding tab_line_def fst_conv snd_conv
    by (simp only: split_char_one [OF plain_textD(1) [OF assms(1)]] split_char_none [OF plain_textD(1) [OF assms(2)]])
  then show ?thesis
    by (simp add: tab_record_def plain_textD(3) [OF assms(1)] plain_textD(3) [OF assms(2)])
qed

text \<open>What \<open>dpkg-query\<close> and \<open>rpm\<close> print in the format the agent asks for is read back: one record per
  line, with the name and version of the package, in their order.\<close>

theorem tab_listing_read_back:
  assumes "list_all (\<lambda>(n, v). plain_text n \<and> plain_text v) packages"
  shows "parse_tab_records (concat (map (\<lambda>p. tab_line p @ [CHR 0x0A]) packages)) src =
    map (\<lambda>(n, v). \<lparr>sw_name = n, sw_version = Some v, sw_source = src\<rparr>) packages"
proof -
  have "list_all (\<lambda>c. \<not> line_break c) (tab_line p)" if "plain_text (fst p)" "plain_text (snd p)" for p
    using plain_textD(2) [OF that(1)] plain_textD(2) [OF that(2)]
    by (simp add: tab_line_def not_line_break_TAB)
  with assms have "list_all (list_all (\<lambda>c. \<not> line_break c)) (map tab_line packages)"
    unfolding list_all_iff [of _ packages] list_all_iff [of _ "map _ _"] by (auto simp: case_prod_beta)
  from split_lines_concat [OF this]
  have "split_lines (concat (map (\<lambda>p. tab_line p @ [CHR 0x0A]) packages)) = map tab_line packages"
    by (simp add: o_def)
  moreover from assms have "List.map_filter (tab_record src) (map tab_line packages) =
      map (\<lambda>(n, v). \<lparr>sw_name = n, sw_version = Some v, sw_source = src\<rparr>) packages"
  proof (induction packages)
    case (Cons p packages)
    obtain n v where "p = (n, v)" by (cases p)
    with Cons show ?case by (simp add: map_filter_simps tab_record_line)
  qed (simp add: map_filter_simps)
  ultimately show ?thesis by (simp add: parse_tab_records_def)
qed

section \<open>The handles of the registry\<close>

text \<open>Code that leaves the handles as they were, unless the process is killed or never returns.\<close>

definition restores :: "(registry_world, 'a) prog \<Rightarrow> bool" where
  "restores m \<longleftrightarrow> (\<forall>w. case m w of (r, v) \<Rightarrow> v = w \<or> (\<exists>e. r = Inl e \<and> fatal e))"

named_theorems restores_intros \<open>composition rules for code that restores the handles\<close>

lemma restores_ret [restores_intros]: "restores (ret x)"
  by (simp add: restores_def ret_def)

lemma restores_lift [restores_intros]: "restores (lift_result r)"
  by (simp add: restores_def lift_result_def)

lemma restores_bnd [restores_intros]: "restores m \<Longrightarrow> (\<And>x. restores (f x)) \<Longrightarrow> restores (bnd m f)"
  unfolding restores_def bnd_def by (fastforce split: prod.splits sum.splits)

lemma restores_run:
  assumes "restores m"
  obtains x where "m w = (Inr x, w)" | e where "m w = (Inl e, w)" "\<not> fatal e" | e v where "m w = (Inl e, v)" "fatal e"
  using assms unfolding restores_def by (cases "m w"; cases "fst (m w)") (fastforce dest: spec [of _ w])+

lemma restores_andthen [restores_intros]: "restores m \<Longrightarrow> restores k \<Longrightarrow> restores (andthen m k)"
  by (simp add: andthen_def restores_bnd)

lemma restores_try_else [restores_intros]:
  "restores m \<Longrightarrow> (\<And>e. restores (h e)) \<Longrightarrow> (\<And>x. restores (k x)) \<Longrightarrow> restores (try_else m p h k)"
proof -
  assume m: "restores m" and h: "\<And>e. restores (h e)" and k: "\<And>x. restores (k x)"
  have "case try_else m p h k w of (r, v) \<Rightarrow> v = w \<or> (\<exists>e. r = Inl e \<and> fatal e)" for w
    using m
  proof (cases rule: restores_run [where w = w])
    case (1 x)
    with k [of x] show ?thesis by (simp add: try_else_def restores_def)
  next
    case (2 e)
    with h [of e] show ?thesis by (simp add: try_else_def restores_def)
  next
    case (3 e v)
    then show ?thesis by (simp add: try_else_def)
  qed
  then show "restores (try_else m p h k)" by (simp add: restores_def)
qed

lemma restores_try_except [restores_intros]:
  "restores m \<Longrightarrow> (\<And>e. restores (h e)) \<Longrightarrow> restores (try_except m p h)"
  by (simp add: try_except_def restores_try_else restores_ret)

lemma restores_for_acc [restores_intros]: "(\<And>x a. restores (f x a)) \<Longrightarrow> restores (for_acc xs a f)"
  by (induction xs arbitrary: a) (auto intro: restores_intros)

lemma close_opened:
  "(case close_key h r (w\<lparr>opened := h # opened w\<rparr>) of (s, v) \<Rightarrow> v = w)"
  by (cases r)
    (auto simp: close_key_def suppress_def try_except_def try_else_def andthen_def bnd_def modify_def lift_result_def
        ret_def split: prod.splits)

lemma restores_with_key [restores_intros]:
  assumes "restores m"
  shows "restores (andthen (open_key h r) (try_finally m (close_key h r')))"
proof -
  have "case andthen (open_key h (Inr ())) (try_finally m (close_key h r')) w of
      (s, v) \<Rightarrow> v = w \<or> (\<exists>e. s = Inl e \<and> fatal e)" for w
  proof -
    let ?w = "w\<lparr>opened := h # opened w\<rparr>"
    obtain s v where run: "m ?w = (s, v)" by (cases "m ?w")
    obtain s' v' where cl: "close_key h r' ?w = (s', v')" by (cases "close_key h r' ?w")
    from close_opened [where h = h and r = r' and w = w] cl have "v' = w" by simp
    show ?thesis
    proof (cases "\<exists>e. s = Inl e \<and> fatal e")
      case True
      with run show ?thesis
        by (auto simp: andthen_def bnd_def open_key_def modify_def lift_result_def try_finally_def)
    next
      case False
      with assms run have "v = ?w" by (auto simp: restores_def dest: spec [of _ ?w])
      with False run cl \<open>v' = w\<close> show ?thesis
        by (auto simp: andthen_def bnd_def open_key_def modify_def lift_result_def try_finally_def
            split: sum.splits)
    qed
  qed
  moreover have "andthen (open_key h (Inl e)) k w = (Inl e, w)" for e w and k :: "(registry_world, 'a) prog"
    by (simp add: andthen_def bnd_def open_key_def lift_result_def)
  ultimately show ?thesis
    unfolding restores_def by (cases r) simp_all
qed

lemma restores_registry_text [restores_intros]: "restores (registry_text r)"
  by (simp add: registry_text_def restores_intros)

lemma restores_subkey_record [restores_intros]: "restores (subkey_record sk)"
  unfolding subkey_record_def by (intro restores_intros) (auto split: option.splits intro: restores_intros)

lemma restores_read_subkey [restores_intros]: "restores (read_subkey i j sk)"
  unfolding read_subkey_def by (intro restores_intros)

lemma restores_read_hive [restores_intros]: "restores (read_hive i hv st)"
  unfolding read_hive_def read_subkeys_def
  by (intro restores_intros) (auto split: option.splits intro!: restores_intros)

text \<open>C15: The registry is left as it was found: every key the Windows inventory opened, it closed exactly
  once, and it closed no other, whichever calls raise, those of \<open>CloseKey\<close> and exceptions that end
  the inventory included, unless the process is killed or a call never
  returns.\<close>

theorem registry_handles_closed:
  assumes "collect_windows_software registry w = (r, v)" and "\<And>e. r = Inl e \<Longrightarrow> \<not> fatal e"
  shows "opened v = opened w \<and> stray v = stray w"
proof -
  have "restores (collect_windows_software registry)"
    unfolding collect_windows_software_def case_prod_beta by (intro restores_intros)
  with assms show ?thesis unfolding restores_def by (cases r) (auto dest: spec [of _ w])
qed

section \<open>The cache\<close>

definition after_calls :: "string \<Rightarrow> software_collector \<Rightarrow> software_call list \<Rightarrow> software_collector" where
  "after_calls platform_name sc calls = fold (\<lambda>c s. snd (collect_software platform_name c s)) calls sc"

lemma collect_keeps:
  "sc_enabled (snd (collect_software p c sc)) = sc_enabled sc" "sc_ttl (snd (collect_software p c sc)) = sc_ttl sc"
  by (auto simp: collect_software_def refresh_software_def Let_def split: option.splits sum.splits prod.splits)

text \<open>Where a cached inventory comes from.\<close>

definition cache_from :: "string \<Rightarrow> software_call set \<Rightarrow> software_collector \<Rightarrow> bool" where
  "cache_from p calls sc \<longleftrightarrow>
     (case sc_cache sc of
        None \<Rightarrow> True
      | Some (t, rs) \<Rightarrow> \<exists>c\<in>calls. \<exists>raw. take_inventory p (sources c) = Inr (raw, True) \<and> t = at_end c \<and>
          rs = normalize_records raw)"

lemma cache_from_step:
  assumes "cache_from p calls sc"
  shows "cache_from p (insert c calls) (snd (collect_software p c sc))"
  using assms unfolding cache_from_def
  by (fastforce simp: collect_software_def refresh_software_def Let_def split: option.splits sum.splits prod.splits if_splits)

lemma after_calls_from:
  assumes "sc_cache sc = None"
  shows "cache_from p (set calls) (after_calls p sc calls) \<and> sc_ttl (after_calls p sc calls) = sc_ttl sc"
proof (induction calls rule: rev_induct)
  case Nil
  with assms show ?case by (simp add: after_calls_def cache_from_def)
next
  case (snoc c calls)
  then show ?case using cache_from_step [of p "set calls" "after_calls p sc calls" c]
    by (simp add: after_calls_def collect_keeps)
qed


section \<open>Examples\<close>

lemma sample_plain: "plain_text ''bash''" "plain_text ''5.2''"
  by code_simp+

theorem tab_listing_read_back_witness:
  "parse_tab_records (concat (map (\<lambda>p. tab_line p @ [CHR 0x0A]) [(''bash'', ''5.2'')])) ''dpkg'' =
    [\<lparr>sw_name = ''bash'', sw_version = Some ''5.2'', sw_source = ''dpkg''\<rparr>]"
  using tab_listing_read_back [of "[(''bash'', ''5.2'')]" "''dpkg''"] by (simp add: sample_plain)

definition sample_subkey :: subkey where
  "sample_subkey = \<lparr>sk_name = Inr (), sk_open = Inr (), sk_display = Inr (VStr ''Tool''),
     sk_version = Inl (OSError ENOENT), sk_close = Inl (OSError (Io EACCES))\<rparr>"

definition sample_hive :: hive where
  "sample_hive = \<lparr>hv_open = Inr (), hv_count = Inr (VInt 1), hv_subkeys = (\<lambda>_. sample_subkey), hv_close = Inr ()\<rparr>"

lemma sample_registry:
  "fst (collect_windows_software (Inr [sample_hive]) no_handles) =
    Inr ([\<lparr>sw_name = ''Tool'', sw_version = None, sw_source = ''windows_registry''\<rparr>], True)"
  by code_simp

theorem registry_handles_closed_witness:
  "\<exists>v. collect_windows_software (Inr [sample_hive]) no_handles =
      (Inr ([\<lparr>sw_name = ''Tool'', sw_version = None, sw_source = ''windows_registry''\<rparr>], True), v) \<and> opened v = [] \<and> stray v = []"
proof -
  obtain r v where run: "collect_windows_software (Inr [sample_hive]) no_handles = (r, v)"
    by (cases "collect_windows_software (Inr [sample_hive]) no_handles")
  with sample_registry have "r = Inr ([\<lparr>sw_name = ''Tool'', sw_version = None, sw_source = ''windows_registry''\<rparr>], True)"
    by simp
  with registry_handles_closed [OF run] run show ?thesis by (simp add: no_handles_def)
qed

definition sample_call :: "rat \<Rightarrow> exn + string \<Rightarrow> software_call" where
  "sample_call t out = \<lparr>at_start = t, at_end = t, sources = \<lparr>src_dpkg = out, src_rpm = Inl (OSError ENOENT),
     src_registry = Inr [], src_applications = Inr [], src_brew = Inr []\<rparr>\<rparr>"

definition sample_collector :: software_collector where
  "sample_collector = \<lparr>sc_enabled = True, sc_ttl = 100, sc_cache = None\<rparr>"

lemma sample_collect:
  "fst (collect_software ''linux'' (sample_call 0 (Inr []))
     (after_calls ''linux'' sample_collector [sample_call 0 (Inl (OSError ENOENT))])) = Inr (software_payload [])"
  by (simp add: after_calls_def collect_software_def refresh_software_def sample_collector_def sample_call_def
      take_inventory_def collect_linux_software_def parse_tab_records_def map_filter_simps split_lines.simps
      normalize_records_def Let_def)


end
