(* ===== verification/Network.thy ===== *)
theory Network
  imports Values "HOL-Library.Multiset"
begin

text \<open>
  \<open>collectors/network.py\<close>: the network adapters that are up, the counters, and the connections.
  \<open>psutil\<close>'s answers are Python objects (\<^theory_text>\<open>Values\<close>), every attribute of which may raise.
\<close>

section \<open>Connections\<close>

definition str_of_int :: "int \<Rightarrow> exn + string" where
  "str_of_int i =
     (if int_digit_limit < length (dec (nat \<bar>i\<bar>)) then Inl (ValueError ''int too large'') else Inr (int_str i))"

definition enum_name :: "pyval \<Rightarrow> exn + string" where
  "enum_name v =
     (case attribute_or v ''name'' VNone of
        Inl e \<Rightarrow> if is_Exception e then Inr ''UNKNOWN'' else Inl e
      | Inr (VStr s) \<Rightarrow> Inr s
      | Inr _ \<Rightarrow>
          (case v of
             VNone \<Rightarrow> Inr ''None''
           | VStr s \<Rightarrow> Inr s
           | VInt i \<Rightarrow> str_of_int i
           | VBool b \<Rightarrow> Inr (if b then ''True'' else ''False'')
           | _ \<Rightarrow> Inr ''UNKNOWN''))"

fun no_address :: "exn \<Rightarrow> bool" where
  "no_address AttributeError = True"
| "no_address (TypeError _) = True"
| "no_address (OtherError n) = (n = ''IndexError'')"
| "no_address _ = False"

text \<open>The two parts of an address; \<open>None\<close> if \<open>_format_address\<close> returns before it has them.\<close>

definition address_parts :: "pyval \<Rightarrow> exn + (pyval \<times> pyval) option" where
  "address_parts v =
     (case v of
        VNone \<Rightarrow> Inr None
      | VSeq xs \<Rightarrow> if length xs < 2 then Inr None else Inr (Some (xs ! 0, xs ! 1))
      | _ \<Rightarrow>
          (case bind_result (attribute v ''ip'') (\<lambda>host. bind_result (attribute v ''port'') (\<lambda>port. Inr (host, port))) of
             Inl e \<Rightarrow> if no_address e then Inr None else Inl e
           | Inr parts \<Rightarrow> Inr (Some parts)))"

definition format_address :: "pyval \<Rightarrow> exn + string option" where
  "format_address v =
     bind_result (address_parts v) (\<lambda>parts.
     case parts of
       Some (VStr host, VInt port) \<Rightarrow>
         bind_result (str_of_int port) (\<lambda>p.
         Inr (Some (if CHR '':'' \<in> set host then ''['' @ host @ '']:'' @ p else host @ '':'' @ p)))
     | _ \<Rightarrow> Inr None)"

text \<open>The record of a connection, or what reading it raises first.\<close>

definition read_connection :: "pyval \<Rightarrow> exn + dict" where
  "read_connection c =
     bind_result (attribute c ''fd'') (\<lambda>fd.
     bind_result (bind_result (attribute c ''family'') enum_name) (\<lambda>family.
     bind_result (bind_result (attribute c ''type'') enum_name) (\<lambda>kind.
     bind_result (bind_result (attribute c ''laddr'') format_address) (\<lambda>laddr.
     bind_result (bind_result (attribute c ''raddr'') format_address) (\<lambda>raddr.
     bind_result (attribute c ''status'') (\<lambda>status.
     bind_result (attribute c ''pid'') (\<lambda>pid.
     Inr [(''fd'', optional_int fd), (''family'', JStr family), (''type'', JStr kind),
          (''laddr'', opt_str laddr), (''raddr'', opt_str raddr), (''status'', optional_string status),
          (''pid'', optional_int pid)])))))))"

definition connection_record :: "pyval \<Rightarrow> exn + dict option" where
  "connection_record c =
     (case read_connection c of
        Inl e \<Rightarrow> if is_Exception e then Inr None else Inl e
      | Inr d \<Rightarrow> Inr (Some d))"

text \<open>\<open>_connection_sort_key\<close>: tuples compare from the left.\<close>

fun text_or_empty :: "json option \<Rightarrow> string" where
  "text_or_empty (Some (JStr s)) = s"
| "text_or_empty _ = []"

fun int_or_minus_one :: "json option \<Rightarrow> int" where
  "int_or_minus_one (Some (JInt i)) = i"
| "int_or_minus_one _ = - 1"

type_synonym connection_key = "string \<times> string \<times> string \<times> string \<times> string \<times> int \<times> int"

definition connection_key :: "dict \<Rightarrow> connection_key" where
  "connection_key d =
     (casefold (text_or_empty (dict_get d ''family'')), casefold (text_or_empty (dict_get d ''type'')),
      text_or_empty (dict_get d ''laddr''), text_or_empty (dict_get d ''raddr''), text_or_empty (dict_get d ''status''),
      int_or_minus_one (dict_get d ''pid''), int_or_minus_one (dict_get d ''fd''))"

fun connection_records :: "pyval list \<Rightarrow> exn + dict list" where
  "connection_records [] = Inr []"
| "connection_records (c # cs) =
     bind_result (connection_record c) (\<lambda>r.
     bind_result (connection_records cs) (\<lambda>rs.
     Inr (case r of None \<Rightarrow> rs | Some d \<Rightarrow> d # rs)))"

section \<open>Adapters\<close>

text \<open>
  What \<open>net_if_addrs\<close> and \<open>net_if_stats\<close> give: the addresses of each interface in order, and its
  statistics. Families are compared as values; \<open>link_family\<close> is \<open>None\<close> where \<open>psutil\<close> has no
  \<open>AF_LINK\<close>, so that no family equals it.
\<close>

record network_view =
  if_addrs :: "exn + (string \<times> pyval list) list"
  if_stats :: "exn + (string \<times> pyval) list"
  af_inet :: pyval
  link_family :: "pyval option"
  io_counters :: "exn + pyval"
  net_connections :: "exn + pyval list"

definition take_address :: "bool \<Rightarrow> pyval \<Rightarrow> json \<Rightarrow> exn + json" where
  "take_address matches address found =
     (if matches \<and> found = JNull then bind_result (attribute address ''address'') (\<lambda>a. Inr (optional_string a)) else Inr found)"

fun read_addresses :: "network_view \<Rightarrow> pyval list \<Rightarrow> json \<Rightarrow> json \<Rightarrow> exn + json \<times> json" where
  "read_addresses nv [] ipv4 mac = Inr (ipv4, mac)"
| "read_addresses nv (a # as) ipv4 mac =
     bind_result (attribute a ''family'') (\<lambda>family.
     bind_result (take_address (family = af_inet nv) a ipv4) (\<lambda>ipv4.
     bind_result (take_address (Some family = link_family nv) a mac) (\<lambda>mac.
     read_addresses nv as ipv4 mac)))"

definition adapter_record :: "network_view \<Rightarrow> string \<Rightarrow> pyval list \<Rightarrow> pyval \<Rightarrow> exn + dict option" where
  "adapter_record nv interface addresses stats =
     bind_result (attribute stats ''isup'') (\<lambda>up.
     if up \<noteq> VBool True then Inr None
     else
       bind_result (read_addresses nv addresses JNull JNull) (\<lambda>(ipv4, mac).
       bind_result (attribute stats ''speed'') (\<lambda>speed.
       bind_result (attribute stats ''mtu'') (\<lambda>mtu.
       Inr (Some [(''interface'', JStr interface), (''ipv4'', ipv4), (''mac'', mac),
                  (''speed_mb'', optional_number speed), (''mtu'', optional_number mtu)])))))"

fun adapter_records :: "network_view \<Rightarrow> (string \<times> pyval) list \<Rightarrow> (string \<times> pyval list) list \<Rightarrow> exn + dict list" where
  "adapter_records nv stats [] = Inr []"
| "adapter_records nv stats ((interface, as) # xs) =
     bind_result (case map_of stats interface of None \<Rightarrow> Inr None | Some s \<Rightarrow> adapter_record nv interface as s) (\<lambda>r.
     bind_result (adapter_records nv stats xs) (\<lambda>rs.
     Inr (case r of None \<Rightarrow> rs | Some d \<Rightarrow> d # rs)))"

definition collect_adapters :: "network_view \<Rightarrow> exn + dict list" where
  "collect_adapters nv =
     bind_result (if_addrs nv) (\<lambda>addrs.
     bind_result (if_stats nv) (\<lambda>stats.
     bind_result (adapter_records nv stats addrs) (\<lambda>rs.
     Inr (sort_key (\<lambda>d. casefold (text_or_empty (dict_get d ''interface''))) rs))))"

fun read_counters :: "pyval \<Rightarrow> string list \<Rightarrow> exn + dict" where
  "read_counters c [] = Inr []"
| "read_counters c (k # ks) =
     bind_result (attribute c k) (\<lambda>v. bind_result (read_counters c ks) (\<lambda>d. Inr ((k, optional_number v) # d)))"

definition collect_io :: "network_view \<Rightarrow> exn + dict" where
  "collect_io nv =
     bind_result (io_counters nv) (\<lambda>c.
     if c = VNone then Inr []
     else read_counters c [''bytes_sent'', ''bytes_recv'', ''packets_sent'', ''packets_recv'', ''errin'', ''errout''])"

section \<open>The collector\<close>

definition network_data :: "dict list \<Rightarrow> dict list \<Rightarrow> dict \<Rightarrow> json" where
  "network_data adapters connections io =
     JObj [(''network'', JObj [(''adapters'', JList (map JObj adapters)),
       (''connections'', JList (map JObj connections)), (''io'', JObj io)])]"

definition collect_network :: "bool \<Rightarrow> network_view \<Rightarrow> exn + collector_payload" where
  "collect_network enabled nv =
     (if \<not> enabled then Inr (disabled_payload (network_data [] [] []))
      else
        bind_result (collect_adapters nv) (\<lambda>adapters.
        bind_result (collect_io nv) (\<lambda>io.
        case bind_result (net_connections nv) connection_records of
          Inl e \<Rightarrow>
            if is_PermissionError e \<or> e = access_denied
            then Inr (partial_payload (network_data adapters [] io) ''network_connections_denied''
                   ''network connections unavailable'')
            else Inl e
        | Inr rs \<Rightarrow> Inr (plain_payload (network_data adapters (sort_key connection_key rs) io)))))"

section \<open>Properties\<close>

text \<open>A connection whose record can be read, and the records of all that can.\<close>

definition readable_connections :: "pyval list \<Rightarrow> dict list" where
  "readable_connections cs =
     List.map_filter (\<lambda>c. case read_connection c of Inl _ \<Rightarrow> None | Inr d \<Rightarrow> Some d) cs"

definition breaks :: "pyval \<Rightarrow> bool" where
  "breaks c \<longleftrightarrow> (case read_connection c of Inl e \<Rightarrow> \<not> is_Exception e | Inr _ \<Rightarrow> False)"

lemma connection_records_readable:
  "list_all (\<lambda>c. \<not> breaks c) cs \<Longrightarrow> connection_records cs = Inr (readable_connections cs)"
  by (induction cs)
    (auto simp: readable_connections_def map_filter_simps connection_record_def breaks_def split: sum.splits)

text \<open>The interfaces that are up, and those of the records.\<close>

definition is_up :: "(string \<times> pyval) list \<Rightarrow> string \<Rightarrow> bool" where
  "is_up stats interface \<longleftrightarrow>
     (case map_of stats interface of None \<Rightarrow> False | Some s \<Rightarrow> attribute s ''isup'' = Inr (VBool True))"

definition adapter_names :: "dict list \<Rightarrow> string multiset" where
  "adapter_names rs = mset (map (\<lambda>d. text_or_empty (dict_get d ''interface'')) rs)"

lemma adapter_recordD:
  "adapter_record nv i as s = Inr r \<Longrightarrow>
    (case r of None \<Rightarrow> attribute s ''isup'' \<noteq> Inr (VBool True)
     | Some d \<Rightarrow> attribute s ''isup'' = Inr (VBool True) \<and> dict_get d ''interface'' = Some (JStr i))"
  by (auto simp: adapter_record_def bind_result_Inr dict_get_def split: if_splits)

lemma adapter_records_up:
  "adapter_records nv stats addrs = Inr rs \<Longrightarrow>
    adapter_names rs = mset (map fst (filter (\<lambda>(i, _). is_up stats i) addrs))"
proof (induction nv stats addrs arbitrary: rs rule: adapter_records.induct)
  case (2 nv stats interface as xs)
  then obtain r rs' where
    r: "(case map_of stats interface of None \<Rightarrow> Inr None | Some s \<Rightarrow> adapter_record nv interface as s) = Inr r"
    and rs': "adapter_records nv stats xs = Inr rs'" "rs = (case r of None \<Rightarrow> rs' | Some d \<Rightarrow> d # rs')"
    by (auto simp: bind_result_Inr)
  from "2.IH" [OF rs'(1)] r rs'(2) show ?case
    by (auto simp: is_up_def adapter_names_def split: option.splits dest: adapter_recordD)
qed (simp add: adapter_names_def)

lemma adapter_names_sort: "adapter_names (sort_key f rs) = adapter_names rs"
  by (simp only: adapter_names_def mset_map mset_sort)

text \<open>C23: What can be read is reported: every connection that can be read, once, sorted by family, type,
  addresses, status, process and descriptor, whatever the attributes of the others raise; and of the
  adapters exactly those that are up, each once.\<close>

theorem network_isolates:
  assumes "collect_adapters nv = Inr adapters" and "collect_io nv = Inr io"
    and "net_connections nv = Inr cs" and "list_all (\<lambda>c. \<not> breaks c) cs"
    and "if_addrs nv = Inr addrs" and "if_stats nv = Inr stats"
  shows "(\<exists>rs. collect_network True nv = Inr (plain_payload (network_data adapters rs io)) \<and>
      mset rs = mset (readable_connections cs) \<and> sorted (map connection_key rs)) \<and>
    adapter_names adapters = mset (map fst (filter (\<lambda>(i, _). is_up stats i) addrs))"
proof
  show "\<exists>rs. collect_network True nv = Inr (plain_payload (network_data adapters rs io)) \<and>
      mset rs = mset (readable_connections cs) \<and> sorted (map connection_key rs)"
  proof (intro exI [of _ "sort_key connection_key (readable_connections cs)"] conjI)
    have eq: "bind_result (net_connections nv) connection_records = Inr (readable_connections cs)"
      by (simp only: assms(3) bind_result_simps connection_records_readable [OF assms(4)])
    show "collect_network True nv =
        Inr (plain_payload (network_data adapters (sort_key connection_key (readable_connections cs)) io))"
      unfolding collect_network_def assms(1,2) bind_result_simps eq by (simp only: not_True_eq_False if_False sum.case)
  qed (rule mset_sort, rule sorted_sort_key)
  from assms(1,5,6) obtain rs where "adapter_records nv stats addrs = Inr rs"
    and "adapters = sort_key (\<lambda>d. casefold (text_or_empty (dict_get d ''interface''))) rs"
    by (auto simp: collect_adapters_def bind_result_Inr)
  then show "adapter_names adapters = mset (map fst (filter (\<lambda>(i, _). is_up stats i) addrs))"
    by (simp only: adapter_names_sort adapter_records_up)
qed

section \<open>An example\<close>

definition sample_connection :: "exn + pyval \<Rightarrow> pyval" where
  "sample_connection pid =
     VObj [(''fd'', Inr (VInt 3)), (''family'', Inr (VInt 2)), (''type'', Inr (VInt 1)),
       (''laddr'', Inr (VSeq [VStr ''::1'', VInt 80])), (''raddr'', Inr (VSeq [])), (''status'', Inr (VStr ''LISTEN'')),
       (''pid'', pid)]"

definition sample_addrs :: "(string \<times> pyval list) list" where
  "sample_addrs = [(''lo'', [VObj [(''family'', Inr (VInt 2)), (''address'', Inr (VStr ''127.0.0.1''))]]), (''eth0'', [])]"

definition sample_stats :: "(string \<times> pyval) list" where
  "sample_stats = [(''lo'', VObj [(''isup'', Inr (VBool True)), (''speed'', Inr (VInt 0)), (''mtu'', Inr (VInt 65536))])]"

definition sample_view :: network_view where
  "sample_view =
     \<lparr>if_addrs = Inr sample_addrs, if_stats = Inr sample_stats,
      af_inet = VInt 2, link_family = Some (VInt 17), io_counters = Inr VNone,
      net_connections = Inr [sample_connection (Inl (RuntimeError ''gone'')), sample_connection (Inr (VInt 7))]\<rparr>"

lemma sample_adapters:
  "collect_adapters sample_view = Inr [[(''interface'', JStr ''lo''), (''ipv4'', JStr ''127.0.0.1''), (''mac'', JNull),
     (''speed_mb'', JInt 0), (''mtu'', JInt 65536)]]"
  "collect_io sample_view = Inr []"
  by (simp_all add: collect_adapters_def collect_io_def sample_view_def sample_addrs_def sample_stats_def adapter_record_def
      take_address_def attribute_def optional_string_def opt_str_def optional_number_def)

lemma sample_read:
  "read_connection (sample_connection (Inl (RuntimeError ''gone''))) = Inl (RuntimeError ''gone'')"
  "\<exists>d. read_connection (sample_connection (Inr (VInt 7))) = Inr d"
  by code_simp
    (simp add: read_connection_def sample_connection_def attribute_def attribute_or_def enum_name_def format_address_def
      address_parts_def str_of_int_def int_digit_limit_def dec.simps)

theorem network_isolates_witness:
  "\<exists>adapters rs. collect_network True sample_view = Inr (plain_payload (network_data adapters rs [])) \<and>
    adapter_names adapters = {#''lo''#} \<and> size rs = 1"
proof -
  let ?cs = "[sample_connection (Inl (RuntimeError ''gone'')), sample_connection (Inr (VInt 7))]"
  let ?ad = "[(''interface'', JStr ''lo''), (''ipv4'', JStr ''127.0.0.1''), (''mac'', JNull),
     (''speed_mb'', JInt 0), (''mtu'', JInt 65536)]"
  have "list_all (\<lambda>c. \<not> breaks c) ?cs" and one: "length (readable_connections ?cs) = 1"
    using sample_read by (auto simp: breaks_def readable_connections_def map_filter_simps)
  moreover have "if_addrs sample_view = Inr sample_addrs" "if_stats sample_view = Inr sample_stats"
    "net_connections sample_view = Inr ?cs" by (simp_all add: sample_view_def)
  ultimately obtain rs where "collect_network True sample_view = Inr (plain_payload (network_data [?ad] rs []))"
    and "mset rs = mset (readable_connections ?cs)"
    and "adapter_names [?ad] = mset (map fst (filter (\<lambda>(i, _). is_up sample_stats i) sample_addrs))"
    using network_isolates [OF sample_adapters] by blast
  moreover from one this(2) have "size rs = 1" by (metis size_mset)
  moreover have "adapter_names [?ad] = {#''lo''#}" by (simp add: adapter_names_def dict_get_def)
  ultimately show ?thesis by blast
qed

end
