(* ===== verification/Resources.thy ===== *)
theory Resources
  imports Values
begin

text \<open>
  \<open>collectors/resources.py\<close>: processors, memory and disks. The answers of \<open>psutil\<close> have the types the
  protocols of the source declare; the floats are finite. \<open>sum\<close> and \<open>round\<close> are Python's: a
  compensated sum, and the closest float of the closest decimal.
\<close>

section \<open>Floats\<close>

text \<open>\<open>sum\<close> of floats keeps the rounding errors in a second float (Neumaier's algorithm).\<close>

definition sum_step :: "rat \<times> rat \<Rightarrow> rat \<Rightarrow> rat \<times> rat" where
  "sum_step s x =
     (case s of (hi, lo) \<Rightarrow>
        let t = nearest (hi + x);
            err = (if \<bar>x\<bar> \<le> \<bar>hi\<bar> then nearest (nearest (hi - t) + x) else nearest (nearest (x - t) + hi))
        in (t, nearest (lo + err)))"

definition float_sum :: "rat list \<Rightarrow> rat" where
  "float_sum xs =
     (case xs of
        [] \<Rightarrow> 0
      | x # ys \<Rightarrow> (case foldl sum_step (x, 0) ys of (hi, lo) \<Rightarrow> if lo = 0 then hi else nearest (hi + lo)))"

definition round2 :: "rat \<Rightarrow> rat" where
  "round2 x = nearest (of_int (half_even (x * 100)) / 100)"

text \<open>\<open>round(n / 1024**3, 2)\<close>: the quotient of integers is the closest float, or raises if there is none.\<close>

definition gigabytes :: "int \<Rightarrow> exn + json" where
  "gigabytes n =
     (case round64 (of_int n / 1073741824) of
        Fin r \<Rightarrow> Inr (json_float (Fin (round2 r)))
      | _ \<Rightarrow> Inl OverflowError)"

section \<open>The collector\<close>

record cpu_view =
  cpu_physical :: "exn + int option"
  cpu_logical :: "exn + int option"
  cpu_percent :: "exn + rat list"
  cpu_freq :: "(exn + rat option) option"
  load_average :: "(exn + rat list) option"

record memory_view =
  mem_total :: int
  mem_available :: int
  mem_used :: int
  mem_percent :: rat

record swap_view =
  swap_total :: int
  swap_used :: int
  swap_percent :: rat

record disk_usage =
  disk_total :: int
  disk_used :: int
  disk_free :: int
  disk_percent :: rat

record partition =
  part_device :: string
  part_mountpoint :: string
  part_fstype :: string
  part_usage :: "exn + disk_usage"

record resource_view =
  view_cpu :: cpu_view
  view_memory :: "exn + memory_view"
  view_swap :: "exn + swap_view"
  view_partitions :: "exn + partition list"

definition new_resource_collector :: "pyfloat \<Rightarrow> exn + rat" where
  "new_resource_collector sample =
     (case sample of
        Fin r \<Rightarrow> if r < 0 then Inl (ValueError ''cpu_sample_sec must be finite and non-negative'') else Inr r
      | _ \<Rightarrow> Inl (ValueError ''cpu_sample_sec must be finite and non-negative''))"

text \<open>\<open>x or y\<close> of an integer that may be \<open>None\<close>: zero is false.\<close>

definition or_else :: "int option \<Rightarrow> int \<Rightarrow> int" where
  "or_else v y = (case v of None \<Rightarrow> y | Some n \<Rightarrow> if n = 0 then y else n)"

definition float_json :: "rat \<Rightarrow> json" where
  "float_json r = json_float (Fin r)"

definition percent_total :: "rat list \<Rightarrow> rat" where
  "percent_total ps = (if ps = [] then 0 else round2 (nearest (float_sum ps / of_nat (length ps))))"

definition collect_cpu :: "cpu_view \<Rightarrow> exn + dict" where
  "collect_cpu v =
     bind_result (cpu_physical v) (\<lambda>physical.
     bind_result (cpu_logical v) (\<lambda>logical.
     bind_result (cpu_percent v) (\<lambda>ps.
     bind_result (case cpu_freq v of None \<Rightarrow> Inr None | Some r \<Rightarrow> r) (\<lambda>freq.
     bind_result (case load_average v of None \<Rightarrow> Inr JNull
                  | Some r \<Rightarrow> bind_result r (\<lambda>ls. Inr (JList (map float_json ls)))) (\<lambda>load.
     Inr [(''physical_cores'', JInt (max 0 (or_else physical 0))),
          (''logical_cores'', JInt (max 0 (or_else logical (int (length ps))))),
          (''percent_total'', float_json (percent_total ps)),
          (''percent_per'', JList (map float_json ps)),
          (''freq_mhz'', case freq of None \<Rightarrow> JNull | Some f \<Rightarrow> float_json f),
          (''load_avg'', load)])))))"

definition collect_memory :: "resource_view \<Rightarrow> exn + dict" where
  "collect_memory v =
     bind_result (view_memory v) (\<lambda>m.
     bind_result (view_swap v) (\<lambda>s.
     Inr [(''ram'', JObj [(''total_kb'', JInt (mem_total m div 1024)), (''available_kb'', JInt (mem_available m div 1024)),
            (''used_kb'', JInt (mem_used m div 1024)), (''percent'', float_json (mem_percent m))]),
          (''swap'', JObj [(''total_kb'', JInt (swap_total s div 1024)), (''used_kb'', JInt (swap_used s div 1024)),
            (''percent'', float_json (swap_percent s))])]))"

definition disk_record :: "partition \<Rightarrow> disk_usage \<Rightarrow> exn + dict" where
  "disk_record p u =
     bind_result (gigabytes (disk_total u)) (\<lambda>size.
     bind_result (gigabytes (disk_used u)) (\<lambda>used.
     bind_result (gigabytes (disk_free u)) (\<lambda>free.
     Inr [(''device'', JStr (part_device p)), (''mountpoint'', JStr (part_mountpoint p)), (''fstype'', JStr (part_fstype p)),
          (''total_gb'', size), (''used_gb'', used), (''free_gb'', free), (''percent'', float_json (disk_percent u))])))"

fun collect_disk_list :: "partition list \<Rightarrow> dict list \<Rightarrow> bool \<Rightarrow> exn + dict list \<times> bool" where
  "collect_disk_list [] disks partial = Inr (disks, partial)"
| "collect_disk_list (p # ps) disks partial =
     (case part_usage p of
        Inl e \<Rightarrow> if is_OSError e then collect_disk_list ps disks True else Inl e
      | Inr u \<Rightarrow> bind_result (disk_record p u) (\<lambda>d. collect_disk_list ps (disks @ [d]) partial))"

definition collect_disks :: "resource_view \<Rightarrow> exn + dict list \<times> bool" where
  "collect_disks v = bind_result (view_partitions v) (\<lambda>ps. collect_disk_list ps [] False)"

definition collect_resources :: "resource_view \<Rightarrow> exn + collector_payload" where
  "collect_resources v =
     bind_result (collect_cpu (view_cpu v)) (\<lambda>cpu.
     bind_result (collect_memory v) (\<lambda>memory.
     bind_result (collect_disks v) (\<lambda>(disks, partial).
     let data = JObj [(''cpu'', JObj cpu), (''memory'', JObj memory), (''disks'', JList (map JObj disks))]
     in Inr (if partial then partial_payload data ''disk_access_partial'' ''some disks unavailable''
             else plain_payload data))))"

section \<open>Disks that cannot be read\<close>

definition unreadable :: "partition \<Rightarrow> bool" where
  "unreadable p \<longleftrightarrow> (case part_usage p of Inl _ \<Rightarrow> True | Inr _ \<Rightarrow> False)"

definition usage_of :: "partition \<Rightarrow> disk_usage" where
  "usage_of p = (case part_usage p of Inr u \<Rightarrow> u | Inl _ \<Rightarrow> \<lparr>disk_total = 0, disk_used = 0, disk_free = 0, disk_percent = 0\<rparr>)"

lemma disk_list_result:
  "collect_disk_list ps disks partial = Inr (ds, b) \<Longrightarrow>
    (\<exists>new. ds = disks @ new \<and> map Inr new = map (\<lambda>p. disk_record p (usage_of p)) (filter (\<lambda>p. \<not> unreadable p) ps)) \<and>
    (b \<longleftrightarrow> partial \<or> list_ex unreadable ps)"
proof (induction ps disks partial rule: collect_disk_list.induct)
  case (2 p ps disks partial)
  show ?case
  proof (cases "part_usage p")
    case (Inl e)
    with "2.prems" "2.IH"(1) show ?thesis by (auto simp: unreadable_def split: if_splits)
  next
    case (Inr u)
    with "2.prems" obtain d where d: "disk_record p u = Inr d"
      and "collect_disk_list ps (disks @ [d]) partial = Inr (ds, b)" by (auto simp: bind_result_Inr)
    from "2.IH"(2) [OF Inr this(2)] obtain new where
      "ds = disks @ d # new" "map Inr new = map (\<lambda>p. disk_record p (usage_of p)) (filter (\<lambda>p. \<not> unreadable p) ps)"
      "b \<longleftrightarrow> partial \<or> list_ex unreadable ps" by auto
    moreover from Inr have "\<not> unreadable p" "usage_of p = u" by (simp_all add: unreadable_def usage_of_def)
    ultimately show ?thesis using d by (intro conjI exI [of _ "d # new"]) simp_all
  qed
qed simp

text \<open>Disks are isolated from each other: the result has one record per partition whose usage can be
  read, in the order of the partitions, and it is partial exactly if some partition cannot be read.\<close>

theorem disks_isolated:
  assumes "collect_resources v = Inr p" and "view_partitions v = Inr ps"
  shows "\<exists>cpu memory disks. cp_data p = JObj [(''cpu'', cpu), (''memory'', memory), (''disks'', JList (map JObj disks))] \<and>
    map Inr disks = map (\<lambda>q. disk_record q (usage_of q)) (filter (\<lambda>q. \<not> unreadable q) ps) \<and>
    cp_status p = (if list_ex unreadable ps then CPartial else CSuccess)"
proof -
  from assms(1) obtain cpu where cpu: "collect_cpu (view_cpu v) = Inr cpu"
    by (cases "collect_cpu (view_cpu v)") (auto simp: collect_resources_def)
  from assms(1) cpu obtain memory where memory: "collect_memory v = Inr memory"
    by (cases "collect_memory v") (auto simp: collect_resources_def)
  from assms(1) cpu memory obtain disks partial where "collect_disks v = Inr (disks, partial)"
    by (cases "collect_disks v") (auto simp: collect_resources_def)
  moreover from assms(1) cpu memory this have
    p: "p = (let data = JObj [(''cpu'', JObj cpu), (''memory'', JObj memory), (''disks'', JList (map JObj disks))]
     in if partial then partial_payload data ''disk_access_partial'' ''some disks unavailable'' else plain_payload data)"
    by (simp add: collect_resources_def Let_def)
  ultimately have disks: "collect_disk_list ps [] False = Inr (disks, partial)"
    using assms(2) by (simp add: collect_disks_def)
  from p disk_list_result [OF disks] show ?thesis
    by (intro exI [of _ "JObj cpu"] exI [of _ "JObj memory"] exI [of _ disks])
      (auto simp: Let_def partial_payload_def plain_payload_def)
qed

section \<open>An example\<close>

definition sample_resources :: resource_view where
  "sample_resources =
     \<lparr>view_cpu = \<lparr>cpu_physical = Inr None, cpu_logical = Inr (Some 2), cpu_percent = Inr [], cpu_freq = None, load_average = None\<rparr>,
      view_memory = Inr \<lparr>mem_total = 2048, mem_available = 1024, mem_used = 1024, mem_percent = 0\<rparr>,
      view_swap = Inr \<lparr>swap_total = 0, swap_used = 0, swap_percent = 0\<rparr>,
      view_partitions = Inr
        [\<lparr>part_device = ''/dev/sda'', part_mountpoint = ''/'', part_fstype = ''ext4'',
           part_usage = Inr \<lparr>disk_total = 0, disk_used = 0, disk_free = 0, disk_percent = 0\<rparr>\<rparr>,
         \<lparr>part_device = ''/dev/sdb'', part_mountpoint = ''/m'', part_fstype = ''ext4'',
           part_usage = Inl (OSError (Io EACCES))\<rparr>]\<rparr>"

lemma sample_gigabytes: "gigabytes 0 = Inr (json_float (Fin 0))"
  by (simp add: gigabytes_def round64_def nearest_def round2_def half_even_def)

lemma sample_resources_read:
  "\<exists>p. collect_resources sample_resources = Inr p"
  by (simp add: collect_resources_def sample_resources_def collect_cpu_def collect_memory_def collect_disks_def
      disk_record_def sample_gigabytes Let_def)

theorem disks_isolated_witness:
  "\<exists>p cpu memory d. collect_resources sample_resources = Inr p \<and> cp_status p = CPartial \<and>
    cp_data p = JObj [(''cpu'', cpu), (''memory'', memory), (''disks'', JList [JObj d])]"
proof -
  from sample_resources_read obtain p where p: "collect_resources sample_resources = Inr p" by blast
  obtain ps where ps: "view_partitions sample_resources = Inr ps" "list_ex unreadable ps"
    "length (filter (\<lambda>q. \<not> unreadable q) ps) = 1"
    by (simp add: sample_resources_def unreadable_def)
  from disks_isolated [OF p ps(1)] obtain cpu memory disks where
    "cp_data p = JObj [(''cpu'', cpu), (''memory'', memory), (''disks'', JList (map JObj disks))]"
    and len: "map Inr disks = map (\<lambda>q. disk_record q (usage_of q)) (filter (\<lambda>q. \<not> unreadable q) ps)"
    and "cp_status p = CPartial" using ps(2) by auto
  moreover from arg_cong [OF len, of length] ps(3) obtain d where "disks = [d]" by (auto simp: length_Suc_conv)
  ultimately show ?thesis using p by auto
qed

end
