(* ===== verification/Host_Collectors.thy ===== *)
theory Host_Collectors
  imports Values Config "HOL-Library.Word"
begin

text \<open>
  The small collectors: \<open>collectors/users.py\<close>, \<open>collectors/system.py\<close>, \<open>collectors/window.py\<close> and
  \<open>collectors/screenshot.py\<close>. What the operating system, a command or Pillow answers is a value or an
  exception; Base64 is spelled out, and read back.
\<close>

section \<open>Users\<close>

definition user_record :: "pyval \<Rightarrow> exn + dict" where
  "user_record session =
     bind_result (attribute session ''name'') (\<lambda>name.
     bind_result (attribute session ''terminal'') (\<lambda>terminal.
     bind_result (attribute session ''host'') (\<lambda>host.
     bind_result (bind_result (attribute session ''started'') utc_timestamp) (\<lambda>started.
     bind_result (attribute session ''pid'') (\<lambda>pid.
     Inr [(''name'', optional_string name), (''terminal'', optional_string terminal), (''host'', optional_string host),
          (''started'', opt_str started), (''pid'', optional_int pid)])))))"

definition collect_users :: "exn + pyval list \<Rightarrow> exn + collector_payload" where
  "collect_users sessions =
     (case bind_result sessions (\<lambda>ss. sequence (map user_record ss)) of
        Inl e \<Rightarrow>
          if is_OSError e
          then Inr (partial_payload (JObj [(''users'', JList [])]) ''user_access_partial'' ''user sessions unavailable'')
          else Inl e
      | Inr rs \<Rightarrow> Inr (plain_payload (JObj [(''users'', JList (map JObj rs))])))"

section \<open>The system\<close>

record system_view =
  uname :: "exn + string \<times> string \<times> string \<times> string \<times> string"
  boot_time :: "exn + rat"
  fqdn :: "exn + string"
  python_version :: string
  time_now :: rat

text \<open>The boot time is a finite float; so is the difference to the current time.\<close>

definition collect_system :: "string \<Rightarrow> system_view \<Rightarrow> exn + collector_payload" where
  "collect_system machine_id v =
     bind_result (uname v) (\<lambda>(system, release, version, machine, processor).
     bind_result (boot_time v) (\<lambda>boot.
     bind_result (fqdn v) (\<lambda>hostname.
     bind_result (case timestamp_text boot of None \<Rightarrow> Inl OverflowError | Some t \<Rightarrow> Inr t) (\<lambda>booted.
     Inr (plain_payload (JObj [(''system'', JObj
       [(''hostname'', JStr hostname), (''machine_id'', JStr machine_id), (''os'', JStr system), (''os_release'', JStr release),
        (''os_version'', JStr version), (''architecture'', JStr machine), (''processor'', JStr processor),
        (''python'', JStr (python_version v)), (''boot_time'', JStr booted),
        (''uptime_sec'', JInt (max 0 (let d = nearest (time_now v - boot) in if 0 \<le> d then \<lfloor>d\<rfloor> else \<lceil>d\<rceil>)))])]))))))"

section \<open>The active window\<close>

definition window_record :: "string option \<Rightarrow> string option \<Rightarrow> int option \<Rightarrow> json" where
  "window_record title app pid = JObj [(''title'', opt_str title), (''app'', opt_str app), (''pid'', opt_int pid)]"

definition text_or_none :: "string \<Rightarrow> string option" where
  "text_or_none s = (if s = [] then None else Some s)"

definition collect_linux_window :: "exn + string \<Rightarrow> exn + json" where
  "collect_linux_window out = bind_result out (\<lambda>s. Inr (window_record (text_or_none (strip s)) None None))"

text \<open>
  Windows: the text of the window, cut to what the buffer holds before its terminator, and the name of
  its process, when there is one and it may be asked.
\<close>

record window_view =
  win_libraries :: bool
  win_handle :: int
  win_text_length :: int
  win_text :: string
  win_process :: "32 word"
  win_process_name :: "exn + string"

definition buffer_value :: "int \<Rightarrow> string \<Rightarrow> string" where
  "buffer_value n s = takeWhile (\<lambda>c. c \<noteq> CHR 0x00) (take (nat n - 1) s)"

definition collect_windows_window :: "window_view \<Rightarrow> exn + json" where
  "collect_windows_window v =
     (if \<not> win_libraries v \<or> win_handle v = 0 then Inl (OSError NoErrno)
      else
        (let title = buffer_value (max 1 (win_text_length v + 1)) (win_text v)
         in if win_process v = 0 then Inr (window_record (text_or_none title) None None)
            else
              (case win_process_name v of
                 Inr app \<Rightarrow> Inr (window_record (text_or_none title) (Some app) (Some (uint (win_process v))))
               | Inl e \<Rightarrow>
                   if e = access_denied \<or> e = no_such_process \<or> is_OSError e
                   then Inr (window_record (text_or_none title) None (Some (uint (win_process v))))
                   else Inl e)))"

text \<open>macOS: \<open>output.rpartition(", ")\<close>, from the right.\<close>

fun cut_first :: "string \<Rightarrow> (string \<times> string) option" where
  "cut_first (a # b # s) =
     (if a = CHR '' '' \<and> b = CHR '','' then Some ([], s)
      else map_option (\<lambda>(p, q). (a # p, q)) (cut_first (b # s)))"
| "cut_first _ = None"

definition rpartition_comma :: "string \<Rightarrow> (string \<times> string) option" where
  "rpartition_comma s = map_option (\<lambda>(p, q). (rev q, rev p)) (cut_first (rev s))"

definition collect_macos_window :: "exn + string \<Rightarrow> exn + json" where
  "collect_macos_window out =
     bind_result out (\<lambda>raw.
     let output = strip raw;
         (app, pid) = (case rpartition_comma output of None \<Rightarrow> (output, []) | Some parts \<Rightarrow> parts)
     in Inr (window_record None (text_or_none app) (py_int pid)))"

definition window_unavailable :: "exn \<Rightarrow> bool" where
  "window_unavailable e \<longleftrightarrow>
     e = AttributeError \<or> is_OSError e \<or> (case e of RuntimeError _ \<Rightarrow> True | RecursionError \<Rightarrow> True | _ \<Rightarrow> False) \<or>
     e = OtherError ''SubprocessError''"

record desktop_view =
  xdotool :: "exn + string"
  user32 :: window_view
  osascript :: "exn + string"

definition empty_window :: json where
  "empty_window = window_record None None None"

definition collect_window :: "bool \<Rightarrow> string \<Rightarrow> desktop_view \<Rightarrow> exn + collector_payload" where
  "collect_window enabled os v =
     (if \<not> enabled \<or> os \<notin> {''linux'', ''win32'', ''darwin''}
      then Inr (disabled_payload (JObj [(''active_window'', empty_window)]))
      else
        (case (if os = ''linux'' then collect_linux_window (xdotool v)
               else if os = ''win32'' then collect_windows_window (user32 v)
               else collect_macos_window (osascript v)) of
           Inl e \<Rightarrow>
             if window_unavailable e
             then Inr (partial_payload (JObj [(''active_window'', empty_window)]) ''active_window_unavailable''
                    ''interactive active-window data unavailable'')
             else Inl e
         | Inr window \<Rightarrow> Inr (plain_payload (JObj [(''active_window'', window)]))))"

section \<open>Base64\<close>

definition base64_alphabet :: string where
  "base64_alphabet = ''ABCDEFGHIJKLMNOPQRSTUVWXYZabcdefghijklmnopqrstuvwxyz0123456789+/''"

definition sextet :: "nat \<Rightarrow> char" where
  "sextet n = base64_alphabet ! n"

fun byte :: "char \<Rightarrow> nat" where
  "byte c = of_char c"

fun b64encode :: "string \<Rightarrow> string" where
  "b64encode [] = []"
| "b64encode [a] = [sextet (byte a div 4), sextet (byte a mod 4 * 16), CHR ''='', CHR ''='']"
| "b64encode [a, b] =
     [sextet (byte a div 4), sextet (byte a mod 4 * 16 + byte b div 16), sextet (byte b mod 16 * 4), CHR ''='']"
| "b64encode (a # b # c # s) =
     [sextet (byte a div 4), sextet (byte a mod 4 * 16 + byte b div 16),
      sextet (byte b mod 16 * 4 + byte c div 64), sextet (byte c mod 64)] @ b64encode s"

section \<open>The screenshot\<close>

record screenshot_collector =
  shot_enabled :: bool
  shot_max_bytes :: int

definition new_screenshot_collector :: "bool \<Rightarrow> int \<Rightarrow> exn + screenshot_collector" where
  "new_screenshot_collector enabled max_bytes =
     bind_result (require (1 \<le> max_bytes) (ValueError ''max_bytes must be at least 1'')) (\<lambda>_.
     Inr \<lparr>shot_enabled = enabled, shot_max_bytes = max_bytes\<rparr>)"

definition no_screenshot :: json where
  "no_screenshot = JObj [(''screenshot'', JNull)]"

definition capture_unavailable :: "exn \<Rightarrow> bool" where
  "capture_unavailable e \<longleftrightarrow>
     e = ImportError \<or> is_OSError e \<or> (case e of RuntimeError _ \<Rightarrow> True | RecursionError \<Rightarrow> True | _ \<Rightarrow> False)"

definition collect_screenshot :: "screenshot_collector \<Rightarrow> exn + string \<Rightarrow> int \<Rightarrow> exn + collector_payload" where
  "collect_screenshot sc capture now =
     (if \<not> shot_enabled sc then Inr (disabled_payload no_screenshot)
      else
        (case capture of
           Inl e \<Rightarrow>
             if capture_unavailable e
             then Inr (partial_payload no_screenshot ''screenshot_unavailable'' ''interactive screenshot capture unavailable'')
             else Inl e
         | Inr png \<Rightarrow>
             if shot_max_bytes sc < int (length png)
             then Inr (partial_payload no_screenshot ''screenshot_too_large''
                    ''captured screenshot exceeded configured size limit'')
             else
               Inr (plain_payload (JObj [(''screenshot'', JObj
                 [(''captured_at'', JStr (iso_utc now)), (''format'', JStr ''image/png''),
                  (''size_bytes'', JInt (int (length png))), (''data_b64'', JStr (b64encode png))])]))))"

section \<open>Reading Base64 back\<close>

definition sextet_of :: "char \<Rightarrow> nat option" where
  "sextet_of c = map_of (zip base64_alphabet [0..<64]) c"

fun b64decode :: "string \<Rightarrow> string option" where
  "b64decode [] = Some []"
| "b64decode (a # b # c # d # s) =
     (case (sextet_of a, sextet_of b) of
        (Some w, Some x) \<Rightarrow>
          (case sextet_of c of
             None \<Rightarrow> if c = CHR ''='' \<and> d = CHR ''='' \<and> s = [] then Some [char_of (w * 4 + x div 16)] else None
           | Some y \<Rightarrow>
               (case sextet_of d of
                  None \<Rightarrow>
                    if d = CHR ''='' \<and> s = [] then Some [char_of (w * 4 + x div 16), char_of (x mod 16 * 16 + y div 4)]
                    else None
                | Some z \<Rightarrow>
                    map_option (\<lambda>t. char_of (w * 4 + x div 16) # char_of (x mod 16 * 16 + y div 4) # char_of (y mod 4 * 64 + z) # t)
                      (b64decode s)))
      | _ \<Rightarrow> None)"
| "b64decode _ = None"

lemma sextet_table: "list_all (\<lambda>n. sextet_of (sextet n) = Some n) [0..<64]" "sextet_of CHR ''='' = None"
  by code_simp+

lemma sextet_of_sextet [simp]: "n < 64 \<Longrightarrow> sextet_of (sextet n) = Some n"
  using sextet_table(1) by (simp add: list_all_iff)

lemma byte_bound: "byte c < 256"
  by simp

lemma b64_parts:
  assumes "p < 256" and "q < 256"
  shows "p div 4 < (64 :: nat)" "p mod 4 * 16 + q div 16 < 64" "p mod 4 * 16 < 64"
    "q mod 16 * 4 < 64" "q mod 16 * 4 + p div 64 < 64"
    "p div 4 * 4 + (p mod 4 * 16 + q div 16) div 16 = p" "p div 4 * 4 + p mod 4 * 16 div 16 = p"
    "(p mod 4 * 16 + q div 16) mod 16 * 16 + q mod 16 * 4 div 4 = q"
    "(r mod 4 * 16 + p div 16) mod 16 * 16 + (p mod 16 * 4 + q div 64) div 4 = p"
    "(p mod 16 * 4 + q div 64) mod 4 * 64 + q mod 64 = q"
  using assms by auto

lemma b64decode_quad:
  assumes "w < 64" "x < 64" "y < 64" "z < 64"
  shows "b64decode (sextet w # sextet x # sextet y # sextet z # s) =
    map_option (\<lambda>t. char_of (w * 4 + x div 16) # char_of (x mod 16 * 16 + y div 4) # char_of (y mod 4 * 64 + z) # t)
      (b64decode s)"
  using assms by (simp only: b64decode.simps sextet_of_sextet option.case prod.case)

lemma b64decode_ends:
  assumes "w < 64" "x < 64"
  shows "b64decode [sextet w, sextet x, CHR ''='', CHR ''=''] = Some [char_of (w * 4 + x div 16)]"
    and "y < 64 \<Longrightarrow> b64decode [sextet w, sextet x, sextet y, CHR ''=''] =
      Some [char_of (w * 4 + x div 16), char_of (x mod 16 * 16 + y div 4)]"
  using assms by (simp_all add: sextet_table(2))

lemma char_of_byte: "char_of (byte c) = c"
  by simp

lemma b64decode_encode: "b64decode (b64encode s) = Some s"
proof (induction s rule: b64encode.induct)
  case (2 a)
  note p = b64_parts [OF byte_bound [of a] byte_bound [of a]]
  show ?case unfolding b64encode.simps b64decode_ends(1) [OF p(1,3)] p(7) char_of_byte ..
next
  case (3 a b)
  note p = b64_parts [OF byte_bound [of a] byte_bound [of b]]
  show ?case unfolding b64encode.simps b64decode_ends(2) [OF p(1,2,4)] p(6,8) char_of_byte ..
next
  case (4 a b c s)
  note p = b64_parts [OF byte_bound [of a] byte_bound [of b]]
  note q = b64_parts [OF byte_bound [of b] byte_bound [of c]]
  have "byte c mod 64 < 64" by (rule mod_less_divisor) (rule zero_less_numeral)
  note quad = b64decode_quad [OF p(1,2) b64_parts(5) [OF byte_bound [of c] byte_bound [of b]] this]
  have "b64decode (b64encode (a # b # c # s)) = map_option (\<lambda>t. a # b # c # t) (b64decode (b64encode s))"
    unfolding b64encode.simps append.simps quad p(6) q(9,10) char_of_byte ..
  then show ?case by (simp only: 4 option.map append.simps)
qed simp

text \<open>C24: A screenshot leaves the collector whole and within its limit, or not at all: a successful result
  carries in Base64 exactly the bytes that were captured, at most \<open>max_bytes\<close> of them, with their number;
  any other result carries none, and switched off the collector does not look at the screen.\<close>

theorem screenshot_whole_or_none:
  assumes "new_screenshot_collector enabled limit = Inr sc" and "collect_screenshot sc capture now = Inr p"
  shows "if cp_status p = CSuccess
    then enabled \<and> (\<exists>png t b64. capture = Inr png \<and> int (length png) \<le> limit \<and> b64decode b64 = Some png \<and>
      cp_data p = JObj [(''screenshot'', JObj [(''captured_at'', JStr t), (''format'', JStr ''image/png''),
        (''size_bytes'', JInt (int (length png))), (''data_b64'', JStr b64)])])
    else cp_data p = no_screenshot \<and> (enabled \<or> collect_screenshot sc capture' now' = Inr p)"
proof -
  from assms(1) have sc: "shot_enabled sc = enabled" "shot_max_bytes sc = limit"
    by (auto simp: new_screenshot_collector_def bind_result_Inr)
  show ?thesis
  proof (cases enabled)
    case False
    with assms(2) sc show ?thesis by (auto simp: collect_screenshot_def disabled_payload_def)
  next
    case True
    with assms(2) sc show ?thesis
      by (auto simp: collect_screenshot_def partial_payload_def plain_payload_def b64decode_encode
          split: sum.splits if_splits)
  qed
qed

theorem screenshot_whole_or_none_witness:
  "\<exists>t b64. b64decode b64 = Some ''PNG'' \<and> collect_screenshot \<lparr>shot_enabled = True, shot_max_bytes = 3\<rparr> (Inr ''PNG'') 0 =
    Inr (plain_payload (JObj [(''screenshot'', JObj [(''captured_at'', JStr t), (''format'', JStr ''image/png''),
      (''size_bytes'', JInt 3), (''data_b64'', JStr b64)])]))"
proof -
  have new: "new_screenshot_collector True 3 = Inr \<lparr>shot_enabled = True, shot_max_bytes = 3\<rparr>"
    by (simp add: new_screenshot_collector_def require_def)
  obtain p where p: "collect_screenshot \<lparr>shot_enabled = True, shot_max_bytes = 3\<rparr> (Inr ''PNG'') 0 = Inr p"
    "p = plain_payload (cp_data p)" "cp_status p = CSuccess"
    by (simp add: collect_screenshot_def plain_payload_def)
  with screenshot_whole_or_none [OF new p(1)] obtain t b64 where "b64decode b64 = Some ''PNG''"
    "cp_data p = JObj [(''screenshot'', JObj [(''captured_at'', JStr t), (''format'', JStr ''image/png''),
      (''size_bytes'', JInt 3), (''data_b64'', JStr b64)])]" by auto
  moreover from p(2) this(2) have "p = plain_payload (JObj [(''screenshot'', JObj [(''captured_at'', JStr t),
      (''format'', JStr ''image/png''), (''size_bytes'', JInt 3), (''data_b64'', JStr b64)])])" by metis
  ultimately show ?thesis using p(1) by metis
qed

end
