(* ===== verification/Collectors.thy ===== *)
theory Collectors
  imports Processes File_Audit Software Network Resources Host_Collectors Payload Orchestrator
begin

text \<open>
  \<open>collectors/__init__.py\<close> and \<open>collectors/base.py\<close>: the nine collectors of an agent as one type, built
  from a configuration and run on a view of the host, which holds what the host answers to each of them.
\<close>

section \<open>The registry\<close>

datatype collector =
    SystemCollector string
  | UsersCollector
  | ResourceCollector rat
  | NetworkCollector bool
  | ProcessesCollector processes_collector
  | SoftwareCollector software_collector
  | ActiveWindowCollector bool string
  | FileAuditCollector file_audit
  | ScreenshotCollector screenshot_collector

fun collector_name :: "collector \<Rightarrow> string" where
  "collector_name (SystemCollector _) = ''system''"
| "collector_name UsersCollector = ''users''"
| "collector_name (ResourceCollector _) = ''resources''"
| "collector_name (NetworkCollector _) = ''network''"
| "collector_name (ProcessesCollector _) = ''processes''"
| "collector_name (SoftwareCollector _) = ''software''"
| "collector_name (ActiveWindowCollector _ _) = ''active_window''"
| "collector_name (FileAuditCollector _) = ''file_audit''"
| "collector_name (ScreenshotCollector _) = ''screenshot''"

text \<open>The constructors in their order, with the defaults of the parameters that are not passed.\<close>

definition build_collectors :: "config \<Rightarrow> identity \<Rightarrow> string \<Rightarrow> exn + collector list" where
  "build_collectors c ident os =
     bind_result (new_resource_collector (Fin 1)) (\<lambda>sample.
     bind_result (new_processes_collector (process_cmdline_mode c) 100) (\<lambda>pc.
     bind_result (new_software_collector (include_software c) (Fin 86400)) (\<lambda>sc.
     bind_result (new_file_audit (audit_paths c) (audit_max_files c) (audit_max_file_bytes c)) (\<lambda>fa.
     bind_result (new_screenshot_collector (screenshot_enabled c) (screenshot_max_bytes c)) (\<lambda>sh.
     Inr [SystemCollector (id_value ident), UsersCollector, ResourceCollector sample,
          NetworkCollector (include_network_connections c), ProcessesCollector pc, SoftwareCollector sc,
          ActiveWindowCollector (include_active_window c) os, FileAuditCollector fa, ScreenshotCollector sh])))))"

section \<open>Running a collector\<close>

record host_view =
  vw_system :: system_view
  vw_users :: "exn + pyval list"
  vw_resources :: resource_view
  vw_network :: network_view
  vw_processes :: "exn + (exn + info) list"
  vw_software :: software_call
  vw_desktop :: desktop_view
  vw_tree :: "string \<Rightarrow> node option"
  vw_sha :: "string \<Rightarrow> string"
  vw_capture :: "exn + string"
  vw_now :: int

text \<open>Only the software collector has a state, its cache.\<close>

fun collect_from :: "string \<Rightarrow> host_view \<Rightarrow> collector \<Rightarrow> (exn + collector_payload) \<times> collector" where
  "collect_from os v (SystemCollector m) = (collect_system m (vw_system v), SystemCollector m)"
| "collect_from os v UsersCollector = (collect_users (vw_users v), UsersCollector)"
| "collect_from os v (ResourceCollector s) = (collect_resources (vw_resources v), ResourceCollector s)"
| "collect_from os v (NetworkCollector b) = (collect_network b (vw_network v), NetworkCollector b)"
| "collect_from os v (ProcessesCollector pc) = (collect_processes pc os (vw_processes v), ProcessesCollector pc)"
| "collect_from os v (SoftwareCollector sc) =
     (case collect_software os (vw_software v) sc of (r, sc') \<Rightarrow> (r, SoftwareCollector sc'))"
| "collect_from os v (ActiveWindowCollector b p) = (collect_window b p (vw_desktop v), ActiveWindowCollector b p)"
| "collect_from os v (FileAuditCollector fa) = (collect_file_audit (vw_sha v) fa (vw_tree v), FileAuditCollector fa)"
| "collect_from os v (ScreenshotCollector sh) = (collect_screenshot sh (vw_capture v) (vw_now v), ScreenshotCollector sh)"

text \<open>What the orchestrator sees of it: \<open>_exception_metadata\<close> tells the exceptions apart by class.\<close>

definition outcome_of :: "exn + collector_payload \<Rightarrow> outcome" where
  "outcome_of r =
     (case r of
        Inr p \<Rightarrow> Returned p
      | Inl e \<Rightarrow>
          Raised (if \<not> is_Exception e then NotAnException
                  else if is_PermissionError e then PermissionRaised
                  else if e = OtherError ''TimeoutError'' then TimeoutRaised
                  else if is_OSError e then OSRaised else OtherRaised))"

section \<open>What a collector returns\<close>

fun sections_of :: "collector \<Rightarrow> string list" where
  "sections_of (ResourceCollector _) = [''cpu'', ''memory'', ''disks'']"
| "sections_of c = [collector_name c]"

lemma payload_data [simp]:
  "cp_data (plain_payload d) = d" "cp_data (partial_payload d a b) = d" "cp_data (disabled_payload d) = d"
  "cp_status (plain_payload d) = CSuccess" "cp_status (partial_payload d a b) = CPartial"
  "cp_status (disabled_payload d) = CDisabled"
  by (simp_all add: plain_payload_def partial_payload_def disabled_payload_def)

definition has_sections :: "string list \<Rightarrow> collector_payload \<Rightarrow> bool" where
  "has_sections names p \<longleftrightarrow> (case cp_data p of JObj kvs \<Rightarrow> map fst kvs = names | _ \<Rightarrow> False)"

lemma sections_processes: "collect_processes pc os ps = Inr p \<Longrightarrow> has_sections [''processes''] p"
  by (auto simp: collect_processes_def bind_result_Inr has_sections_def Let_def)

lemma sections_resources: "collect_resources v = Inr p \<Longrightarrow> has_sections [''cpu'', ''memory'', ''disks''] p"
  by (auto simp: collect_resources_def bind_result_Inr has_sections_def Let_def)

lemma sections_file_audit: "collect_file_audit h fa tree = Inr p \<Longrightarrow> has_sections [''file_audit''] p"
  by (auto simp: collect_file_audit_def bind_result_Inr has_sections_def Let_def split: if_splits)

lemma sections_software: "fst (collect_software os c sc) = Inr p \<Longrightarrow> has_sections [''software''] p"
  by (auto simp: collect_software_def refresh_software_def software_payload_def has_sections_def Let_def
      split: if_splits option.splits sum.splits prod.splits)

lemma sections_network: "collect_network b v = Inr p \<Longrightarrow> has_sections [''network''] p"
proof -
  assume r: "collect_network b v = Inr p"
  show ?thesis
  proof (cases b)
    case True
    with r obtain adapters io where "collect_adapters v = Inr adapters" "collect_io v = Inr io"
      unfolding collect_network_def by (auto simp: bind_result_Inr)
    with r True show ?thesis
      by (cases "bind_result (net_connections v) connection_records")
        (auto simp: collect_network_def network_data_def has_sections_def split: if_splits)
  qed (use r in \<open>auto simp: collect_network_def network_data_def has_sections_def\<close>)
qed

lemma sections_host:
  "collect_system m sv = Inr p \<Longrightarrow> has_sections [''system''] p"
  "collect_users us = Inr p \<Longrightarrow> has_sections [''users''] p"
  "collect_window b os dv = Inr p \<Longrightarrow> has_sections [''active_window''] p"
  "collect_screenshot sh cap t = Inr p \<Longrightarrow> has_sections [''screenshot''] p"
  by (auto simp: collect_system_def collect_users_def collect_window_def collect_screenshot_def no_screenshot_def
      bind_result_Inr has_sections_def split: if_splits sum.splits)

lemmas collected_sections =
  sections_processes sections_resources sections_file_audit sections_software sections_network sections_host

lemma build_collectorsD:
  assumes "build_collectors c ident os = Inr cs"
  obtains sample pc sc fa sh where "new_file_audit (audit_paths c) (audit_max_files c) (audit_max_file_bytes c) = Inr fa"
    and "new_screenshot_collector (screenshot_enabled c) (screenshot_max_bytes c) = Inr sh"
    and "cs = [SystemCollector (id_value ident), UsersCollector, ResourceCollector sample,
          NetworkCollector (include_network_connections c), ProcessesCollector pc, SoftwareCollector sc,
          ActiveWindowCollector (include_active_window c) os, FileAuditCollector fa, ScreenshotCollector sh]"
  using assms unfolding build_collectors_def by (auto simp: bind_result_Inr)

lemma has_own_sections: "fst (collect_from os v col) = Inr p \<Longrightarrow> has_sections (sections_of col) p"
  by (cases col) (auto simp: collected_sections case_prod_beta)

lemma sections_of_all: "build_collectors c ident os = Inr cs \<Longrightarrow> concat (map sections_of cs) = section_names"
  by (erule build_collectorsD) (simp add: section_names_def)

text \<open>Collectors and payload agree on the sections: whatever a collector returns is an object with
  exactly its own sections, and the nine collectors of an agent together have every section of the
  payload exactly once, so that nothing they return is dropped or overwritten by another.\<close>

theorem collected_sections_complete:
  assumes "build_collectors c ident os = Inr cs" and "fst (collect_from os v col) = Inr p"
  shows "has_sections (sections_of col) p \<and> concat (map sections_of cs) = section_names \<and> distinct section_names"
  using has_own_sections [OF assms(2)] sections_of_all [OF assms(1)] distinct_sections by simp

text \<open>C5: Without the employee notice nothing sensitive is looked at: the collectors of the active window,
  of audited files and of screenshots that an accepted configuration without the notice leads to are
  switched off, and what they return is the same whatever the screen, the windows and the files of the
  host are.\<close>

theorem no_notice_no_sensitive_data:
  assumes "load_config rules is_file source transport pf = Inr c" and "\<not> employee_notice_acknowledged c"
    and "build_collectors c ident os = Inr cs" and "col \<in> set cs"
    and "collector_name col \<in> {''active_window'', ''file_audit'', ''screenshot''}"
  shows "\<exists>p. cp_status p = CDisabled \<and> collect_from os v col = (Inr p, col) \<and> collect_from os v' col = (Inr p, col)"
proof -
  obtain k where "checked_settings rules is_file source transport pf = Inr k"
    "include_active_window c = ck_window k" "audit_paths c = ck_audit k"
    "screenshot_enabled c = ck_screenshot k" "employee_notice_acknowledged c = ck_notice k"
    by (rule load_config_checked [OF assms(1)])
  with checked_facts(4) assms(2) have off: "\<not> include_active_window c" "audit_paths c = []" "\<not> screenshot_enabled c"
    by metis+
  show ?thesis
  proof (rule build_collectorsD [OF assms(3)])
    fix sample pc sc fa sh
    assume fa: "new_file_audit (audit_paths c) (audit_max_files c) (audit_max_file_bytes c) = Inr fa"
      and sh: "new_screenshot_collector (screenshot_enabled c) (screenshot_max_bytes c) = Inr sh"
      and cs: "cs = [SystemCollector (id_value ident), UsersCollector, ResourceCollector sample,
          NetworkCollector (include_network_connections c), ProcessesCollector pc, SoftwareCollector sc,
          ActiveWindowCollector (include_active_window c) os, FileAuditCollector fa, ScreenshotCollector sh]"
    from fa sh off have "fa_paths fa = []" "\<not> shot_enabled sh"
      by (auto simp: new_file_audit_def new_screenshot_collector_def bind_result_Inr)
    with assms(4,5) cs off show ?thesis
      by (auto simp: collect_window_def collect_file_audit_def collect_screenshot_def)
  qed
qed

section \<open>From the host to the payload\<close>

text \<open>The runs of the collectors on one view of the host, with the times at which they start and finish.\<close>

definition runs_of :: "string \<Rightarrow> host_view \<Rightarrow> collector list \<Rightarrow> (int \<times> int option) list \<Rightarrow> (string \<times> run) list" where
  "runs_of os v cs spans =
     map2 (\<lambda>col (s, f).
       (collector_name col,
        \<lparr>run_outcome = outcome_of (fst (collect_from os v col)), run_started = s, run_finished = f\<rparr>)) cs spans"

lemma find_unique:
  assumes "x \<in> set xs" and "P x" and "\<And>y. y \<in> set xs \<Longrightarrow> P y \<Longrightarrow> y = x"
  shows "List.find P xs = Some x"
proof -
  obtain y where "List.find P xs = Some y" using assms(1,2) by (cases "List.find P xs") (auto simp: find_None_iff)
  moreover from this have "y \<in> set xs" "P y" by (auto simp: find_Some_iff)
  ultimately show ?thesis using assms(3) by simp
qed

lemma distinct_concat_index:
  "distinct (concat xss) \<Longrightarrow> i < length xss \<Longrightarrow> j < length xss \<Longrightarrow> x \<in> set (xss ! i) \<Longrightarrow> x \<in> set (xss ! j) \<Longrightarrow> i = j"
proof (induction xss arbitrary: i j)
  case (Cons xs xss)
  have apart: False if "k < length xss" "x \<in> set (xss ! k)" "x \<in> set xs" for k
  proof -
    have "x \<in> \<Union> (set ` set xss)" using that(2) nth_mem [OF that(1)] by blast
    then show False using Cons.prems(1) that(3) by auto
  qed
  show ?case
    using Cons.prems Cons.IH apart by (cases i; cases j) auto
qed simp

text \<open>A result contributes only to the sections of its collector.\<close>

lemma contribution_own:
  assumes "report t (collector_name col,
      \<lparr>run_outcome = outcome_of (fst (collect_from os v col)), run_started = s, run_finished = f\<rparr>) = Inr r"
    and "contribution name r \<noteq> None"
  shows "name \<in> set (sections_of col)"
proof -
  have "\<exists>p. fst (collect_from os v col) = Inr p \<and> res_data r = cp_data p"
    using assms by (cases "fst (collect_from os v col)")
      (auto simp: report_def collect_one_def outcome_of_def deadline_result_def contribution_def
        split: option.splits if_splits)
  then obtain p where p: "fst (collect_from os v col) = Inr p" "res_data r = cp_data p" by blast
  from has_own_sections [OF p(1)] obtain kvs where "cp_data p = JObj kvs" "map fst kvs = sections_of col"
    by (auto simp: has_sections_def split: json.splits)
  moreover from this p(2) assms(2) have "dict_get kvs name \<noteq> None" by (auto simp: contribution_def split: if_splits)
  ultimately show ?thesis by (metis dict_get_def map_of_eq_None_iff list.set_map)
qed

text \<open>C4: What a collector observed in time is what the payload says: for every collector of the agent
  that returns by the time the futures are checked, with success at least in part, each section it
  returns is, with its value, a section of the payload built from the collection.\<close>

theorem observation_reaches_payload:
  assumes "build_collectors c ident os = Inr cs" and "length spans = length cs"
    and "collect_all (runs_of os v cs spans) workers timeout t = Inr b"
    and "build_payload h now fresh event ident b n eid = Inr doc"
    and "i < length cs" and "fst (collect_from os v (cs ! i)) = Inr p" and "cp_status p \<in> {CSuccess, CPartial}"
    and "snd (spans ! i) = Some f" and "f \<le> tick_check t"
    and "cp_data p = JObj kvs" and "dict_get kvs name = Some x"
  shows "dict_get doc name = Some x"
proof -
  let ?runs = "runs_of os v cs spans" and ?rs = "batch_results b"
  have len: "length ?runs = length cs" using assms(2) by (simp add: runs_of_def)
  note results = collect_all_nth [OF assms(3), unfolded len]
  have run: "?runs ! j = (collector_name (cs ! j), \<lparr>run_outcome = outcome_of (fst (collect_from os v (cs ! j))),
      run_started = fst (spans ! j), run_finished = snd (spans ! j)\<rparr>)" if "j < length cs" for j
    using that assms(2) by (simp add: runs_of_def case_prod_beta)
  have own: "name \<in> set (sections_of (cs ! j))" if "j < length cs" "contribution name (?rs ! j) \<noteq> None" for j
    using contribution_own [OF _ that(2)] results(2) [OF that(1)] run [OF that(1)] by metis
  have "report t (?runs ! i) = Inr (?rs ! i)" by (rule results(2) [OF assms(5)])
  then have "res_data (?rs ! i) = JObj kvs \<and> res_status (?rs ! i) = cp_status p"
    using assms(6,8,9,10) unfolding run [OF assms(5)]
    by (auto simp: report_def outcome_of_def collect_one_def dest: sym)
  with assms(7,11) have here: "contribution name (?rs ! i) = Some x" by (simp add: contribution_def)
  with own [OF assms(5)] have mine: "name \<in> set (sections_of (cs ! i))" by simp
  have "List.find (\<lambda>r. contribution name r \<noteq> None) (rev ?rs) = Some (?rs ! i)"
  proof (rule find_unique)
    show "?rs ! i \<in> set (rev ?rs)" using assms(5) results(1) [OF assms(5)] by simp
    fix r assume "r \<in> set (rev ?rs)" "contribution name r \<noteq> None"
    then obtain j where j: "j < length cs" "r = ?rs ! j"
      using results(1) [OF assms(5)] by (metis in_set_conv_nth set_rev)
    with own [OF j(1)] \<open>contribution name r \<noteq> None\<close> have "name \<in> set (sections_of (cs ! j))" by simp
    moreover have "distinct (concat (map sections_of cs))"
      using sections_of_all [OF assms(1)] distinct_sections by simp
    ultimately have "j = i"
      using distinct_concat_index [of "map sections_of cs" j i name] mine j(1) assms(5) by simp
    with j show "r = ?rs ! i" by simp
  qed (simp add: here)
  then have "section_value name ?rs = Some x" by (simp add: section_value_def here)
  moreover have "name \<in> set section_names"
    using mine assms(5) sections_of_all [OF assms(1)] by (metis UN_I nth_mem set_concat set_map image_eqI)
  ultimately show ?thesis
    using built [OF assms(4)] document_section [OF sections_keys] add_results_get section_value_def by metis
qed

section \<open>Examples\<close>

lemma limits_build:
  assumes "within_limits c"
  shows "\<exists>cs. build_collectors c ident os = Inr cs"
  using assms
  by (simp add: within_limits_def build_collectors_def new_resource_collector_def new_processes_collector_def
      new_software_collector_def new_file_audit_def new_screenshot_collector_def require_def)

lemma sample_collectors:
  obtains c cs where "load_config sample_rules (\<lambda>_. False) sample_env True ''linux'' = Inr c"
    and "build_collectors c sample_identity ''linux'' = Inr cs"
  using sample_config limits_build load_config_fields by meson

text \<open>A host on which nothing but the list of sessions can be read.\<close>

definition silent_host :: host_view where
  "silent_host =
     \<lparr>vw_system = \<lparr>uname = Inl (OSError ENOENT), boot_time = Inr 0, fqdn = Inr [], python_version = [], time_now = 0\<rparr>,
      vw_users = Inr [],
      vw_resources = sample_resources\<lparr>view_memory := Inl (OSError ENOENT)\<rparr>,
      vw_network = sample_view\<lparr>if_addrs := Inl (OSError ENOENT)\<rparr>,
      vw_processes = Inl (OSError ENOENT),
      vw_software = sample_call 0 (Inl (OSError ENOENT)),
      vw_desktop = \<lparr>xdotool = Inl (OSError ENOENT),
        user32 = \<lparr>win_libraries = False, win_handle = 0, win_text_length = 0, win_text = [], win_process = 0,
          win_process_name = Inr []\<rparr>, osascript = Inr []\<rparr>,
      vw_tree = (\<lambda>_. None), vw_sha = (\<lambda>bs. bs), vw_capture = Inl (OSError ENOENT), vw_now = 0\<rparr>"

lemma audit_nothing: "audit_paths_loop sha fa (\<lambda>_. None) ps (rs, partial, stop) = Inr (rs, partial \<or> ps \<noteq> [], stop)"
  by (induction ps arbitrary: partial) auto

lemma silent_outcomes:
  assumes "build_collectors c ident ''linux'' = Inr cs" and "col \<in> set cs"
  shows "outcome_of (fst (collect_from ''linux'' silent_host col)) \<noteq> Raised NotAnException"
proof (rule build_collectorsD [OF assms(1)])
  fix sample pc sc fa sh
  assume "cs = [SystemCollector (id_value ident), UsersCollector, ResourceCollector sample,
          NetworkCollector (include_network_connections c), ProcessesCollector pc, SoftwareCollector sc,
          ActiveWindowCollector (include_active_window c) ''linux'', FileAuditCollector fa, ScreenshotCollector sh]"
  with assms(2) show ?thesis
    by (auto simp: outcome_of_def silent_host_def collect_system_def collect_users_def collect_resources_def
        collect_network_def collect_adapters_def collect_processes_def collect_software_def refresh_software_def
        take_inventory_def collect_linux_software_def sample_call_def collect_window_def collect_linux_window_def
        window_unavailable_def collect_file_audit_def audit_nothing collect_screenshot_def capture_unavailable_def
        collect_memory_def sample_resources_def collect_cpu_def Let_def split: sum.splits option.splits if_splits)
qed

lemma sample_users: "fst (collect_from ''linux'' silent_host UsersCollector) = Inr (plain_payload (JObj [(''users'', JList [])]))"
  by (simp add: silent_host_def collect_users_def)

theorem collected_sections_complete_witness:
  "\<exists>c cs. build_collectors c sample_identity ''linux'' = Inr cs \<and> concat (map sections_of cs) = section_names \<and>
    has_sections [''users''] (plain_payload (JObj [(''users'', JList [])]))"
proof -
  obtain c cs where "build_collectors c sample_identity ''linux'' = Inr cs" by (rule sample_collectors)
  with collected_sections_complete [OF this sample_users] show ?thesis by auto
qed

lemma quiet_config:
  "\<exists>c. load_config sample_rules (\<lambda>_. False) (\<lambda>_. None) False ''linux'' = Inr c \<and> \<not> employee_notice_acknowledged c"
  by (simp add: load_config_def checked_settings_def nonempty_def require_def get_or_def parse_mode_def
      parse_log_format_def parse_bool_def parse_paths_def strip_def parse_int_def parse_float_def)

theorem no_notice_no_sensitive_data_witness:
  "\<exists>p. cp_status p = CDisabled \<and> collect_from ''linux'' silent_host (ActiveWindowCollector False ''linux'') =
    (Inr p, ActiveWindowCollector False ''linux'')"
proof -
  obtain c where c: "load_config sample_rules (\<lambda>_. False) (\<lambda>_. None) False ''linux'' = Inr c"
    "\<not> employee_notice_acknowledged c" using quiet_config by blast
  obtain cs where cs: "build_collectors c sample_identity ''linux'' = Inr cs"
    using limits_build load_config_fields c(1) by meson
  have "\<not> include_active_window c"
    using c load_config_checked checked_facts(4) by metis
  then have "ActiveWindowCollector False ''linux'' \<in> set cs" by (rule_tac build_collectorsD [OF cs]) simp
  from no_notice_no_sensitive_data [OF c cs this] show ?thesis by auto
qed

theorem observation_reaches_payload_witness:
  "\<exists>doc. dict_get doc ''users'' = Some (JList []) \<and> dict_get doc ''event'' = Some (JStr ''startup'')"
proof -
  obtain c cs where cs: "build_collectors c sample_identity ''linux'' = Inr cs" by (rule sample_collectors)
  then have nth: "cs ! 1 = UsersCollector" "length cs = 9" by (auto elim: build_collectorsD)
  let ?ts = "replicate 9 (0, Some 1)" and ?t = "\<lparr>tick_start = 0, tick_check = 10, tick_end = 10\<rparr>"
  have "list_all (\<lambda>(_, r). run_outcome r \<noteq> Raised NotAnException) (runs_of ''linux'' silent_host cs ?ts)"
    using silent_outcomes [OF cs] by (auto simp: runs_of_def list_all_iff dest!: set_zip_leftD)
  moreover have "validate_limits 4 (Fin 30) = Inr ()" by (simp add: validate_limits_def require_def)
  ultimately obtain b where b: "collect_all (runs_of ''linux'' silent_host cs ?ts) 4 (Fin 30) ?t = Inr b"
    using collect_all_total by blast
  have "event_ok ''startup''" by code_simp
  then obtain doc where doc: "build_payload sample_host 0 ''u'' ''startup'' sample_identity b NowNone None = Inr doc"
    by (simp add: build_payload_def payload_timestamp_def)
  have "dict_get doc ''users'' = Some (JList [])"
    by (rule observation_reaches_payload [OF cs _ b doc, where i = 1 and f = 1 and kvs = "[(''users'', JList [])]"
          and p = "plain_payload (JObj [(''users'', JList [])])"])
      (simp_all only: nth sample_users, simp_all add: nth dict_get_def)
  moreover have "dict_get doc ''event'' = Some (JStr ''startup'')"
    by (rule built [OF doc]) (simp add: document_def dict_get_def)
  ultimately show ?thesis by blast
qed

end
