(* ===== verification/Command_Line.thy ===== *)
theory Command_Line
  imports Runtime_Safety Identity Collectors
begin

text \<open>
  \<open>cli.py\<close>: the commands and their exit codes, on the machine of \<^theory_text>\<open>Runtime\<close>. What
  \<open>argparse\<close> makes of the arguments is a \<open>command\<close>; what the operating system answers to the checks of
  the paths and what the host shows to the collectors are in the view of the environment (\<open>cli_view\<close>).
  \<open>create_runtime\<close> wires the parts: the script of the runtime's collections becomes that of
  the collectors it built. \<open>run\<close> installs two signal handlers that set the stop
  event, which the machine's \<open>flag\<close> covers.
\<close>

section \<open>The probe of a directory\<close>

record probe_calls =
  dc_mkdir :: "exn + unit"
  dc_chmod :: "exn + unit"
  dc_mkstemp :: "exn + unit"
  dc_fchmod :: "exn + unit"
  dc_close :: "exn + unit"
  dc_unlink :: "nat \<Rightarrow> exn + unit"

text \<open>The locals \<open>probe_path\<close>, \<open>descriptor\<close> and \<open>failed\<close>, the probe file itself, and the calls so far.\<close>

record probe =
  pb_named :: bool
  pb_open :: bool
  pb_failed :: bool
  pb_file :: bool
  pb_closes :: nat
  pb_unlinks :: nat

definition no_probe :: probe where
  "no_probe = \<lparr>pb_named = False, pb_open = False, pb_failed = False, pb_file = False, pb_closes = 0, pb_unlinks = 0\<rparr>"

definition probe_unlink_attempts :: nat where
  "probe_unlink_attempts = 3"

definition set_failed :: "(probe, unit) prog" where
  "set_failed = modify (\<lambda>w. w\<lparr>pb_failed := True\<rparr>)"

definition make_probe :: "bool \<Rightarrow> probe_calls \<Rightarrow> (probe, unit) prog" where
  "make_probe posix d =
     try_except
       (andthen (lift_result (dc_mkdir d))
         (andthen (when_m posix (lift_result (dc_chmod d)))
           (andthen (lift_result (dc_mkstemp d))
             (andthen (modify (\<lambda>w. w\<lparr>pb_named := True, pb_open := True, pb_file := True\<rparr>))
               (when_m posix (lift_result (dc_fchmod d)))))))
       is_OSError (\<lambda>_. set_failed)"

definition close_probe :: "probe_calls \<Rightarrow> (probe, unit) prog" where
  "close_probe d =
     bnd (gets pb_open) (\<lambda>b.
     when_m b
       (try_except
         (andthen (modify (\<lambda>w. w\<lparr>pb_open := False, pb_closes := Suc (pb_closes w)\<rparr>)) (lift_result (dc_close d)))
         is_OSError (\<lambda>_. set_failed)))"

text \<open>One attempt: \<open>Some ()\<close> is a \<open>break\<close>.\<close>

definition unlink_attempt :: "probe_calls \<Rightarrow> nat \<Rightarrow> (probe, unit option) prog" where
  "unlink_attempt d k =
     try_else
       (andthen (modify (\<lambda>w. w\<lparr>pb_unlinks := Suc (pb_unlinks w)\<rparr>))
         (andthen (lift_result (dc_unlink d k)) (modify (\<lambda>w. w\<lparr>pb_file := False\<rparr>))))
       is_OSError
       (\<lambda>e. if e = OSError (Io EINTR) then ret None else andthen set_failed (ret (Some ())))
       (\<lambda>_. ret (Some ()))"

definition remove_probe :: "probe_calls \<Rightarrow> (probe, unit) prog" where
  "remove_probe d =
     bnd (gets pb_named) (\<lambda>b.
     when_m b
       (bnd (for_range probe_unlink_attempts 0 (unlink_attempt d)) (\<lambda>broken.
        when_m (broken = None) set_failed)))"

definition validate_writable_directory :: "bool \<Rightarrow> probe_calls \<Rightarrow> string \<Rightarrow> (probe, unit) prog" where
  "validate_writable_directory posix d message =
     andthen (try_finally (make_probe posix d) (andthen (close_probe d) (remove_probe d)))
       (bnd (gets pb_failed) (\<lambda>failed. if failed then throw (ConfigError message) else ret ()))"

section \<open>The configuration and its paths\<close>

record cli_view =
  cv_rules :: url_rules
  cv_is_file :: "string \<Rightarrow> bool"
  cv_source :: env
  cv_os :: string
  cv_posix :: bool
  cv_spool_dir :: probe_calls
  cv_ca_readable :: bool
  cv_log_symlink :: bool
  cv_log_exists :: bool
  cv_log_is_file :: bool
  cv_log_dir :: probe_calls
  cv_log_exists_then :: bool
  cv_log_open :: "exn + unit"
  cv_log_close :: "exn + unit"
  cv_logging :: "exn + unit"
  cv_sha_bytes :: "string \<Rightarrow> 8 word list"
  cv_ids :: platform_ids
  cv_candidate :: string
  cv_store :: store
  cv_host :: host
  cv_sha :: "string \<Rightarrow> string"
  cv_depth :: nat
  cv_views :: "nat \<Rightarrow> host_view"
  cv_called :: "nat \<Rightarrow> string \<Rightarrow> bool"
  cv_spans :: "nat \<Rightarrow> nat \<Rightarrow> int \<times> int option"
  cv_ticks :: "nat \<Rightarrow> ticks"

definition os_error_as :: "string \<Rightarrow> exn + 'a \<Rightarrow> exn + 'a" where
  "os_error_as message r = (case r of Inl e \<Rightarrow> if is_OSError e then Inl (ConfigError message) else Inl e | Inr x \<Rightarrow> Inr x)"

definition validate_appendable_file :: "cli_view \<Rightarrow> exn + unit" where
  "validate_appendable_file v =
     bind_result (os_error_as ''log path is not writable'' (cv_log_open v)) (\<lambda>_.
     os_error_as ''log path is not writable'' (cv_log_close v))"

definition validate_paths :: "config \<Rightarrow> cli_view \<Rightarrow> exn + unit" where
  "validate_paths c v =
     bind_result (fst (validate_writable_directory (cv_posix v) (cv_spool_dir v) ''spool path is not writable'' no_probe)) (\<lambda>_.
     bind_result (require (ca_bundle c = None \<or> cv_ca_readable v) (ConfigError ''CA bundle is not readable'')) (\<lambda>_.
     if log_path c = None then Inr ()
     else
       bind_result (require (\<not> (cv_log_symlink v \<or> cv_log_exists v \<and> \<not> cv_log_is_file v))
                      (ConfigError ''log path must identify a file'')) (\<lambda>_.
       bind_result (fst (validate_writable_directory (cv_posix v) (cv_log_dir v) ''log path parent is not writable'' no_probe)) (\<lambda>_.
       if cv_log_exists_then v then validate_appendable_file v else Inr ()))))"

definition prepare_config :: "bool \<Rightarrow> cli_view \<Rightarrow> exn + config" where
  "prepare_config transport v =
     bind_result (load_config (cv_rules v) (cv_is_file v) (cv_source v) transport (cv_os v)) (\<lambda>c.
     bind_result (validate_paths c v) (\<lambda>_.
     bind_result (os_error_as ''log path is not writable'' (cv_logging v)) (\<lambda>_.
     Inr c)))"

section \<open>The commands\<close>

datatype printed = Line string | Doc json

record console =
  out :: "printed list"
  err :: "string list"

definition complain :: "string \<Rightarrow> int \<times> console" where
  "complain message = (2, \<lparr>out = [], err = [message]\<rparr>)"

definition say :: "int \<Rightarrow> printed list \<Rightarrow> int \<times> console" where
  "say code ps = (code, \<lparr>out = ps, err = []\<rparr>)"

definition own_identity :: "cli_view \<Rightarrow> exn + identity" where
  "own_identity v = fst (resolve_machine_identity (cv_sha_bytes v) (cv_ids v) (cv_os v) (cv_candidate v) (cv_store v))"

text \<open>
  The collectors live as long as the runtime. In round \<open>k\<close> they look at the host as \<open>cv_views v k\<close> shows
  it; one that is cancelled before it starts (not \<open>cv_called v k\<close>) keeps its state. The software collector,
  the only one with a state, holds its lock while it collects, so that its calls take effect one after another.
\<close>

primrec collectors_at :: "cli_view \<Rightarrow> collector list \<Rightarrow> nat \<Rightarrow> collector list" where
  "collectors_at v cs 0 = cs"
| "collectors_at v cs (Suc k) =
     map (\<lambda>col. if cv_called v k (collector_name col) then snd (collect_from (cv_os v) (cv_views v k) col) else col)
       (collectors_at v cs k)"

definition round_of :: "cli_view \<Rightarrow> collector list \<Rightarrow> nat \<Rightarrow> (string \<times> run) list \<times> ticks" where
  "round_of v cs k =
     (runs_of (cv_os v) (cv_views v k) (collectors_at v cs k) (map (cv_spans v k) [0..<length cs]), cv_ticks v k)"

definition hand_over :: "cli_view \<Rightarrow> collector list \<Rightarrow> unit act" where
  "hand_over v cs = modify (\<lambda>s. s\<lparr>rounds := (\<lambda>k. round_of v cs (k - cycles s))\<rparr>)"

definition create_runtime :: "config \<Rightarrow> cli_view \<Rightarrow> runtime act" where
  "create_runtime c v =
     bnd (lift_result (own_identity v)) (\<lambda>ident.
     bnd (lift_result (build_collectors c ident (cv_os v))) (\<lambda>cs.
     andthen (hand_over v cs)
       (bnd (lift_result (new_transport c 4)) (\<lambda>tr.
        bnd (on_disk (new_spool (spool_max_bytes c) (spool_max_age_sec c) (cv_sha v) (cv_depth v))) (\<lambda>sp.
        lift_result (new_runtime c ident (cv_host v) tr sp))))))"

text \<open>A collection outside the runtime is one round.\<close>

definition collect_batch :: "config \<Rightarrow> cli_view \<Rightarrow> exn + identity \<times> batch" where
  "collect_batch c v =
     bind_result (own_identity v) (\<lambda>ident.
     bind_result (build_collectors c ident (cv_os v)) (\<lambda>cs.
     bind_result
       (collect_all (fst (round_of v cs 0)) (max_collector_workers c) (collection_timeout_sec c) (snd (round_of v cs 0))) (\<lambda>b.
     Inr (ident, b))))"

definition aggregate_failure :: "batch \<Rightarrow> bool" where
  "aggregate_failure b \<longleftrightarrow>
     batch_results b \<noteq> [] \<and> list_all (\<lambda>r. res_status r \<in> {CFailed, CTimedOut}) (batch_results b)"

definition collect_once :: "config \<Rightarrow> string \<Rightarrow> cli_view \<Rightarrow> (dict \<times> bool) act" where
  "collect_once c ev v =
     bnd (lift_result (collect_batch c v)) (\<lambda>(ident, b).
     bnd (gets (\<lambda>s. build_payload (cv_host v) (clock (disk s)) (uuids s (cycles s)) ev ident b NowNone None)) (\<lambda>r.
     bnd (lift_result r) (\<lambda>d. ret (d, aggregate_failure b))))"

definition health_snapshot :: "config \<Rightarrow> cli_view \<Rightarrow> dict act" where
  "health_snapshot c v =
     bnd (lift_result (collect_batch c v)) (\<lambda>(ident, b).
     bnd (on_disk (new_spool (spool_max_bytes c) (spool_max_age_sec c) (cv_sha v) (cv_depth v))) (\<lambda>sp.
     bnd (on_disk (stats sp)) (\<lambda>(pending_count, pending_bytes, dead_count).
     ret [(''version'', JStr (host_version (cv_host v))), (''python'', JStr (host_python (cv_host v))),
          (''identity_source'', JStr (id_source ident)),
          (''spool'', JObj [(''pending_count'', JInt (int pending_count)), (''pending_bytes'', JInt (int pending_bytes)),
             (''dead_letter_count'', JInt (int dead_count))]),
          (''collectors'', JList (map (\<lambda>r. JObj [(''name'', JStr (res_name r)),
             (''status'', JStr (status_value (res_status r)))]) (batch_results b)))])))"

definition run_command :: "config \<Rightarrow> cli_view \<Rightarrow> nat \<Rightarrow> (int \<times> console) act" where
  "run_command c v fuel = bnd (create_runtime c v) (\<lambda>rt. andthen (run_agent rt fuel) (ret (say 0 [])))"

definition once_transmit :: "runtime \<Rightarrow> string \<Rightarrow> (int \<times> console) act" where
  "once_transmit rt ev =
     try_else (run_cycle rt ev) any_exn
       (\<lambda>e. andthen (suppress any_exn (on_link close_transport)) (throw e))
       (\<lambda>res. andthen (on_link close_transport) (ret (say (if cr_delivered res then 0 else 4) [])))"

definition once_command :: "config \<Rightarrow> string \<Rightarrow> bool \<Rightarrow> cli_view \<Rightarrow> (int \<times> console) act" where
  "once_command c ev no_transmit v =
     (if \<not> event_ok ev then ret (complain ''invalid event name'')
      else if no_transmit then
        try_else (collect_once c ev v) is_ValueError
          (\<lambda>_. ret (complain ''invalid event name''))
          (\<lambda>(d, failed). ret (say (if failed then 3 else 0) [Doc (JObj d)]))
      else bnd (create_runtime c v) (\<lambda>rt. once_transmit rt ev))"

datatype command = RunCommand | OnceCommand string bool | CheckConfig | Health | Version

fun needs_transport :: "command \<Rightarrow> bool" where
  "needs_transport (OnceCommand ev no_transmit) \<longleftrightarrow> \<not> no_transmit"
| "needs_transport _ \<longleftrightarrow> True"

fun dispatch :: "command \<Rightarrow> config \<Rightarrow> cli_view \<Rightarrow> nat \<Rightarrow> (int \<times> console) act" where
  "dispatch RunCommand c v fuel = run_command c v fuel"
| "dispatch (OnceCommand ev no_transmit) c v fuel = once_command c ev no_transmit v"
| "dispatch CheckConfig c v fuel = ret (say 0 [Line ''configuration valid''])"
| "dispatch Health c v fuel = bnd (health_snapshot c v) (\<lambda>d. ret (say 0 [Doc (JObj d)]))"
| "dispatch Version c v fuel = throw AssertionError"

fun is_ConfigError :: "exn \<Rightarrow> bool" where
  "is_ConfigError (ConfigError _) = True"
| "is_ConfigError _ = False"

fun config_message :: "exn \<Rightarrow> string" where
  "config_message (ConfigError m) = m"
| "config_message _ = []"

definition main :: "command \<Rightarrow> cli_view \<Rightarrow> nat \<Rightarrow> (int \<times> console) act" where
  "main cmd v fuel =
     (if cmd = Version
      then ret (say 0 [Line (''monitor-agent '' @ host_version (cv_host v) @ '' Python '' @ host_python (cv_host v))])
      else
        try_except
          (bnd (lift_result (prepare_config (needs_transport cmd) v)) (\<lambda>c. dispatch cmd c v fuel))
          is_ConfigError (\<lambda>e. ret (complain (config_message e))))"

section \<open>The probe leaves nothing behind\<close>

fun os_only :: "exn + 'a \<Rightarrow> bool" where
  "os_only (Inl e) = is_OSError e"
| "os_only (Inr _) = True"

definition os_calls :: "probe_calls \<Rightarrow> bool" where
  "os_calls d \<longleftrightarrow> os_only (dc_mkdir d) \<and> os_only (dc_chmod d) \<and> os_only (dc_mkstemp d) \<and> os_only (dc_fchmod d) \<and>
     os_only (dc_close d) \<and> os_only (dc_unlink d 0) \<and> os_only (dc_unlink d 1) \<and> os_only (dc_unlink d 2)"

text \<open>After the body of the \<open>try\<close>: a probe that was made is named, there and open.\<close>

definition probe_made :: "probe_calls \<Rightarrow> probe \<Rightarrow> bool" where
  "probe_made d w \<longleftrightarrow> pb_open w = pb_named w \<and> pb_file w = pb_named w \<and> pb_closes w = 0 \<and> pb_unlinks w = 0 \<and>
     (\<not> pb_failed w \<longrightarrow> pb_named w \<and> dc_mkdir d = Inr () \<and> dc_mkstemp d = Inr ())"

lemma not_fatal_OSError: "is_OSError e \<Longrightarrow> \<not> fatal e"
  by (cases e) auto

lemma wp_lift_os: "os_only r \<Longrightarrow> (\<And>e. r = Inl e \<Longrightarrow> is_OSError e \<Longrightarrow> E e w) \<Longrightarrow> (\<And>x. r = Inr x \<Longrightarrow> Q x w) \<Longrightarrow>
    wp (lift_result r) Q E w"
  by (cases r) (auto simp: wp_simps)

lemma wp_make_probe:
  assumes "os_calls d"
  shows "wp (make_probe posix d) (\<lambda>_. probe_made d) (\<lambda>_ _. False) no_probe"
  using assms
  by (cases "dc_mkdir d"; cases "dc_chmod d"; cases "dc_mkstemp d"; cases "dc_fchmod d"; cases posix)
    (simp_all add: os_calls_def make_probe_def set_failed_def when_m_def wp_simps probe_made_def no_probe_def
      not_fatal_OSError)

definition probe_closed :: "probe_calls \<Rightarrow> probe \<Rightarrow> bool" where
  "probe_closed d w \<longleftrightarrow> \<not> pb_open w \<and> pb_file w = pb_named w \<and> pb_closes w \<le> 1 \<and> pb_unlinks w = 0 \<and>
     (\<not> pb_failed w \<longrightarrow> pb_named w \<and> dc_mkdir d = Inr () \<and> dc_mkstemp d = Inr ())"

lemma wp_close_probe:
  assumes "os_calls d" and "probe_made d w"
  shows "wp (close_probe d) (\<lambda>_. probe_closed d) (\<lambda>_ _. False) w"
  using assms
  by (cases "dc_close d"; cases "pb_open w")
    (auto simp: os_calls_def close_probe_def set_failed_def when_m_def wp_simps probe_made_def probe_closed_def
      not_fatal_OSError)

definition probe_gone :: "probe_calls \<Rightarrow> probe \<Rightarrow> bool" where
  "probe_gone d w \<longleftrightarrow> \<not> pb_open w \<and> pb_closes w \<le> 1 \<and> pb_unlinks w \<le> probe_unlink_attempts \<and>
     (\<not> pb_failed w \<longrightarrow> \<not> pb_file w \<and> dc_mkdir d = Inr () \<and> dc_mkstemp d = Inr ())"

text \<open>The loop of the attempts: \<open>j\<close> are left; without a \<open>break\<close> the file is still there.\<close>

lemma wp_attempt:
  assumes "os_only (dc_unlink d k)"
    and "\<And>e. dc_unlink d k = Inl e \<Longrightarrow> e = OSError (Io EINTR) \<Longrightarrow> Q None (w\<lparr>pb_unlinks := Suc (pb_unlinks w)\<rparr>)"
    and "\<And>e. dc_unlink d k = Inl e \<Longrightarrow> e \<noteq> OSError (Io EINTR) \<Longrightarrow>
      Q (Some ()) (w\<lparr>pb_unlinks := Suc (pb_unlinks w), pb_failed := True\<rparr>)"
    and "dc_unlink d k = Inr () \<Longrightarrow> Q (Some ()) (w\<lparr>pb_unlinks := Suc (pb_unlinks w), pb_file := False\<rparr>)"
  shows "wp (unlink_attempt d k) Q E w"
  using assms
  by (cases "dc_unlink d k") (auto simp: unlink_attempt_def set_failed_def wp_simps not_fatal_OSError)

lemma wp_remove_probe:
  assumes "os_calls d" and "probe_closed d w"
  shows "wp (remove_probe d) (\<lambda>_. probe_gone d) (\<lambda>_ _. False) w"
proof (cases "pb_named w")
  case False
  with assms(2) show ?thesis
    by (simp add: remove_probe_def wp_simps when_m_def probe_closed_def probe_gone_def)
next
  case True
  have os: "os_only (dc_unlink d 0)" "os_only (dc_unlink d 1)" "os_only (dc_unlink d 2)"
    using assms(1) by (simp_all add: os_calls_def)
  have three: "probe_unlink_attempts = Suc (Suc (Suc 0))" by (simp add: probe_unlink_attempts_def)
  have "wp (for_range probe_unlink_attempts 0 (unlink_attempt d))
      (\<lambda>b u. (b = None \<or> probe_gone d u) \<and> probe_gone d (u\<lparr>pb_failed := True\<rparr>)) (\<lambda>_ _. False) w"
    using assms(2) True os unfolding three for_range.simps
    by (auto simp: wp_simps probe_closed_def probe_gone_def three numeral_2_eq_2 intro!: wp_attempt)
  then show ?thesis
    using True unfolding remove_probe_def wp_simps when_m_def
    by (auto simp: wp_simps set_failed_def elim!: wp_mono)
qed

text \<open>C17: The check of a directory cleans up: whatever system calls fail, it returns or raises
  \<open>ConfigError\<close> with its message and nothing else, closes the probe's descriptor, once, tries to remove
  the probe at most three times, and returns only if the directory is there, took a probe, and the probe
  is gone again.\<close>

theorem probe_leaves_nothing:
  assumes "os_calls d" and "validate_writable_directory posix d message no_probe = (r, w)"
  shows "\<not> pb_open w \<and> pb_closes w \<le> 1 \<and> pb_unlinks w \<le> 3 \<and>
    (if r = Inr () then \<not> pb_file w \<and> dc_mkdir d = Inr () \<and> dc_mkstemp d = Inr () else r = Inl (ConfigError message))"
proof -
  have cleanup: "wp (andthen (close_probe d) (remove_probe d)) (\<lambda>_. probe_gone d) (\<lambda>_ _. False) u"
    if "probe_made d u" for u
    using wp_close_probe [OF assms(1) that]
    by (auto simp: wp_simps elim!: wp_mono intro: wp_remove_probe [OF assms(1)])
  have "wp (try_finally (make_probe posix d) (andthen (close_probe d) (remove_probe d))) (\<lambda>_. probe_gone d) (\<lambda>_ _. False) no_probe"
    using wp_make_probe [OF assms(1), of posix] unfolding wp_try_finally
    by (auto elim!: wp_mono dest: cleanup)
  then have "wp (validate_writable_directory posix d message)
      (\<lambda>_ u. probe_gone d u \<and> \<not> pb_failed u) (\<lambda>e u. probe_gone d u \<and> e = ConfigError message) no_probe"
    unfolding validate_writable_directory_def by (auto simp: wp_simps elim!: wp_mono)
  with assms(2) show ?thesis
    by (cases r) (auto simp: wp_def probe_gone_def probe_unlink_attempts_def)
qed

theorem probe_leaves_nothing_witness:
  "\<exists>w. validate_writable_directory True
      \<lparr>dc_mkdir = Inr (), dc_chmod = Inr (), dc_mkstemp = Inr (), dc_fchmod = Inl (OSError (Io EACCES)), dc_close = Inr (),
       dc_unlink = (\<lambda>k. if k = 0 then Inl (OSError (Io EINTR)) else Inr ())\<rparr> ''m'' no_probe =
    (Inl (ConfigError ''m''), w) \<and> \<not> pb_open w"
proof -
  let ?d = "\<lparr>dc_mkdir = Inr (), dc_chmod = Inr (), dc_mkstemp = Inr (), dc_fchmod = Inl (OSError (Io EACCES)), dc_close = Inr (),
       dc_unlink = (\<lambda>k. if k = 0 then Inl (OSError (Io EINTR)) else Inr ())\<rparr>"
  have os: "os_calls ?d" by (simp add: os_calls_def)
  obtain r w where run: "validate_writable_directory True ?d ''m'' no_probe = (r, w)" by fastforce
  have "wp (make_probe True ?d) (\<lambda>_ u. pb_failed u) (\<lambda>_ _. False) no_probe"
    by (simp add: make_probe_def set_failed_def when_m_def wp_simps)
  moreover have "wp (andthen (close_probe ?d) (remove_probe ?d)) (\<lambda>_ u. pb_failed u) (\<lambda>_ _. False) u" if "pb_failed u" for u
    using that by (simp add: close_probe_def remove_probe_def when_m_def probe_unlink_attempts_def numeral_3_eq_3
        unlink_attempt_def set_failed_def wp_simps)
  ultimately have "wp (try_finally (make_probe True ?d) (andthen (close_probe ?d) (remove_probe ?d))) (\<lambda>_ u. pb_failed u)
      (\<lambda>_ _. False) no_probe"
    unfolding wp_try_finally by (rule_tac wp_mono [where E = "\<lambda>_ _. False"]) blast+
  then have "wp (validate_writable_directory True ?d ''m'') (\<lambda>_ _. False) (\<lambda>e _. e = ConfigError ''m'') no_probe"
    unfolding validate_writable_directory_def wp_andthen by (rule wp_mono) (simp_all add: wp_simps)
  with run have "r = Inl (ConfigError ''m'')" by (cases r) (auto simp: wp_def)
  with probe_leaves_nothing [OF os run] run show ?thesis by auto
qed

section \<open>What the exit codes mean\<close>

lemma create_runtime_keeps:
  "keeps (\<lambda>s. journal s = js \<and> closed (link s) = k) (create_runtime c v)"
  unfolding create_runtime_def hand_over_def
  by (intro keeps_intros) (auto simp: keeps_def modify_def on_disk_def lift_result_def split: prod.split)

text \<open>The last entry of a cycle's journal tells its result.\<close>

lemma cycle_last:
  assumes "cycle_steps rt res j"
  shows "cr_delivered res \<longleftrightarrow> (\<exists>a d r. j = a @ [Posted d r] \<and> dr_kind r = Success \<and> map fst d = schema_keys)"
proof -
  obtain left d a b where s: "map fst d = schema_keys" "j = a @ b" "cycle_end left d res b"
    using assms by (auto simp: cycle_steps_def)
  show ?thesis
  proof (cases "left = []")
    case False
    with s show ?thesis by (auto simp: cycle_end_def cycle_result_of_def)
  next
    case True
    with s(3) obtain r where "case dr_kind r of
             Success \<Rightarrow> b = [Posted d r] \<and> res = cycle_result_of d True False (Some Success)
           | Permanent \<Rightarrow> b = [Posted d r] \<and> res = cycle_result_of d False False (Some Permanent)
           | kind \<Rightarrow> (\<exists>n. b = [Posted d r, Enqueued (JObj d) n, Retained]) \<and>
                     res = cycle_result_of d False True (Some kind)" by (auto simp: cycle_end_def)
    with s(1,2) show ?thesis by (cases "dr_kind r") (auto simp: cycle_result_of_def)
  qed
qed

lemma once_transmit_returns:
  assumes "once_transmit rt ev s = (Inr (code, con), s')"
  shows "\<exists>res j. journal s' = journal s @ j \<and> cycle_steps rt res j \<and> code = (if cr_delivered res then 0 else 4) \<and>
    con = \<lparr>out = [], err = []\<rparr> \<and> closed (link s') = Suc (closed (link s))"
proof -
  obtain q u where u: "run_cycle rt ev s = (q, u)" by fastforce
  with assms obtain res where q: "q = Inr res"
    by (cases q) (auto simp: once_transmit_def try_else_def suppress_def try_except_def andthen_def bnd_def throw_def
        ret_def split: if_splits prod.splits sum.splits)
  have "closed (link u) = closed (link s)"
    using keepsD [OF keeps_closed_cycle [of "closed (link s)" rt ev], of s] u by (simp add: closed_times_def)
  moreover obtain j where "journal u = journal s @ j" "cycle_steps rt res j"
    using adds_run_cycle [of rt ev, unfolded adds_def wp_def, rule_format, of s] u q by auto
  ultimately show ?thesis
    using assms u q close_run [of u]
    by (auto simp: once_transmit_def try_else_def andthen_def bnd_def ret_def say_def)
qed

lemma once_returns:
  assumes "main (OnceCommand ev False) v fuel s = (Inr (code, con), s')"
  shows "(\<exists>m. complain m = (code, con)) \<or>
    (\<exists>c rt u. event_ok ev \<and> create_runtime c v s = (Inr rt, u) \<and> once_transmit rt ev u = (Inr (code, con), s'))"
proof (cases "prepare_config True v")
  case (Inl e)
  with assms show ?thesis
    by (auto simp: main_def try_except_def try_else_def bnd_def lift_result_def ret_def split: if_splits)
next
  case (Inr c)
  show ?thesis
  proof (cases "event_ok ev")
    case False
    with assms Inr show ?thesis
      by (auto simp: main_def try_except_def try_else_def bnd_def lift_result_def ret_def once_command_def)
  next
    case True
    obtain q u where u: "create_runtime c v s = (q, u)" by fastforce
    with assms Inr True show ?thesis
      by (cases q) (auto simp: main_def try_except_def try_else_def bnd_def lift_result_def ret_def once_command_def
          split: if_splits prod.splits sum.splits)
  qed
qed

lemma accepted_transport:
  assumes "load_config rules is_file source True os = Inr c"
  shows "\<exists>t. new_transport c 4 = Inr t \<and> tr_attempts t = 4"
proof -
  obtain k where k: "checked_settings rules is_file source True os = Inr k"
    "collector_uri c = ck_uri k" "api_token c = ck_token k"
    by (rule load_config_checked [OF assms])
  with checked_facts(1) [OF k(1)] show ?thesis
    by (auto simp: new_transport_def nonempty_def require_def)
qed

text \<open>A healthy agent's \<open>once\<close> ends with code 0.\<close>

lemma healthy_once:
  assumes "prepare_config True v = Inr c" and "own_identity v = Inr ident" and "id_value ident \<noteq> []"
    and "build_collectors c ident (cv_os v) = Inr cs"
    and "list_all (\<lambda>(_, r). run_outcome r \<noteq> Raised NotAnException) (fst (round_of v cs 0))"
    and "at_rest (disk s)" and "records (disk s) = []" and "0 \<le> clock (disk s) - spool_max_age_sec c * 1000000"
    and "event_ok ev" and "uuids s (cycles s) \<noteq> []" and "accepted_answer (answer (link s) (length (posts (link s))))"
  shows "\<exists>s'. main (OnceCommand ev False) v fuel s = (Inr (0, \<lparr>out = [], err = []\<rparr>), s')"
proof -
  have loaded: "load_config (cv_rules v) (cv_is_file v) (cv_source v) True (cv_os v) = Inr c"
    using assms(1) by (auto simp: prepare_config_def bind_result_Inr)
  then have limits: "within_limits c" by (rule load_config_fields)
  obtain tr where tr: "new_transport c 4 = Inr tr" "tr_attempts tr = 4" using accepted_transport [OF loaded] by blast
  let ?sp = "\<lparr>max_bytes = spool_max_bytes c, max_age_sec = spool_max_age_sec c, sha = cv_sha v, depth_limit = cv_depth v\<rparr>"
  let ?rt = "\<lparr>rt_config = c, rt_identity = ident, rt_host = cv_host v, rt_transport = tr, rt_spool = ?sp\<rparr>"
  let ?u = "s\<lparr>rounds := (\<lambda>k. round_of v cs (k - cycles s)), disk := prepared (disk s)\<rparr>"
  have spool: "new_spool (spool_max_bytes c) (spool_max_age_sec c) (cv_sha v) (cv_depth v) (disk s) = (Inr ?sp, prepared (disk s))"
    using limits run_prepare [OF assms(6)] by (simp add: new_spool_def within_limits_def Let_def andthen_run ret_def)
  have runtime: "new_runtime c ident (cv_host v) tr ?sp = Inr ?rt"
    using limits by (simp add: new_runtime_def within_limits_def require_def)
  have made: "create_runtime c v s = (Inr ?rt, ?u)"
    by (simp add: create_runtime_def hand_over_def bnd_def andthen_def lift_result_def modify_def on_disk_def
        assms(2,4) tr(1) spool runtime)
  have clock: "clock (prepared (disk s)) = clock (disk s)" by (simp add: prepared_def)
  have "validate_limits (max_collector_workers c) (collection_timeout_sec c) = Inr ()"
    using limits by (auto simp: validate_limits_def within_limits_def float_within_def require_def split: pyfloat.splits)
  from collect_all_total [OF this assms(5)] obtain b where b: "collect_all (fst (rounds ?u (cycles ?u)))
      (max_collector_workers c) (collection_timeout_sec c) (snd (rounds ?u (cycles ?u))) = Inr b" by auto
  obtain res u' where ran: "run_cycle ?rt ev ?u = (Inr res, u')" "cr_delivered res"
    using healthy_cycle [of ?u ?rt b ev] at_rest_prepared [OF assms(6)] assms(3,7-11) b tr(2) clock by auto
  have "once_transmit ?rt ev ?u = (Inr (say 0 []), u'\<lparr>link := (link u')\<lparr>closed := Suc (closed (link u'))\<rparr>\<rparr>)"
    by (simp add: once_transmit_def try_else_def ran andthen_def bnd_def close_run ret_def)
  then show ?thesis
    using assms(9) by (simp add: main_def try_except_def try_else_def bnd_def lift_result_def assms(1) once_command_def made say_def ret_def)
qed

text \<open>C11: The exit code of \<open>once\<close> tells the truth: it is 2, with a message and nothing printed, or the
  event name is valid, the transport was closed, and the code is 0 exactly if the last call of the cycle
  was a request with the new event that the server accepted, and 4 otherwise.\<close>

theorem once_exit_code:
  assumes "main (OnceCommand ev False) v fuel s = (Inr (code, con), s')"
  shows "if code = 2 then out con = [] \<and> length (err con) = 1
    else event_ok ev \<and> code \<in> {0, 4} \<and> closed (link s') = Suc (closed (link s)) \<and>
      (code = 0 \<longleftrightarrow> (\<exists>a d r. journal s' = journal s @ a @ [Posted d r] \<and> dr_kind r = Success \<and> map fst d = schema_keys))"
  using once_returns [OF assms]
proof (elim disjE exE conjE)
  fix m
  assume "complain m = (code, con)"
  then show ?thesis by (auto simp: complain_def)
next
  fix c rt u
  assume ev: "event_ok ev" and made: "create_runtime c v s = (Inr rt, u)"
    and ran: "once_transmit rt ev u = (Inr (code, con), s')"
  have same: "journal u = journal s \<and> closed (link u) = closed (link s)"
    using keepsD [OF create_runtime_keeps [of "journal s" "closed (link s)" c v], of s] made by simp
  with once_transmit_returns [OF ran] obtain res j where "journal s' = journal s @ j" "cycle_steps rt res j"
    "code = (if cr_delivered res then 0 else 4)" "closed (link s') = Suc (closed (link s))" by auto
  with cycle_last [of rt res j] ev show ?thesis by auto
qed

definition sample_calls :: probe_calls where
  "sample_calls =
     \<lparr>dc_mkdir = Inr (), dc_chmod = Inr (), dc_mkstemp = Inr (), dc_fchmod = Inr (), dc_close = Inr (), dc_unlink = (\<lambda>_. Inr ())\<rparr>"

text \<open>A host on which the paths are in order, and no collector can read anything.\<close>

definition sample_shell :: cli_view where
  "sample_shell =
     \<lparr>cv_rules = sample_rules, cv_is_file = (\<lambda>_. False), cv_source = sample_env, cv_os = ''linux'', cv_posix = True,
      cv_spool_dir = sample_calls, cv_ca_readable = True, cv_log_symlink = False, cv_log_exists = False,
      cv_log_is_file = True, cv_log_dir = sample_calls, cv_log_exists_then = False, cv_log_open = Inr (),
      cv_log_close = Inr (), cv_logging = Inr (), cv_sha_bytes = (\<lambda>_. replicate 32 0),
      cv_ids = \<lparr>machine_id_file = Inr ''4c4c4544'', machine_guid = NoRegistry, ioreg_output = None\<rparr>,
      cv_candidate = [], cv_store = \<lparr>dir_mode = None, id_file = None\<rparr>, cv_host = sample_host, cv_sha = (\<lambda>bs. bs),
      cv_depth = 100, cv_views = (\<lambda>_. silent_host), cv_called = (\<lambda>_ _. True), cv_spans = (\<lambda>_ _. (0, Some 1)),
      cv_ticks = (\<lambda>_. sample_ticks)\<rparr>"

lemma sample_probe: "fst (validate_writable_directory True sample_calls m no_probe) = Inr ()"
proof -
  have "wp (validate_writable_directory True sample_calls m) (\<lambda>_ _. True) (\<lambda>_ _. False) no_probe"
    by (simp add: validate_writable_directory_def make_probe_def close_probe_def remove_probe_def sample_calls_def
        when_m_def probe_unlink_attempts_def numeral_3_eq_3 unlink_attempt_def set_failed_def no_probe_def wp_simps)
  then show ?thesis by (auto simp: wp_def split: prod.splits sum.splits)
qed

lemma sample_prepared: "\<exists>c. prepare_config True sample_shell = Inr c"
proof -
  obtain c where c: "load_config sample_rules (\<lambda>_. False) sample_env True ''linux'' = Inr c" using sample_config by blast
  moreover have "validate_paths c sample_shell = Inr ()"
    by (simp add: validate_paths_def sample_shell_def sample_probe require_def)
  ultimately show ?thesis by (simp add: prepare_config_def sample_shell_def os_error_as_def)
qed

lemma sample_own_identity: "\<exists>i. own_identity sample_shell = Inr i \<and> id_value i \<noteq> []"
proof -
  have "read_linux_machine_id (Inr ''4c4c4544'') = Inr (Some ''4c4c4544'')" "utf8_encode ''4c4c4544'' = Inr ''4c4c4544''"
    by code_simp+
  moreover have "uuid_text n \<noteq> []" for n using length_uuid_text [of n] by fastforce
  ultimately show ?thesis
    by (simp add: own_identity_def resolve_machine_identity_def sample_shell_def platform_identifier_def hashed_uuid_def)
qed

text \<open>Its spool is empty, and its server accepts.\<close>

definition fresh_machine :: machine where
  "fresh_machine =
     sample_machine\<lparr>disk := (prepared empty_world)\<lparr>clock := 1700000000000000\<rparr>\<rparr>"

theorem once_exit_code_witness:
  "\<exists>s' a d r. main (OnceCommand ''manual'' False) sample_shell 0 fresh_machine = (Inr (0, \<lparr>out = [], err = []\<rparr>), s') \<and>
    journal s' = journal fresh_machine @ a @ [Posted d r] \<and> dr_kind r = Success"
proof -
  obtain c where c: "prepare_config True sample_shell = Inr c" using sample_prepared by blast
  then have "load_config sample_rules (\<lambda>_. False) sample_env True ''linux'' = Inr c"
    by (auto simp: prepare_config_def bind_result_Inr sample_shell_def)
  then have limits: "within_limits c" by (rule load_config_fields)
  obtain i where i: "own_identity sample_shell = Inr i" "id_value i \<noteq> []" using sample_own_identity by blast
  obtain cs where cs: "build_collectors c i (cv_os sample_shell) = Inr cs" using limits_build [OF limits] by blast
  have quiet: "list_all (\<lambda>(_, r). run_outcome r \<noteq> Raised NotAnException) (fst (round_of sample_shell cs 0))"
    using silent_outcomes [of c i cs] cs by (auto simp: round_of_def runs_of_def list_all_iff sample_shell_def dest!: set_zip_leftD)
  have rest: "at_rest (disk fresh_machine)" "records (disk fresh_machine) = []"
    by (simp_all add: at_rest_def records_def fresh_machine_def, simp_all add: prepared_def empty_world_def sort_records_def)
  have age: "0 \<le> clock (disk fresh_machine) - spool_max_age_sec c * 1000000"
    using limits by (simp add: fresh_machine_def within_limits_def)
  have "event_ok ''manual''" by code_simp
  moreover have "uuids fresh_machine (cycles fresh_machine) \<noteq> []"
    "accepted_answer (answer (link fresh_machine) (length (posts (link fresh_machine))))"
    by (simp_all add: fresh_machine_def sample_machine_def accepted_answer_def)
  ultimately obtain s' where "main (OnceCommand ''manual'' False) sample_shell 0 fresh_machine = (Inr (0, \<lparr>out = [], err = []\<rparr>), s')"
    using healthy_once [OF c i cs quiet rest age] by blast
  with once_exit_code [OF this] show ?thesis by auto
qed

text \<open>
  A machine id that is no UTF-8 is reported as an invalid event name: \<open>UnicodeDecodeError\<close> is a
  \<open>ValueError\<close>, and \<open>_once_command\<close> takes every \<open>ValueError\<close> of a collection for the
  complaint of \<open>build_payload\<close>.
\<close>

lemma identity_error_misreported:
  assumes "prepare_config False v = Inr c" and "event_ok ev" and "cv_os v = ''linux''"
    and "machine_id_file (cv_ids v) = Inr bs" and "utf8_decode bs = Inl UnicodeDecodeError"
  shows "main (OnceCommand ev True) v fuel s = (Inr (2, \<lparr>out = [], err = [''invalid event name'']\<rparr>), s)"
proof -
  have "own_identity v = Inl UnicodeDecodeError"
    using assms(3-5) by (simp add: own_identity_def resolve_machine_identity_def platform_identifier_def
        read_linux_machine_id_def read_text_def bind_result_def)
  then show ?thesis
    using assms(1,2)
    by (simp add: main_def try_except_def try_else_def bnd_def lift_result_def once_command_def collect_once_def
        collect_batch_def bind_result_def ret_def complain_def)
qed

end
