(* ===== verification/Logging.thy ===== *)
theory Logging
  imports Processes
begin

text \<open>
  \<open>logging_setup.py\<close>: the filter that redacts credentials, the formatters, the owner-only log file and
  \<open>configure_logging\<close>. A log record is its template and its arguments, of which only the strings are
  looked into; the regular expressions, which never need to go back, are read from left to right.
\<close>

section \<open>Patterns\<close>

definition redacted :: string where
  "redacted = ''[REDACTED]''"

text \<open>\<open>_BEARER_PATTERN\<close> at a place of the text: its two groups and what follows.\<close>

definition after_word :: "string \<Rightarrow> string \<Rightarrow> (string \<times> string) option" where
  "after_word word s =
     (if casefold (take (length word) s) = word then Some (take (length word) s, drop (length word) s) else None)"

definition take_spaces :: "string \<Rightarrow> string \<times> string" where
  "take_spaces s = (takeWhile is_space s, dropWhile is_space s)"

definition bearer_at :: "string \<Rightarrow> (string \<times> string \<times> string) option" where
  "bearer_at s =
     (case after_word ''authorization'' s of
        None \<Rightarrow> None
      | Some (w1, s1) \<Rightarrow>
          (case take_spaces s1 of
             (b1, c # s2) \<Rightarrow>
               if c \<noteq> CHR '':'' then None
               else
                 (case take_spaces s2 of (b2, s3) \<Rightarrow>
                   (case after_word ''bearer'' s3 of
                      None \<Rightarrow> None
                    | Some (w2, s4) \<Rightarrow>
                        (case take_spaces s4 of (b3, s5) \<Rightarrow>
                          let token = takeWhile (\<lambda>x. \<not> is_space x) s5
                          in if b3 = [] \<or> token = [] then None
                             else Some (w1 @ b1 @ CHR '':'' # b2 @ w2 @ b3, token, dropWhile (\<lambda>x. \<not> is_space x) s5))))
           | _ \<Rightarrow> None))"

text \<open>\<open>sub\<close> and \<open>finditer\<close> see a text as the characters outside the matches, and the matches.\<close>

datatype bearer_piece = Other char | Token string string

lemma bearer_at_parts:
  "bearer_at s = Some (g, token, rest) \<Longrightarrow> s = g @ token @ rest \<and> token \<noteq> []"
  unfolding bearer_at_def after_word_def take_spaces_def
  by (auto simp: Let_def split: option.splits list.splits if_splits prod.splits)
    (metis append.assoc append_Cons append_take_drop_id takeWhile_dropWhile_id)+

function bearer_pieces :: "string \<Rightarrow> bearer_piece list" where
  "bearer_pieces s =
     (case bearer_at s of
        Some (g, token, rest) \<Rightarrow> Token g token # bearer_pieces rest
      | None \<Rightarrow> (case s of [] \<Rightarrow> [] | c # t \<Rightarrow> Other c # bearer_pieces t))"
  by pat_completeness auto
termination
  by (relation "measure length") (auto dest: bearer_at_parts)

declare bearer_pieces.simps [simp del]

fun bearer_text :: "(string \<Rightarrow> string \<Rightarrow> string) \<Rightarrow> bearer_piece list \<Rightarrow> string" where
  "bearer_text f [] = []"
| "bearer_text f (Other c # ps) = c # bearer_text f ps"
| "bearer_text f (Token g token # ps) = f g token @ bearer_text f ps"

section \<open>Redaction\<close>

definition replace_secrets :: "string list \<Rightarrow> string \<Rightarrow> string" where
  "replace_secrets secrets s = fold (\<lambda>p t. replace_all p redacted t) secrets s"

definition redact :: "string list \<Rightarrow> string \<Rightarrow> string" where
  "redact secrets s = bearer_text (\<lambda>g token. g @ redacted) (bearer_pieces (replace_secrets secrets s))"

section \<open>Conversions\<close>

text \<open>\<open>_PRINTF_PATTERN\<close> at a place of the text: the key, whether width and precision are stars, the
  conversion, and what follows.\<close>

definition printf_key :: "string \<Rightarrow> string option \<times> string" where
  "printf_key s =
     (case s of
        c # t \<Rightarrow>
          (let k = takeWhile (\<lambda>x. x \<noteq> CHR '')'') t; r = dropWhile (\<lambda>x. x \<noteq> CHR '')'') t
           in if c = CHR ''('' \<and> k \<noteq> [] \<and> r \<noteq> [] then (Some k, tl r) else (None, s))
      | [] \<Rightarrow> (None, s))"

definition printf_size :: "string \<Rightarrow> bool \<times> string" where
  "printf_size s =
     (if s \<noteq> [] \<and> hd s = CHR ''*'' then (True, tl s) else (False, dropWhile is_digit s))"

record printf_match =
  pm_key :: "string option"
  pm_width :: bool
  pm_precision :: bool
  pm_conversion :: char

definition printf_at :: "string \<Rightarrow> (printf_match \<times> string) option" where
  "printf_at s =
     (if s = [] \<or> hd s \<noteq> CHR ''%'' then None
      else
        (let (key, s1) = printf_key (tl s);
             s2 = dropWhile (\<lambda>c. c \<in> set ''-#0 +'') s1;
             (width, s3) = printf_size s2;
             (precision, s4) = (if s3 \<noteq> [] \<and> hd s3 = CHR ''.'' then printf_size (tl s3) else (False, s3));
             s5 = (if s4 \<noteq> [] \<and> hd s4 \<in> set ''hlL'' then tl s4 else s4)
         in if s5 \<noteq> [] \<and> hd s5 \<in> set ''diouxXeEfFgGcrsa%''
            then Some (\<lparr>pm_key = key, pm_width = width, pm_precision = precision, pm_conversion = hd s5\<rparr>, tl s5)
            else None))"

lemma printf_key_length: "length (snd (printf_key s)) \<le> length s"
proof (cases s)
  case (Cons c t)
  have "length (dropWhile (\<lambda>x. x \<noteq> CHR '')'') t) \<le> length t" by (rule length_dropWhile_le)
  with Cons show ?thesis by (auto simp: printf_key_def Let_def)
qed (simp add: printf_key_def)

lemma printf_size_length: "length (snd (printf_size s)) \<le> length s"
  using length_dropWhile_le [of is_digit s] by (auto simp: printf_size_def)

lemma printf_at_shorter:
  assumes "printf_at s = Some (m, rest)"
  shows "length rest < length s"
proof -
  obtain key s1 where s1: "printf_key (tl s) = (key, s1)" by fastforce
  let ?s2 = "dropWhile (\<lambda>c. c \<in> set ''-#0 +'') s1"
  obtain width s3 where s3: "printf_size ?s2 = (width, s3)" by fastforce
  obtain prec s4 where s4: "(if s3 \<noteq> [] \<and> hd s3 = CHR ''.'' then printf_size (tl s3) else (False, s3)) = (prec, s4)"
    by fastforce
  let ?s5 = "if s4 \<noteq> [] \<and> hd s4 \<in> set ''hlL'' then tl s4 else s4"
  have rest: "s \<noteq> []" "?s5 \<noteq> []" "rest = tl ?s5"
    using assms unfolding printf_at_def Let_def s1 prod.case s3 s4 by (auto split: if_splits)
  have "length s1 \<le> length (tl s)" using printf_key_length [of "tl s"] s1 by simp
  moreover have "length ?s2 \<le> length s1" by (rule length_dropWhile_le)
  moreover have "length s3 \<le> length ?s2" using printf_size_length [of ?s2] s3 by simp
  moreover have "length s4 \<le> length s3" using printf_size_length [of "tl s3"] s4 by (auto split: if_splits)
  moreover have "length ?s5 \<le> length s4" by simp
  moreover have "length rest < length ?s5" using rest by simp
  moreover have "length (tl s) < length s" using rest(1) by simp
  ultimately show ?thesis by linarith
qed

text \<open>\<open>finditer\<close>: where the matches start and end.\<close>

record conversion =
  cv_start :: nat
  cv_end :: nat
  cv_match :: printf_match

function conversions_from :: "nat \<Rightarrow> string \<Rightarrow> conversion list" where
  "conversions_from k s =
     (case printf_at s of
        Some (m, rest) \<Rightarrow>
          (let e = k + (length s - length rest)
           in \<lparr>cv_start = k, cv_end = e, cv_match = m\<rparr> # conversions_from e rest)
      | None \<Rightarrow> (case s of [] \<Rightarrow> [] | c # t \<Rightarrow> conversions_from (Suc k) t))"
  by pat_completeness auto
termination
  by (relation "measure (\<lambda>(k, s). length s)") (auto dest: printf_at_shorter)

declare conversions_from.simps [simp del]

section \<open>Records\<close>

text \<open>An argument is a string or another object, with the text that \<open>str\<close> would make of it.\<close>

datatype argument = Str string | Object string

datatype arguments = Positional "argument list" | Named "(string \<times> argument) list" | NoArguments

text \<open>\<open>_ActiveConversion\<close>: where it is, its letter, and the argument it takes, if any.\<close>

datatype taken = Nothing | Index nat | Key string

record active =
  ac_start :: nat
  ac_end :: nat
  ac_conversion :: char
  ac_taken :: taken

definition active_at :: "conversion \<Rightarrow> taken \<Rightarrow> active" where
  "active_at c t =
     \<lparr>ac_start = cv_start c, ac_end = cv_end c, ac_conversion = pm_conversion (cv_match c), ac_taken = t\<rparr>"

text \<open>The loop over the matches with positional arguments: \<open>index\<close> and \<open>exhausted\<close> are its locals.\<close>

fun active_positional :: "nat \<Rightarrow> conversion list \<Rightarrow> nat \<Rightarrow> bool \<Rightarrow> active list \<times> nat" where
  "active_positional n [] index exhausted = ([], index)"
| "active_positional n (c # cs) index exhausted =
     (let m = cv_match c;
          stars = (if pm_width m then 1 else 0) + (if pm_precision m then 1 else 0 :: nat)
      in if pm_conversion m = CHR ''%'' then
           (case active_positional n cs index exhausted of (as, k) \<Rightarrow> (active_at c Nothing # as, k))
         else if exhausted then active_positional n cs index exhausted
         else if pm_key m \<noteq> None \<or> n \<le> index + stars then active_positional n cs index True
         else
           (case active_positional n cs (index + stars + 1) False of
              (as, k) \<Rightarrow> (active_at c (Index (index + stars)) # as, k)))"

definition active_named :: "string list \<Rightarrow> conversion \<Rightarrow> active option" where
  "active_named keys c =
     (let m = cv_match c
      in if pm_conversion m = CHR ''%'' then Some (active_at c Nothing)
         else
           (case pm_key m of
              None \<Rightarrow> None
            | Some k \<Rightarrow> if pm_width m \<or> pm_precision m \<or> k \<notin> set keys then None else Some (active_at c (Key k))))"

definition active_conversions :: "string \<Rightarrow> arguments \<Rightarrow> active list \<times> nat" where
  "active_conversions template args =
     (case args of
        Positional as \<Rightarrow>
          if as = [] then ([], 0) else active_positional (length as) (conversions_from 0 template) 0 False
      | Named kvs \<Rightarrow>
          if kvs = [] then ([], 0) else (List.map_filter (active_named (map fst kvs)) (conversions_from 0 template), 0)
      | NoArguments \<Rightarrow> ([], 0))"

section \<open>The template\<close>

text \<open>Each active conversion is replaced by a marker, its number between two NULs.\<close>

definition slice :: "nat \<Rightarrow> nat \<Rightarrow> string \<Rightarrow> string" where
  "slice a b s = take (b - a) (drop a s)"

definition marker :: "string \<Rightarrow> string" where
  "marker digits = CHR 0x00 # digits @ [CHR 0x00]"

fun mark :: "string \<Rightarrow> nat \<Rightarrow> nat \<Rightarrow> active list \<Rightarrow> string" where
  "mark template k done [] = drop done template"
| "mark template k done (a # as) =
     slice done (ac_start a) template @ marker (dec k) @ mark template (Suc k) (ac_end a) as"

text \<open>\<open>_ACTIVE_MARKER_PATTERN\<close>: the digits of a marker at a place of the text.\<close>

definition marker_at :: "string \<Rightarrow> (string \<times> string) option" where
  "marker_at s =
     (if s \<noteq> [] \<and> hd s = CHR 0x00
      then (let ds = takeWhile is_digit (tl s); r = dropWhile is_digit (tl s)
            in if ds \<noteq> [] \<and> r \<noteq> [] \<and> hd r = CHR 0x00 then Some (ds, tl r) else None)
      else None)"

lemma marker_at_parts:
  assumes "marker_at s = Some (ds, rest)"
  shows "s = marker ds @ rest"
proof -
  let ?r = "dropWhile is_digit (tl s)"
  from assms have s: "s \<noteq> []" "hd s = CHR 0x00" and ds: "ds = takeWhile is_digit (tl s)"
    and r: "?r \<noteq> []" "hd ?r = CHR 0x00" "rest = tl ?r"
    unfolding marker_at_def Let_def by (simp_all only: split: if_splits) simp_all
  have "tl s = ds @ ?r" by (simp only: ds takeWhile_dropWhile_id)
  moreover have "?r = CHR 0x00 # rest" using r by (metis list.collapse)
  moreover have "s = CHR 0x00 # tl s" using s by (metis list.collapse)
  ultimately show ?thesis unfolding marker_def by (metis append_Cons append_Nil append.assoc)
qed

lemma marker_at_shorter: "marker_at s = Some (ds, rest) \<Longrightarrow> length rest < length s"
  by (drule marker_at_parts) (simp add: marker_def)

datatype marked_piece = Literal char | Marker string

function marked_pieces :: "string \<Rightarrow> marked_piece list" where
  "marked_pieces s =
     (case marker_at s of
        Some (ds, rest) \<Rightarrow> Marker ds # marked_pieces rest
      | None \<Rightarrow> (case s of [] \<Rightarrow> [] | c # t \<Rightarrow> Literal c # marked_pieces t))"
  by pat_completeness auto
termination
  by (relation "measure length") (auto dest: marker_at_shorter)

declare marked_pieces.simps [simp del]

text \<open>\<open>_redact_secrets_preserving_markers\<close>: the runs between the markers, each on its own.\<close>

fun replace_runs :: "string list \<Rightarrow> string \<Rightarrow> marked_piece list \<Rightarrow> string" where
  "replace_runs secrets run [] = replace_secrets secrets run"
| "replace_runs secrets run (Literal c # ps) = replace_runs secrets (run @ [c]) ps"
| "replace_runs secrets run (Marker ds # ps) = replace_secrets secrets run @ marker ds @ replace_runs secrets [] ps"

text \<open>The markers of the conversions with an argument; a marker that was in the template before may have
  a number no conversion has.\<close>

definition takes_argument :: "active list \<Rightarrow> string \<Rightarrow> exn + bool" where
  "takes_argument as ds =
     (if undec 0 ds < length as then Inr (ac_taken (as ! undec 0 ds) \<noteq> Nothing) else Inl (OtherError ''IndexError''))"

fun argument_markers :: "active list \<Rightarrow> marked_piece list \<Rightarrow> exn + string list" where
  "argument_markers as [] = Inr []"
| "argument_markers as (Literal c # ps) = argument_markers as ps"
| "argument_markers as (Marker ds # ps) =
     bind_result (takes_argument as ds) (\<lambda>b.
     bind_result (argument_markers as ps) (\<lambda>rest. Inr (if b then ds # rest else rest)))"

text \<open>\<open>redact_bearer\<close> for every match: the new text, and the numbers of the conversions in the tokens.\<close>

fun redact_bearers :: "active list \<Rightarrow> bearer_piece list \<Rightarrow> exn + string \<times> nat list" where
  "redact_bearers as [] = Inr ([], [])"
| "redact_bearers as (Other c # ps) = bind_result (redact_bearers as ps) (\<lambda>(s, ks). Inr (c # s, ks))"
| "redact_bearers as (Token g token # ps) =
     bind_result (argument_markers as (marked_pieces token)) (\<lambda>ds.
     bind_result (redact_bearers as ps) (\<lambda>(s, ks).
     Inr (g @ (if ds = [] then redacted else concat (map marker ds)) @ s, map (undec 0) ds @ ks)))"

fun restore :: "string \<Rightarrow> active list \<Rightarrow> marked_piece list \<Rightarrow> exn + string" where
  "restore template as [] = Inr []"
| "restore template as (Literal c # ps) = bind_result (restore template as ps) (\<lambda>s. Inr (c # s))"
| "restore template as (Marker ds # ps) =
     (if undec 0 ds < length as
      then bind_result (restore template as ps) (\<lambda>s.
             Inr (slice (ac_start (as ! undec 0 ds)) (ac_end (as ! undec 0 ds)) template @ s))
      else Inl (OtherError ''IndexError''))"

definition redact_template :: "string list \<Rightarrow> string \<Rightarrow> active list \<Rightarrow> exn + string \<times> nat list" where
  "redact_template secrets template as =
     bind_result (redact_bearers as (bearer_pieces (mark template 0 0 as))) (\<lambda>(marked, bearers).
     bind_result (restore template as (marked_pieces (replace_runs secrets [] (marked_pieces marked)))) (\<lambda>s.
     Inr (s, bearers)))"

section \<open>The arguments\<close>

text \<open>\<open>_safe_sentinel\<close>: a value every conversion of an argument accepts; the objects among them print as
  the text given.\<close>

definition safe_sentinel :: "string \<Rightarrow> argument" where
  "safe_sentinel cs =
     (if list_ex (\<lambda>c. c \<in> set ''diouxX'') cs then Object ''0''
      else if list_ex (\<lambda>c. c \<in> set ''eEfFgG'') cs then Object ''0.0''
      else if CHR ''c'' \<in> set cs then Str ''*''
      else if CHR ''r'' \<in> set cs \<or> CHR ''a'' \<in> set cs then Object redacted
      else Str redacted)"

text \<open>\<open>_argument_conversions\<close>: the letters of the conversions that take an argument, and whether one of
  them is in a token.\<close>

definition letters_of :: "active list \<Rightarrow> taken \<Rightarrow> string" where
  "letters_of as t = map ac_conversion (filter (\<lambda>a. ac_taken a = t) as)"

definition in_token :: "active list \<Rightarrow> nat list \<Rightarrow> taken \<Rightarrow> bool" where
  "in_token as bearers t \<longleftrightarrow> list_ex (\<lambda>(k, a). k \<in> set bearers \<and> ac_taken a = t) (enumerate 0 as)"

definition redact_argument :: "string list \<Rightarrow> argument \<Rightarrow> string \<Rightarrow> argument" where
  "redact_argument secrets v cs =
     (case v of
        Object s \<Rightarrow> Object s
      | Str s \<Rightarrow>
          (let r = redact secrets s
           in if r = s then v else if CHR ''c'' \<in> set cs then safe_sentinel cs else Str r))"

definition filter_argument :: "string list \<Rightarrow> active list \<Rightarrow> nat list \<Rightarrow> taken \<Rightarrow> argument \<Rightarrow> argument" where
  "filter_argument secrets as bearers t v =
     (if in_token as bearers t then safe_sentinel (letters_of as t) else redact_argument secrets v (letters_of as t))"

section \<open>The filter\<close>

text \<open>A message that is not a string passes; \<open>None\<close> stands for it.\<close>

type_synonym log_record = "string option \<times> arguments"

definition filter_record :: "string list \<Rightarrow> log_record \<Rightarrow> exn + log_record" where
  "filter_record secrets rec =
     (case rec of
        (None, args) \<Rightarrow> Inr (None, args)
      | (Some template, NoArguments) \<Rightarrow> Inr (Some (redact secrets template), NoArguments)
      | (Some template, args) \<Rightarrow>
          (case active_conversions template args of (as, consumed) \<Rightarrow>
             bind_result (redact_template secrets template as) (\<lambda>(message, bearers).
             Inr (Some message,
               (case args of
                  Positional vs \<Rightarrow>
                    Positional (map (\<lambda>(k, v). filter_argument secrets as bearers (Index k) v)
                      (enumerate 0 (take consumed vs)))
                | Named kvs \<Rightarrow> Named (map (\<lambda>(k, v). (k, filter_argument secrets as bearers (Key k) v)) kvs)
                | NoArguments \<Rightarrow> NoArguments)))))"

definition secret_filter :: "string list \<Rightarrow> string list" where
  "secret_filter secrets = filter (\<lambda>s. s \<noteq> []) secrets"

section \<open>What redaction removes\<close>

text \<open>A credential that redaction can hide: it does not overlap what it is replaced by, nor a marker.\<close>

definition credential :: "string \<Rightarrow> bool" where
  "credential p \<longleftrightarrow> CHR ''['' \<notin> set p \<and> CHR '']'' \<notin> set p \<and> CHR 0x00 \<notin> set p \<and> \<not> list_all is_digit p \<and>
     p \<noteq> ''*'' \<and> \<not> contains p ''REDACTED''"

lemma credential_nonempty: "credential p \<Longrightarrow> p \<noteq> []"
  by (auto simp: credential_def)

lemma contains_iff: "contains p s \<longleftrightarrow> (\<exists>u v. s = u @ p @ v)"
proof (induction s)
  case (Cons c s)
  have "(\<exists>u v. c # s = u @ p @ v) \<longleftrightarrow> (\<exists>v. c # s = p @ v) \<or> (\<exists>u v. s = u @ p @ v)"
    by (metis append_Cons append_Nil list.inject list.exhaust)
  with Cons show ?case by (auto simp: starts_with_iff)
qed auto

lemma contains_infix: "contains p t \<Longrightarrow> contains p (a @ t @ b)"
  unfolding contains_iff by (metis append.assoc)

lemma contains_char:
  assumes "c \<notin> set p" and "p \<noteq> []"
  shows "contains p (a @ c # b) \<longleftrightarrow> contains p a \<or> contains p b"
proof
  assume "contains p (a @ c # b)"
  then obtain u v where eq: "a @ c # b = u @ p @ v" unfolding contains_iff by blast
  from eq obtain w where "a = u @ w \<and> w @ c # b = p @ v \<or> a @ w = u \<and> c # b = w @ p @ v"
    unfolding append_eq_append_conv2 by blast
  then show "contains p a \<or> contains p b"
  proof
    assume a: "a = u @ w \<and> w @ c # b = p @ v"
    show ?thesis
    proof (cases "length p \<le> length w")
      case True
      with a have "w = p @ drop (length p) w"
        by (metis append_eq_conv_conj append_take_drop_id take_append take_all_iff append.right_neutral diff_is_0_eq take0)
      with a show ?thesis unfolding contains_iff by metis
    next
      case False
      with a have "p ! length w = c" by (metis nth_append nth_append_length not_le)
      with False assms(1) show ?thesis by (metis nth_mem not_le)
    qed
  next
    assume b: "a @ w = u \<and> c # b = w @ p @ v"
    show ?thesis
    proof (cases w)
      case Nil
      with b assms have False by (cases p) auto
      then show ?thesis ..
    next
      case (Cons d w')
      with b have "b = w' @ p @ v" by simp
      then show ?thesis unfolding contains_iff by blast
    qed
  qed
next
  assume "contains p a \<or> contains p b"
  then show "contains p (a @ c # b)" using contains_infix [of p a "[]" "c # b"] contains_infix [of p b "a @ [c]" "[]"] by auto
qed

lemma contains_redacted:
  assumes "credential p"
  shows "contains p (a @ redacted @ b) \<longleftrightarrow> contains p a \<or> contains p b"
proof -
  have p: "CHR ''['' \<notin> set p" "CHR '']'' \<notin> set p" "\<not> contains p ''REDACTED''" "p \<noteq> []"
    using assms credential_nonempty [OF assms] unfolding credential_def by simp_all
  have "a @ redacted @ b = a @ CHR ''['' # (''REDACTED'' @ CHR '']'' # b)" by (simp add: redacted_def)
  moreover have "contains p (a @ CHR ''['' # (''REDACTED'' @ CHR '']'' # b)) \<longleftrightarrow>
      contains p a \<or> contains p (''REDACTED'' @ CHR '']'' # b)"
    by (rule contains_char [OF p(1,4)])
  moreover have "contains p (''REDACTED'' @ CHR '']'' # b) \<longleftrightarrow> contains p ''REDACTED'' \<or> contains p b"
    by (rule contains_char [OF p(2,4)])
  ultimately show ?thesis using p(3) by (simp only: simp_thms)
qed

text \<open>Replacing anything by the mark brings no credential into being.\<close>

lemma replace_keeps_absent:
  assumes "credential p"
  shows "contains p (a @ replace_all q redacted s) \<Longrightarrow> contains p (a @ s)"
proof (induction s arbitrary: a rule: length_induct)
  case (1 s)
  show ?case
  proof (cases s)
    case Nil
    with "1.prems" show ?thesis by simp
  next
    case (Cons c t)
    then have shorter: "length (drop (length q - 1) t) < length s" "length t < length s" by simp_all
    show ?thesis
    proof (cases "q \<noteq> [] \<and> starts_with (c # t) q")
      case True
      then have "replace_all q redacted (c # t) = redacted @ replace_all q redacted (drop (length q - 1) t)" by simp
      with "1.prems" Cons have "contains p (a @ redacted @ replace_all q redacted (drop (length q - 1) t))"
        by (simp only:)
      with contains_redacted [OF assms] consider "contains p a"
        | "contains p ([] @ replace_all q redacted (drop (length q - 1) t))" by auto
      then show ?thesis
      proof cases
        case 1
        then show ?thesis using contains_infix [of p a "[]"] by simp
      next
        case 2
        with "1.IH" shorter(1) have "contains p ([] @ drop (length q - 1) t)" by blast
        then show ?thesis
          using contains_infix [of p "drop (length q - 1) t" "a @ c # take (length q - 1) t" "[]"] Cons by simp
      qed
    next
      case False
      then have "replace_all q redacted (c # t) = c # replace_all q redacted t" by auto
      with "1.prems" Cons have "contains p ((a @ [c]) @ replace_all q redacted t)" by simp
      with "1.IH" shorter(2) have "contains p ((a @ [c]) @ t)" by blast
      with Cons show ?thesis by simp
    qed
  qed
qed

text \<open>Replacing the credential itself leaves no occurrence.\<close>

lemma occurrence_starts:
  assumes "contains p a" and "p \<noteq> []"
  shows "\<exists>i<length a. starts_with (drop i (a @ s)) p"
proof -
  from assms(1) obtain u v where "a = u @ p @ v" unfolding contains_iff by blast
  with assms(2) show ?thesis by (intro exI [of _ "length u"]) (simp add: starts_with_iff)
qed

lemma replace_removes_from:
  assumes "credential p"
  shows "(\<And>i. i < length a \<Longrightarrow> \<not> starts_with (drop i (a @ s)) p) \<Longrightarrow> \<not> contains p (a @ replace_all p redacted s)"
proof (induction s arbitrary: a rule: length_induct)
  case (1 s)
  note ne = credential_nonempty [OF assms]
  have absent: "\<not> contains p a" using occurrence_starts [OF _ ne, of a s] "1.prems" by blast
  show ?case
  proof (cases s)
    case Nil
    with absent show ?thesis by simp
  next
    case (Cons c t)
    then have shorter: "length (drop (length p - 1) t) < length s" "length t < length s" by simp_all
    show ?thesis
    proof (cases "starts_with (c # t) p")
      case True
      with ne have "replace_all p redacted (c # t) = redacted @ replace_all p redacted (drop (length p - 1) t)" by simp
      moreover have "\<not> contains p ([] @ replace_all p redacted (drop (length p - 1) t))"
        using "1.IH" shorter(1) by (metis less_zeroE list.size(3))
      ultimately show ?thesis using contains_redacted [OF assms] absent Cons by simp
    next
      case False
      then have "replace_all p redacted (c # t) = c # replace_all p redacted t" by simp
      moreover have "\<not> contains p ((a @ [c]) @ replace_all p redacted t)"
      proof (rule "1.IH" [rule_format, OF shorter(2)])
        fix i assume "i < length (a @ [c])"
        then show "\<not> starts_with (drop i ((a @ [c]) @ t)) p"
          using "1.prems" [of i] False ne Cons by (cases "i = length a") auto
      qed
      ultimately show ?thesis using Cons by simp
    qed
  qed
qed

lemma replace_removes: "credential p \<Longrightarrow> \<not> contains p (replace_all p redacted s)"
  using replace_removes_from [of p "[]" s] by simp

lemma replace_secrets_keeps_absent:
  "credential p \<Longrightarrow> \<not> contains p s \<Longrightarrow> \<not> contains p (replace_secrets secrets s)"
  unfolding replace_secrets_def
  by (induction secrets arbitrary: s) (use replace_keeps_absent [of p "[]"] in auto)

lemma replace_secrets_removes:
  "credential p \<Longrightarrow> p \<in> set secrets \<Longrightarrow> \<not> contains p (replace_secrets secrets s)"
proof (induction secrets arbitrary: s)
  case (Cons q secrets)
  have step: "replace_secrets (q # secrets) s = replace_secrets secrets (replace_all q redacted s)"
    by (simp add: replace_secrets_def)
  show ?case
  proof (cases "p = q")
    case True
    then show ?thesis unfolding step
      using replace_secrets_keeps_absent [OF Cons.prems(1) replace_removes [OF Cons.prems(1)]] by simp
  next
    case False
    with Cons show ?thesis unfolding step by simp
  qed
qed simp

lemma bearers_keep_absent:
  assumes "credential p"
  shows "contains p (a @ bearer_text (\<lambda>g token. g @ redacted) (bearer_pieces s)) \<Longrightarrow> contains p (a @ s)"
proof (induction s arbitrary: a rule: bearer_pieces.induct)
  case (1 s)
  show ?case
  proof (cases "bearer_at s")
    case None
    show ?thesis
    proof (cases s)
      case Nil
      with "1.prems" None show ?thesis by (simp add: bearer_pieces.simps)
    next
      case (Cons c t)
      with "1.prems" None have "contains p ((a @ [c]) @ bearer_text (\<lambda>g token. g @ redacted) (bearer_pieces t))"
        by (subst (asm) bearer_pieces.simps) simp
      then show ?thesis using "1.IH"(1) [OF None Cons, of "a @ [c]"] Cons by simp
    qed
  next
    case (Some m)
    obtain g token rest where m: "m = (g, token, rest)" by (cases m)
    with Some have at: "bearer_at s = Some (g, token, rest)" by simp
    note s = bearer_at_parts [OF at]
    from "1.prems" at have "contains p ((a @ g) @ redacted @ bearer_text (\<lambda>g token. g @ redacted) (bearer_pieces rest))"
      by (subst (asm) bearer_pieces.simps) simp
    with contains_redacted [OF assms, of "a @ g"] consider "contains p (a @ g)"
      | "contains p ([] @ bearer_text (\<lambda>g token. g @ redacted) (bearer_pieces rest))"
      unfolding append_Nil by blast
    then show ?thesis
    proof cases
      case 1
      then show ?thesis using contains_infix [of p "a @ g" "[]" "token @ rest"] s by simp
    next
      case 2
      then have "contains p rest" using "1.IH"(2) [OF at refl refl, of "[]"] by simp
      then show ?thesis using contains_infix [of p rest "a @ g @ token" "[]"] s by simp
    qed
  qed
qed

lemma redact_removes: "credential p \<Longrightarrow> p \<in> set secrets \<Longrightarrow> \<not> contains p (redact secrets s)"
  unfolding redact_def
  using bearers_keep_absent [of p "[]"] replace_secrets_removes by fastforce

section \<open>What the filter lets through\<close>

fun strings_of :: "arguments \<Rightarrow> string list" where
  "strings_of (Positional vs) = List.map_filter (\<lambda>v. case v of Str s \<Rightarrow> Some s | Object _ \<Rightarrow> None) vs"
| "strings_of (Named kvs) = List.map_filter (\<lambda>(_, v). case v of Str s \<Rightarrow> Some s | Object _ \<Rightarrow> None) kvs"
| "strings_of NoArguments = []"

definition hides :: "string \<Rightarrow> argument \<Rightarrow> bool" where
  "hides p v \<longleftrightarrow> (case v of Str s \<Rightarrow> \<not> contains p s | Object _ \<Rightarrow> True)"

lemma credential_marks:
  assumes "credential p"
  shows "\<not> contains p redacted" "\<not> contains p ''*''"
proof -
  show "\<not> contains p redacted"
    using contains_redacted [OF assms, of "[]" "[]"] credential_nonempty [OF assms] by simp
  show "\<not> contains p ''*''"
  proof
    assume "contains p ''*''"
    then obtain u v where "''*'' = u @ p @ v" unfolding contains_iff by blast
    then have "p = ''*''" using credential_nonempty [OF assms] by (cases u; cases p) auto
    with assms show False by (simp add: credential_def)
  qed
qed

lemma sentinel_hides: "credential p \<Longrightarrow> hides p (safe_sentinel cs)"
  using credential_marks by (simp add: hides_def safe_sentinel_def)

lemma filter_argument_hides:
  assumes "credential p" and "p \<in> set secrets"
  shows "hides p (filter_argument secrets as bearers t v)"
proof (cases v)
  case (Str s)
  have "\<not> contains p (redact secrets s)" by (rule redact_removes [OF assms])
  with Str sentinel_hides [OF assms(1)] show ?thesis
    by (auto simp: filter_argument_def redact_argument_def hides_def Let_def)
qed (auto simp: filter_argument_def redact_argument_def hides_def sentinel_hides [OF assms(1), unfolded hides_def])

text \<open>The runs between the markers are free of a credential, and so is the text they make with them.\<close>

lemma marker_hides:
  assumes "credential p" and "list_all is_digit ds"
  shows "contains p (a @ marker ds @ b) \<longleftrightarrow> contains p a \<or> contains p b"
proof -
  have p: "CHR 0x00 \<notin> set p" "\<not> list_all is_digit p" "p \<noteq> []"
    using assms(1) credential_nonempty [OF assms(1)] unfolding credential_def by simp_all
  have "\<not> contains p ds"
  proof
    assume "contains p ds"
    then obtain u v where "ds = u @ p @ v" unfolding contains_iff by blast
    with assms(2) p(2) show False by simp
  qed
  moreover have "a @ marker ds @ b = a @ CHR 0x00 # (ds @ CHR 0x00 # b)" by (simp add: marker_def)
  ultimately show ?thesis
    by (simp only: contains_char [OF p(1,3)] simp_thms)
qed

fun good_pieces :: "marked_piece list \<Rightarrow> bool" where
  "good_pieces [] = True"
| "good_pieces (Literal c # ps) = good_pieces ps"
| "good_pieces (Marker ds # ps) = (list_all is_digit ds \<and> good_pieces ps)"

lemma good_marked_pieces: "good_pieces (marked_pieces s)"
proof (induction s rule: marked_pieces.induct)
  case (1 s)
  show ?case
  proof (cases "marker_at s")
    case None
    with 1 show ?thesis by (subst marked_pieces.simps) (auto split: list.splits)
  next
    case (Some m)
    obtain ds rest where m: "m = (ds, rest)" by (cases m)
    with Some have "list_all is_digit ds"
      by (auto simp: marker_at_def Let_def list_all_iff dest: set_takeWhileD split: if_splits)
    moreover have "good_pieces (marked_pieces rest)" using 1(2) Some m by simp
    ultimately show ?thesis using Some m by (subst marked_pieces.simps) simp
  qed
qed

lemma replace_runs_removes:
  assumes "credential p"
  shows "p \<in> set secrets \<Longrightarrow> good_pieces ps \<Longrightarrow> \<not> contains p (replace_runs secrets run ps)"
proof (induction secrets run ps rule: replace_runs.induct)
  case (3 secrets run ds ps)
  then show ?case
    using marker_hides [OF assms(1), of ds "replace_secrets secrets run"] replace_secrets_removes [OF assms(1)] by simp
qed (use replace_secrets_removes [OF assms(1)] in auto)


text \<open>Three ways through the filter. The header name in the template and the token in an argument: the
  pattern is matched in each alone. An argument that is not a string, such as an exception whose text has
  the secret. And a template with a marker of its own makes the filter raise.\<close>

lemma filter_leaks:
  "filter_record [''top-secret''] (Some ''Authorization: %s'', Positional [Str ''Bearer other'']) =
    Inr (Some ''Authorization: %s'', Positional [Str ''Bearer other''])"
  "filter_record [''top-secret''] (Some ''failed: %s'', Positional [Object ''no top-secret'']) =
    Inr (Some ''failed: %s'', Positional [Object ''no top-secret''])"
  "filter_record [] (Some [CHR 0x00, CHR ''0'', CHR 0x00], Positional []) = Inl (OtherError ''IndexError'')"
  by code_simp+


section \<open>The formatters\<close>

text \<open>\<open>isoformat(timespec="microseconds")\<close> with a \<open>Z\<close>.\<close>

definition log_time :: "date \<Rightarrow> string" where
  "log_time t =
     fixed_dec 4 (d_year t) @ ''-'' @ fixed_dec 2 (d_month t) @ ''-'' @ fixed_dec 2 (d_day t) @ ''T'' @
     fixed_dec 2 (d_hour t) @ '':'' @ fixed_dec 2 (d_minute t) @ '':'' @ fixed_dec 2 (d_second t) @
     ''.'' @ fixed_dec 6 (d_micro t) @ ''Z''"

definition log_timestamp :: "rat \<Rightarrow> exn + string" where
  "log_timestamp created =
     (let us = epoch_us + timestamp_us created
      in if valid_instant us then Inr (log_time (to_date us)) else Inl OverflowError)"

record log_event =
  le_created :: rat
  le_level :: string
  le_name :: string
  le_message :: string
  le_event_id :: "string option"

definition format_json :: "log_event \<Rightarrow> exn + string" where
  "format_json e =
     bind_result (log_timestamp (le_created e)) (\<lambda>t.
     write_json
       (JObj ([(''timestamp'', JStr t), (''level'', JStr (le_level e)), (''component'', JStr (le_name e)),
               (''message'', JStr (le_message e))] @
              (case le_event_id e of None \<Rightarrow> [] | Some u \<Rightarrow> [(''event_id'', JStr u)]))) 2)"

definition format_text :: "log_event \<Rightarrow> exn + string" where
  "format_text e =
     bind_result (log_timestamp (le_created e)) (\<lambda>t. Inr (join_with '' '' [t, le_level e, le_name e, le_message e]))"

definition printable :: "string \<Rightarrow> bool" where
  "printable s \<longleftrightarrow> list_all (\<lambda>c. 32 \<le> (of_char c :: nat)) s"

lemma hex_digit_printable: "n < 16 \<Longrightarrow> 32 \<le> (of_char (hex_digit n) :: nat)"
  by (simp add: hex_digit_def)

lemma escape_printable: "printable (escape_char c)"
proof -
  have "(of_char c :: nat) div 16 < 16" "(of_char c :: nat) mod 16 < 16"
    using of_char_of [of "of_char c :: nat"] by (simp_all add: less_mult_imp_div_less)
  then show ?thesis
    by (auto simp: printable_def escape_char_def Let_def hex_digit_printable)
qed

lemma quote_printable: "printable (quote s)"
  using escape_printable by (auto simp: quote_def printable_def list_all_iff)

text \<open>A record in JSON is one line, whatever its message holds: no control character, so no line break,
  is in it. The text format has no such property: a message with a line break makes two lines.\<close>

lemma json_record_one_line: "format_json e = Inr s \<Longrightarrow> printable s"
  using quote_printable
  by (auto simp: format_json_def bind_result_Inr printable_def split: option.splits sum.splits)

section \<open>The log file\<close>

datatype log_output = Stdout | Log_File string

record log_handler =
  lh_output :: log_output
  lh_json :: bool
  lh_secrets :: "string list"

text \<open>The agent's logger, the handlers that were closed, and the descriptors that are open.\<close>

record log_state =
  lg_handlers :: "log_handler list"
  lg_closed :: "log_handler list"
  lg_level :: int
  lg_propagate :: bool
  lg_descriptors :: nat

record log_calls =
  lc_mkdir :: "exn + unit"
  lc_chmod :: "exn + unit"
  lc_open :: "exn + unit"
  lc_fchmod :: "exn + unit"
  lc_wrap :: "exn + unit"

definition open_log :: "bool \<Rightarrow> log_calls \<Rightarrow> (log_state, unit) prog" where
  "open_log posix d =
     andthen (lift_result (lc_open d))
       (andthen (modify (\<lambda>w. w\<lparr>lg_descriptors := Suc (lg_descriptors w)\<rparr>))
         (try_except
           (andthen (when_m posix (lift_result (lc_fchmod d))) (lift_result (lc_wrap d)))
           any_exn
           (\<lambda>e. andthen (modify (\<lambda>w. w\<lparr>lg_descriptors := lg_descriptors w - 1\<rparr>)) (throw e))))"

definition prepare_log_parent :: "bool \<Rightarrow> log_calls \<Rightarrow> (log_state, unit) prog" where
  "prepare_log_parent posix d = andthen (lift_result (lc_mkdir d)) (when_m posix (lift_result (lc_chmod d)))"

definition level_number :: "string \<Rightarrow> int" where
  "level_number name =
     (case map_of [(''CRITICAL'', 50), (''FATAL'', 50), (''ERROR'', 40), (''WARN'', 30), (''WARNING'', 30), (''INFO'', 20),
        (''DEBUG'', 10), (''NOTSET'', 0)] name of Some n \<Rightarrow> n | None \<Rightarrow> 20)"

definition new_handler :: "config \<Rightarrow> log_handler" where
  "new_handler c =
     \<lparr>lh_output = (case log_path c of None \<Rightarrow> Stdout | Some p \<Rightarrow> Log_File p), lh_json = (log_format c = Json),
      lh_secrets = secret_filter (case api_token c of None \<Rightarrow> [] | Some t \<Rightarrow> [t])\<rparr>"

definition file_handlers :: "log_handler list \<Rightarrow> nat" where
  "file_handlers hs = length (filter (\<lambda>h. lh_output h \<noteq> Stdout) hs)"

text \<open>Closing a handler closes the file it has, not the standard output.\<close>

definition configure_logging :: "config \<Rightarrow> bool \<Rightarrow> log_calls \<Rightarrow> (log_state, unit) prog" where
  "configure_logging c posix d =
     andthen (when_m (log_path c \<noteq> None) (andthen (prepare_log_parent posix d) (open_log posix d)))
       (modify (\<lambda>w. w\<lparr>lg_handlers := [new_handler c], lg_level := level_number (log_level c), lg_propagate := False,
          lg_closed := lg_closed w @ lg_handlers w,
          lg_descriptors := lg_descriptors w - file_handlers (lg_handlers w)\<rparr>))"

lemma wp_open_log:
  "wp (open_log posix d) (\<lambda>_ v. v = w\<lparr>lg_descriptors := Suc (lg_descriptors w)\<rparr>) (\<lambda>e v. fatal e \<or> v = w) w"
  by (cases "lc_open d"; cases "lc_fchmod d"; cases "lc_wrap d"; cases posix)
    (simp_all add: open_log_def when_m_def wp_simps)

lemma wp_prepare_log_parent: "wp (prepare_log_parent posix d) (\<lambda>_ v. v = w) (\<lambda>_ v. v = w) w"
  by (cases "lc_mkdir d"; cases "lc_chmod d") (simp_all add: prepare_log_parent_def when_m_def wp_simps)

lemma wp_open_in_parent:
  "wp (andthen (prepare_log_parent posix d) (open_log posix d))
     (\<lambda>_ v. v = w\<lparr>lg_descriptors := Suc (lg_descriptors w)\<rparr>) (\<lambda>e v. fatal e \<or> v = w) w"
  unfolding wp_andthen by (rule wp_mono [OF wp_prepare_log_parent]) (auto simp: wp_open_log)



end
