(* ===== verification/Spec2Isabelle.thy ===== *)
theory Spec2Isabelle
  imports Command_Line Logging
begin

text \<open>
  A verification development for the monitor agent (\<open>src/src/monitor_agent\<close>), a telemetry agent that
  collects facts about the host it runs on, makes a JSON event of them, sends it to an HTTPS collector, and
  keeps what it could not send in a spool on disk.

  \<^bold>\<open>How the program works.\<close> \<open>cli.py\<close> reads the configuration (\<open>config.py\<close>) from the environment, probes
  the paths, sets up logging (\<open>logging_setup.py\<close>), resolves the identity of the machine (\<open>identity.py\<close>), and
  builds the nine collectors (\<open>collectors/\<close>), the transport (\<open>transport.py\<close>), the spool (\<open>spool.py\<close>) and the
  runtime (\<open>runtime.py\<close>). A cycle of the runtime runs all collectors on a thread pool with one deadline
  (\<open>orchestrator.py\<close>), builds the event (\<open>payload.py\<close>), replays the backlog of the spool in order, and then
  sends the event or queues it. The components call one another and share no other state; what they hand over
  is in \<open>models.py\<close>.

  \<^bold>\<open>Where it is modelled.\<close>
  \<^item> \<^theory_text>\<open>Prelude\<close>: exceptions as a datatype, Python code with effects as functions from a state to a
    result and a state (\<open>prog\<close>), \<open>try\<close>/\<open>except\<close>/\<open>finally\<close> and loops as combinators, their weakest
    preconditions (\<open>wp\<close>) and the invariants they keep (\<open>keeps\<close>). \<^theory_text>\<open>Dates\<close>, \<^theory_text>\<open>Numbers\<close>,
    \<^theory_text>\<open>Json\<close>, \<^theory_text>\<open>Uuid\<close>, \<^theory_text>\<open>Values\<close>: what the code uses of Python's \<open>datetime\<close>, \<open>int\<close> and
    \<open>float\<close>, \<open>json\<close>, \<open>uuid\<close>, and objects with attributes that raise.
  \<^item> \<open>spool.py\<close>: \<^theory_text>\<open>File_System\<close> (inodes, links, descriptors, locks, faults, the death of the process),
    \<^theory_text>\<open>Record_Names\<close>, \<^theory_text>\<open>Spool_Base\<close> (names, guards, reservations), \<^theory_text>\<open>Dead_Letters\<close> (markers and the
    move to the dead letters), \<^theory_text>\<open>Spool\<close> (recovery and the public operations), each definition under
    the name of its method. \<^theory_text>\<open>Frames\<close> and \<^theory_text>\<open>Publication\<close> prove once, in locales over an
    invariant, what every operation keeps; \<^theory_text>\<open>Spool_Safety\<close> interprets them (no partial record, contents
    never altered, no record lost) and closes them under histories; \<^theory_text>\<open>Retention\<close> and
    \<^theory_text>\<open>Spool_Operations\<close> compute the operations on a spool at rest.
  \<^item> \<^theory_text>\<open>Config\<close>, \<^theory_text>\<open>Models\<close>, \<^theory_text>\<open>Payload\<close>, \<^theory_text>\<open>Orchestrator\<close>, \<^theory_text>\<open>Transport\<close>, \<^theory_text>\<open>Runtime\<close>,
    \<^theory_text>\<open>Identity\<close>, \<^theory_text>\<open>Logging\<close>: the file of that name; \<^theory_text>\<open>Runtime_Safety\<close> has the facts on the
    runtime, whose spool is the locale \<open>spool_client\<close>.
  \<^item> \<open>collectors/\<close>: \<^theory_text>\<open>Processes\<close>, \<^theory_text>\<open>File_Audit\<close>, \<^theory_text>\<open>Software\<close>, \<^theory_text>\<open>Network\<close>, \<^theory_text>\<open>Resources\<close>,
    \<^theory_text>\<open>Host_Collectors\<close> (users, system, active window, screenshot), and \<^theory_text>\<open>Collectors\<close>, the registry.
  \<^item> \<^theory_text>\<open>Command_Line\<close>: \<open>cli.py\<close>, which wires all of them together. This theory has the properties of
    what one component builds for another.

  \<^bold>\<open>What comes from outside\<close> is an argument or a script in the state: what system calls, \<open>psutil\<close>, commands, the
  registry and Pillow answer, as values or exceptions; the answers of the server and the random draws
  (\<open>net\<close>); the readings of clocks and the stop event (\<open>machine\<close>); when collectors start and finish;
  UUIDs; SHA-256; \<open>ipaddress\<close> and \<open>unicodedata\<close> in \<open>urlsplit\<close>; the dates of e-mail headers. The \<open>journal\<close>
  of the runtime is written by the model and read by no code.

  \<^bold>\<open>What the lemmas show.\<close> Safety of the spool under every fault and death (no partial record, nothing lost,
  contents and directories intact), for every history and, through the runtime, for the whole life of the agent; exact results
  of its operations and of retention against reference functions; that a cycle accounts for its event, that
  records leave the spool only after an answer of the server, and that the exit code of \<open>once\<close> says what
  happened; bounds and ends of the loops (requests, deadlines, heartbeats); the limits and
  safeguards every accepted configuration satisfies, and that no constructor then fails; privacy (no sensitive
  data without notice, redaction of command lines and log records); agreement of agents that race for one
  identity; isolation of the collectors' failures; that observations reach the payload unchanged; cleaning
  up (probes, registry keys, transport, log files).

  \<^bold>\<open>Bounds.\<close> \<open>move_fuel\<close> bounds the turns of a move whose destination other processes take in between (undisturbed,
  the first or second turn ends it), and running out is \<open>Hang\<close>,
  excluded where a theorem says that the operation returns; \<open>max_candidates\<close> is the loop's own million.
  \<open>fuel\<close> of \<open>run_agent\<close> bounds the heartbeats: \<open>stop_ends_loop\<close> shows that any bound above the first query that
  is answered yes gives the same run. The search for the next deadline is a partial function, shown to
  end. \<open>alone\<close> (the identity file), the patterns and the walk of the audit terminate by measures. Recursion
  depth is a parameter of the JSON code.

  \<^bold>\<open>Conventions.\<close> The semantics is that of CPython 3.14: \<open>Path.exists\<close> and \<open>glob\<close> ignore \<open>OSError\<close>. A text is its UTF-8
  bytes; case, space and digits are those of ASCII. Floats are binary64 values without the sign of zero;
  those in JSON are their text, and those of \<open>psutil\<close> are finite. Inode numbers are not used twice. One process
  uses a \<open>Spool\<close> object, others appear as locks. The tree does not change during an audit. The collectors of
  \<open>software\<close> hold a lock, so their calls are atomic. Integers of more than 4300 digits are refused
  by the JSON code; markers in log templates are shorter. Closing a log handler does not raise.

  \<^bold>\<open>Not modelled:\<close> \<open>argparse\<close>, what \<open>print\<close> does with its text, and the registration of signal handlers (the signals are the
  stop event); the rotation of log files and the \<open>%\<close>-formatting of messages (standard library); the
  log calls of the runtime; psutil, \<open>winreg\<close>, \<open>ctypes\<close>, Pillow and \<open>requests\<close> themselves; the scheduling of
  threads beyond the times of each run; the wrapper \<open>agent/monitor_agent.py\<close>; tests, packaging and deployment files.
\<close>

section \<open>Properties across components\<close>

text \<open>C30: What \<open>payload.py\<close> builds is what its consumers demand: with a machine id, every built
  event passes the transport's check of the delivery fields, and with a UUID as event id the spool's
  check too, so that neither refuses it.\<close>

theorem built_payload_accepted:
  assumes "build_payload h start fresh ev ident b n None = Inr d"
    and "id_value ident \<noteq> []" and "uuid_ok fresh"
  shows "validate_payload d = Inr () \<and> valid_payload (JObj d) \<and>
    record_name (JObj d) us = Inr (record_stamp us @ ''_'' @ fresh @ ''.json'')"
proof -
  have "\<not> uuid_ok []" by code_simp
  then have "fresh \<noteq> []" using assms(3) by auto
  moreover have id: "json_str (dict_get d ''event_id'') = Some fresh"
  proof -
    have "field_text d ''event_id'' = fresh" by (rule built_accepted(1) [OF assms(1,2)])
    with \<open>fresh \<noteq> []\<close> show ?thesis by (simp add: field_text_def split: option.splits)
  qed
  ultimately show ?thesis
    using built_accepted(2,3) [OF assms(1,2)] assms(3) by simp
qed

lemma sample_uuid: "uuid_ok ''12345678-1234-4678-9234-567812345678''"
  by code_simp

theorem built_payload_accepted_witness:
  "\<exists>d. build_payload sample_host 0 ''12345678-1234-4678-9234-567812345678'' ''startup'' sample_identity sample_batch
      NowNone None = Inr d \<and> validate_payload d = Inr ()"
proof -
  obtain d where "build_payload sample_host 0 ''12345678-1234-4678-9234-567812345678'' ''startup'' sample_identity
      sample_batch NowNone None = Inr d"
    using sample_built by blast
  moreover from built_payload_accepted [OF this _ sample_uuid, of 0] have "validate_payload d = Inr ()"
    by (simp add: sample_identity_def)
  ultimately show ?thesis by blast
qed

text \<open>C31: No accepted configuration makes a constructor of the agent raise: the runtime, the limits of
  the collection, the nine collectors, the transport (when transmission was asked for) and, on a disk
  whose preparation succeeds, the spool.\<close>

theorem accepted_config_constructs:
  assumes "load_config rules is_file source True os = Inr c"
  shows "(\<exists>rt. new_runtime c ident h tr sp = Inr rt) \<and> (\<exists>cs. build_collectors c ident pf = Inr cs) \<and>
    validate_limits (max_collector_workers c) (collection_timeout_sec c) = Inr () \<and>
    (\<exists>t. new_transport c 4 = Inr t \<and> tr_attempts t = 4) \<and>
    (prepare \<lparr>max_bytes = spool_max_bytes c, max_age_sec = spool_max_age_sec c, sha = f, depth_limit = k\<rparr> w = (Inr (), v) \<longrightarrow>
      fst (new_spool (spool_max_bytes c) (spool_max_age_sec c) f k w) =
        Inr \<lparr>max_bytes = spool_max_bytes c, max_age_sec = spool_max_age_sec c, sha = f, depth_limit = k\<rparr>)"
  (is "?runtime \<and> ?collectors \<and> ?limits \<and> ?transport \<and> ?spool")
proof (intro conjI)
  have limits: "within_limits c" by (rule load_config_fields [OF assms])
  then show ?runtime by (simp add: new_runtime_def within_limits_def require_def)
  show ?collectors by (rule limits_build [OF limits])
  show ?limits
    using limits by (auto simp: validate_limits_def within_limits_def float_within_def require_def split: pyfloat.splits)
  show ?transport by (rule accepted_transport [OF assms])
  show ?spool
    using limits by (simp add: new_spool_def within_limits_def Let_def andthen_def bnd_def ret_def)
qed

theorem accepted_config_constructs_witness:
  "\<exists>c t. load_config sample_rules (\<lambda>_. False) sample_env True ''linux'' = Inr c \<and> new_transport c 4 = Inr t"
proof -
  obtain c where c: "load_config sample_rules (\<lambda>_. False) sample_env True ''linux'' = Inr c" using sample_config by blast
  from accepted_config_constructs [OF this] c show ?thesis by blast
qed

end
